(* ===== verification/Gw_Prelude.thy ===== *)
theory Gw_Prelude
  imports Main "HOL-Library.Word"
begin

text \<open>
  Shared vocabulary of the development: Rust integers and strings, results with panics,
  stateful fallible actions, decimal formatting, and the generic list lemmas that the
  component theories use.  Nothing here is specific to the gateway.
\<close>

section \<open>Collections of rewrite rules\<close>

named_theorems res_simps \<open>computation rules of the result and action combinators\<close>
named_theorems res_split \<open>inversion of a successful or failed combinator\<close>

section \<open>Integers and strings\<close>

text \<open>
  Machine integers keep their width.  A Rust string is the list of its Unicode scalar
  values, so that \<open>length\<close> counts characters and \<open>utf8\<close> gives the bytes.
\<close>

type_synonym u8 = "8 word"
type_synonym u16 = "16 word"
type_synonym u32 = "32 word"
type_synonym u64 = "64 word"

type_synonym uchar = nat
type_synonym str = "uchar list"

definition lit :: "string \<Rightarrow> str" where
  "lit s = map of_char s"

lemma lit_Nil [simp]: "lit [] = []"
  by (simp add: lit_def)

lemma lit_Cons [simp]: "lit (c # s) = of_char c # lit s"
  by (simp add: lit_def)

lemma length_lit [simp]: "length (lit s) = length s"
  by (simp add: lit_def)

definition utf8_char :: "uchar \<Rightarrow> u8 list" where
  "utf8_char c =
     (if c < 0x80 then [of_nat c]
      else if c < 0x800 then [of_nat (0xC0 + c div 64), of_nat (0x80 + c mod 64)]
      else if c < 0x10000 then
        [of_nat (0xE0 + c div 4096), of_nat (0x80 + c div 64 mod 64), of_nat (0x80 + c mod 64)]
      else
        [of_nat (0xF0 + c div 262144), of_nat (0x80 + c div 4096 mod 64),
         of_nat (0x80 + c div 64 mod 64), of_nat (0x80 + c mod 64)])"

definition utf8 :: "str \<Rightarrow> u8 list" where
  "utf8 s = concat (map utf8_char s)"

lemma utf8_Nil [simp]: "utf8 [] = []"
  by (simp add: utf8_def)

lemma utf8_Cons [simp]: "utf8 (c # s) = utf8_char c @ utf8 s"
  by (simp add: utf8_def)

lemma utf8_append [simp]: "utf8 (s @ t) = utf8 s @ utf8 t"
  by (simp add: utf8_def)

lemma utf8_char_ascii: "c < 128 \<Longrightarrow> utf8_char c = [of_nat c]"
  by (simp add: utf8_char_def)

lemma utf8_ascii: "\<forall>c\<in>set s. c < 128 \<Longrightarrow> utf8 s = map of_nat s"
  by (induction s) (simp_all add: utf8_char_ascii)

lemma utf8_map_unat: "\<forall>b\<in>set bs. unat b < 128 \<Longrightarrow> utf8 (map unat bs) = bs" for bs :: "u8 list"
  by (induction bs) (simp_all add: utf8_char_ascii)

text \<open>A character beyond ASCII starts with a byte that has its high bit set.\<close>

lemma utf8_char_lead:
  assumes "128 \<le> c" and "c < 0x110000"
  shows "\<exists>b bs. utf8_char c = b # bs \<and> 128 \<le> unat b"
proof -
  consider "c < 0x800" | "0x800 \<le> c" "c < 0x10000" | "0x10000 \<le> c" by linarith
  then show ?thesis
  proof cases
    case 1
    have "c div 64 < 32" using 1 by (simp add: div_less_iff_less_mult)
    then show ?thesis using 1 assms
      by (simp add: utf8_char_def unat_of_nat take_bit_nat_def del: of_nat_add)
  next
    case 2
    have "c div 4096 < 16" using 2 by (simp add: div_less_iff_less_mult)
    then show ?thesis using 2 assms
      by (simp add: utf8_char_def unat_of_nat take_bit_nat_def del: of_nat_add)
  next
    case 3
    have "c div 262144 < 5" using assms by (simp add: div_less_iff_less_mult)
    then show ?thesis using 3 assms
      by (simp add: utf8_char_def unat_of_nat take_bit_nat_def del: of_nat_add)
  qed
qed

text \<open>\<^verbatim>\<open>Path::join\<close> with a relative name.\<close>

definition path_join :: "str \<Rightarrow> str \<Rightarrow> str" where
  "path_join dir name = (if dir = [] \<or> last dir = 47 then dir @ name else dir @ [47] @ name)"

section \<open>Results and panics\<close>

text \<open>
  A fallible call returns \<open>Inr\<close> of its value or \<open>Inl\<close> of a fault: \<open>Err e\<close> is
  Rust's \<open>Err(e)\<close>, and \<open>Panic m\<close> an unwinding with message \<open>m\<close>.  \<open>res_bind\<close> is the question
  mark operator, \<open>map_err\<close> is \<open>Result::map_err\<close> (a panic passes through it).
\<close>

datatype 'e fault = Err 'e | Panic str

type_synonym ('e, 'a) res = "'e fault + 'a"

definition res_bind :: "('e, 'a) res \<Rightarrow> ('a \<Rightarrow> ('e, 'b) res) \<Rightarrow> ('e, 'b) res" where
  "res_bind m f = (case m of Inl e \<Rightarrow> Inl e | Inr x \<Rightarrow> f x)"

lemma res_bind_simps [simp, res_simps]:
  "res_bind (Inl e) f = Inl e"
  "res_bind (Inr x) f = f x"
  by (simp_all add: res_bind_def)

lemma res_bind_eq_Inr [res_split]:
  "res_bind m f = Inr y \<longleftrightarrow> (\<exists>x. m = Inr x \<and> f x = Inr y)"
  by (cases m) simp_all

lemma res_bind_eq_Inl [res_split]:
  "res_bind m f = Inl e \<longleftrightarrow> m = Inl e \<or> (\<exists>x. m = Inr x \<and> f x = Inl e)"
  by (cases m) simp_all

fun map_err :: "('e \<Rightarrow> 'f) \<Rightarrow> ('e, 'a) res \<Rightarrow> ('f, 'a) res" where
  "map_err f (Inr x) = Inr x"
| "map_err f (Inl (Err e)) = Inl (Err (f e))"
| "map_err f (Inl (Panic m)) = Inl (Panic m)"

lemma map_err_eq_Inr [res_split]: "map_err f m = Inr y \<longleftrightarrow> m = Inr y"
  by (cases "(f, m)" rule: map_err.cases) simp_all

lemma map_err_eq_Err [res_split]: "map_err f m = Inl (Err e) \<longleftrightarrow> (\<exists>e'. m = Inl (Err e') \<and> e = f e')"
  by (cases "(f, m)" rule: map_err.cases) auto

lemma map_err_eq_Panic [res_split]: "map_err f m = Inl (Panic p) \<longleftrightarrow> m = Inl (Panic p)"
  by (cases "(f, m)" rule: map_err.cases) simp_all

text \<open>A library call without panics, whose error is wrapped by the caller.\<close>

fun of_sum :: "('e \<Rightarrow> 'f) \<Rightarrow> 'e + 'a \<Rightarrow> ('f, 'a) res" where
  "of_sum f (Inr x) = Inr x"
| "of_sum f (Inl e) = Inl (Err (f e))"

lemma of_sum_eq_Inr [res_split]: "of_sum f m = Inr y \<longleftrightarrow> m = Inr y"
  by (cases m) simp_all

lemma of_sum_eq_Err [res_split]: "of_sum f m = Inl (Err e) \<longleftrightarrow> (\<exists>e'. m = Inl e' \<and> e = f e')"
  by (cases m) auto

lemma of_sum_not_Panic [simp]: "of_sum f m \<noteq> Inl (Panic p)"
  by (cases m) simp_all

definition ok_or :: "'e \<Rightarrow> 'a option \<Rightarrow> ('e, 'a) res" where
  "ok_or e x = (case x of None \<Rightarrow> Inl (Err e) | Some v \<Rightarrow> Inr v)"

lemma ok_or_simps [simp, res_simps]: "ok_or e None = Inl (Err e)" "ok_or e (Some v) = Inr v"
  by (simp_all add: ok_or_def)

lemma ok_or_eq_Inr [res_split]: "ok_or e x = Inr y \<longleftrightarrow> x = Some y"
  by (cases x) simp_all

definition expect :: "str \<Rightarrow> 'a option \<Rightarrow> ('e, 'a) res" where
  "expect m x = (case x of None \<Rightarrow> Inl (Panic m) | Some v \<Rightarrow> Inr v)"

lemma expect_simps [simp, res_simps]: "expect m None = Inl (Panic m)" "expect m (Some v) = Inr v"
  by (simp_all add: expect_def)

lemma expect_eq_Inr [res_split]: "expect m x = Inr y \<longleftrightarrow> x = Some y"
  by (cases x) simp_all

definition ensure :: "bool \<Rightarrow> 'e \<Rightarrow> ('e, unit) res" where
  "ensure b e = (if b then Inr () else Inl (Err e))"

lemma ensure_simps [simp, res_simps]: "ensure True e = Inr ()" "ensure False e = Inl (Err e)"
  by (simp_all add: ensure_def)

lemma ensure_eq_Inr [res_split]: "ensure b e = Inr u \<longleftrightarrow> b"
  by (simp add: ensure_def)

text \<open>Collecting an iterator of results stops at the first fault.\<close>

fun collect :: "('a \<Rightarrow> ('e, 'b) res) \<Rightarrow> 'a list \<Rightarrow> ('e, 'b list) res" where
  "collect f [] = Inr []"
| "collect f (x # xs) = res_bind (f x) (\<lambda>y. res_bind (collect f xs) (\<lambda>ys. Inr (y # ys)))"

lemma collect_eq_Inr [res_split]:
  "collect f xs = Inr ys \<longleftrightarrow> list_all2 (\<lambda>x y. f x = Inr y) xs ys"
proof (induction xs arbitrary: ys)
  case Nil
  then show ?case by auto
next
  case (Cons x xs)
  then show ?case by (cases ys) (auto simp: res_bind_eq_Inr)
qed

lemma collect_length: "collect f xs = Inr ys \<Longrightarrow> length ys = length xs"
  by (auto simp: collect_eq_Inr dest: list_all2_lengthD)

lemma collect_Inr_map: "(\<And>x. x \<in> set xs \<Longrightarrow> f x = Inr (g x)) \<Longrightarrow> collect f xs = Inr (map g xs)"
  by (induction xs) simp_all

lemma collect_no_panic:
  "(\<And>x. x \<in> set xs \<Longrightarrow> f x \<noteq> Inl (Panic m)) \<Longrightarrow> collect f xs \<noteq> Inl (Panic m)"
  by (induction xs) (auto simp: res_bind_eq_Inl)

lemma collect_eq_Inl:
  "collect f xs = Inl e \<longleftrightarrow>
     (\<exists>i<length xs. f (xs ! i) = Inl e \<and> (\<forall>j<i. \<exists>y. f (xs ! j) = Inr y))"
proof (induction xs)
  case Nil
  then show ?case by simp
next
  case (Cons x xs)
  show ?case
  proof (cases "f x")
    case (Inl a)
    have "f x = Inl e \<Longrightarrow> \<exists>i<length (x # xs). f ((x # xs) ! i) = Inl e \<and>
        (\<forall>j<i. \<exists>y. f ((x # xs) ! j) = Inr y)"
      by (rule exI[of _ 0]) simp
    moreover have "i = 0" if "\<forall>j<i. \<exists>y. f ((x # xs) ! j) = Inr y" for i
      using that Inl by (cases i) force+
    ultimately show ?thesis using Inl by fastforce
  next
    case (Inr y)
    have "(\<exists>i<length (x # xs). f ((x # xs) ! i) = Inl e \<and> (\<forall>j<i. \<exists>y. f ((x # xs) ! j) = Inr y))
        \<longleftrightarrow> (\<exists>i<length xs. f (xs ! i) = Inl e \<and> (\<forall>j<i. \<exists>y. f (xs ! j) = Inr y))"
      (is "?L \<longleftrightarrow> ?R")
    proof
      assume ?L
      then obtain i where i: "i < length (x # xs)" "f ((x # xs) ! i) = Inl e"
        "\<forall>j<i. \<exists>y. f ((x # xs) ! j) = Inr y" by blast
      then obtain k where "i = Suc k" using Inr by (cases i) auto
      with i show ?R by (auto intro!: exI[of _ k])
    next
      assume ?R
      then obtain k where "k < length xs" "f (xs ! k) = Inl e" "\<forall>j<k. \<exists>y. f (xs ! j) = Inr y"
        by blast
      then show ?L using Inr by (intro exI[of _ "Suc k"]) (auto simp: less_Suc_eq_0_disj)
    qed
    with Inr Cons show ?thesis by (auto simp: res_bind_eq_Inl)
  qed
qed

section \<open>Stateful actions\<close>

text \<open>
  Code that awaits calls on its surroundings is an action: a function of the state of the
  surroundings that returns a result and the new state.  A fault keeps the state changes made
  before it.
\<close>

type_synonym ('s, 'e, 'a) act = "'s \<Rightarrow> ('e, 'a) res \<times> 's"

definition act_lift :: "('e, 'a) res \<Rightarrow> ('s, 'e, 'a) act" where
  "act_lift r = (\<lambda>s. (r, s))"

definition act_bind :: "('s, 'e, 'a) act \<Rightarrow> ('a \<Rightarrow> ('s, 'e, 'b) act) \<Rightarrow> ('s, 'e, 'b) act" where
  "act_bind m f = (\<lambda>s. case m s of (Inl e, s') \<Rightarrow> (Inl e, s') | (Inr x, s') \<Rightarrow> f x s')"

definition act_map_err :: "('e \<Rightarrow> 'f) \<Rightarrow> ('s, 'e, 'a) act \<Rightarrow> ('s, 'f, 'a) act" where
  "act_map_err f m = (\<lambda>s. case m s of (r, s') \<Rightarrow> (map_err f r, s'))"

text \<open>A library call on the surroundings, whose error is wrapped by the caller.\<close>

definition act_call :: "('e \<Rightarrow> 'f) \<Rightarrow> ('s \<Rightarrow> ('e + 'a) \<times> 's) \<Rightarrow> ('s, 'f, 'a) act" where
  "act_call f m = (\<lambda>s. case m s of (r, s') \<Rightarrow> (of_sum f r, s'))"

lemma act_lift_apply [simp, res_simps]: "act_lift r s = (r, s)"
  by (simp add: act_lift_def)

lemma act_bind_lift [simp, res_simps]:
  "act_bind (act_lift (Inr x)) f = f x"
  "act_bind (act_lift (Inl e)) f = act_lift (Inl e)"
  by (simp_all add: act_bind_def fun_eq_iff)

lemma act_bind_step [res_simps]:
  "m s = (Inr x, s') \<Longrightarrow> act_bind m f s = f x s'"
  "m s = (Inl e, s') \<Longrightarrow> act_bind m f s = (Inl e, s')"
  by (simp_all add: act_bind_def)

lemma act_bind_eq_Inr [res_split]:
  "act_bind m f s = (Inr y, t) \<longleftrightarrow> (\<exists>x s'. m s = (Inr x, s') \<and> f x s' = (Inr y, t))"
  by (auto simp: act_bind_def split: prod.splits sum.splits)

lemma act_bind_eq_Inl [res_split]:
  "act_bind m f s = (Inl e, t) \<longleftrightarrow>
     m s = (Inl e, t) \<or> (\<exists>x s'. m s = (Inr x, s') \<and> f x s' = (Inl e, t))"
  by (auto simp: act_bind_def split: prod.splits sum.splits)

lemma act_map_err_eq_Inr [res_split]: "act_map_err f m s = (Inr y, t) \<longleftrightarrow> m s = (Inr y, t)"
  by (auto simp: act_map_err_def map_err_eq_Inr split: prod.splits)

lemma act_map_err_eq_Err [res_split]:
  "act_map_err f m s = (Inl (Err e), t) \<longleftrightarrow> (\<exists>e'. m s = (Inl (Err e'), t) \<and> e = f e')"
  by (auto simp: act_map_err_def map_err_eq_Err split: prod.splits)

lemma act_map_err_eq_Panic [res_split]:
  "act_map_err f m s = (Inl (Panic p), t) \<longleftrightarrow> m s = (Inl (Panic p), t)"
  by (auto simp: act_map_err_def map_err_eq_Panic split: prod.splits)

lemma act_call_eq_Inr [res_split]: "act_call f m s = (Inr y, t) \<longleftrightarrow> m s = (Inr y, t)"
  by (auto simp: act_call_def of_sum_eq_Inr split: prod.splits)

lemma act_call_eq_Err [res_split]:
  "act_call f m s = (Inl (Err e), t) \<longleftrightarrow> (\<exists>e'. m s = (Inl e', t) \<and> e = f e')"
  by (auto simp: act_call_def of_sum_eq_Err split: prod.splits)

lemma act_call_not_Panic [simp]: "act_call f m s \<noteq> (Inl (Panic p), t)"
  by (auto simp: act_call_def split: prod.splits)

section \<open>Decimal formatting\<close>

text \<open>The formatting of an unsigned integer, and padding with the digit zero.\<close>

fun show_dec :: "nat \<Rightarrow> str" where
  "show_dec n = (if n < 10 then [48 + n] else show_dec (n div 10) @ [48 + n mod 10])"

declare show_dec.simps [simp del]

lemmas show_dec_unfold = show_dec.simps

definition pad_zero :: "nat \<Rightarrow> str \<Rightarrow> str" where
  "pad_zero w s = replicate (w - length s) 48 @ s"

lemma replicate_numeral_eq [simp]:
  "replicate (numeral k) x = x # replicate (pred_numeral k) x"
  by (simp add: numeral_eq_Suc)

definition ascii_digit :: "uchar \<Rightarrow> bool" where
  "ascii_digit c \<longleftrightarrow> 48 \<le> c \<and> c \<le> 57"

definition ascii_upper :: "uchar \<Rightarrow> bool" where
  "ascii_upper c \<longleftrightarrow> 65 \<le> c \<and> c \<le> 90"

definition ascii_lower :: "uchar \<Rightarrow> bool" where
  "ascii_lower c \<longleftrightarrow> 97 \<le> c \<and> c \<le> 122"

lemma show_dec_digits: "\<forall>c\<in>set (show_dec n). ascii_digit c"
proof (induction n rule: show_dec.induct)
  case (1 n)
  then show ?case
    by (subst show_dec.simps) (auto simp: ascii_digit_def)
qed

lemma show_dec_length: "0 < k \<Longrightarrow> n < 10 ^ k \<Longrightarrow> length (show_dec n) \<le> k"
proof (induction n arbitrary: k rule: show_dec.induct)
  case (1 n)
  show ?case
  proof (cases "n < 10")
    case True
    then show ?thesis using "1.prems" by (subst show_dec.simps) simp
  next
    case False
    have "k \<noteq> Suc 0" using "1.prems"(2) False by (intro notI) simp
    with "1.prems"(1) obtain j where j: "k = Suc j" "0 < j"
      by (cases k) auto
    then have "n div 10 < 10 ^ j" using "1.prems" by (simp add: div_less_iff_less_mult mult.commute)
    with "1.IH"[OF False j(2)] False j show ?thesis by (subst show_dec.simps) simp
  qed
qed

text \<open>Decimal reading: the left inverse that makes formatting injective.\<close>

definition read_dec :: "str \<Rightarrow> nat" where
  "read_dec s = foldl (\<lambda>n c. n * 10 + (c - 48)) 0 s"

lemma read_dec_append: "read_dec (s @ [c]) = read_dec s * 10 + (c - 48)"
  by (simp add: read_dec_def)

lemma read_show_dec: "read_dec (show_dec n) = n"
proof (induction n rule: show_dec.induct)
  case (1 n)
  then show ?case
    by (subst show_dec.simps) (auto simp: read_dec_append read_dec_def[of "[_]"])
qed

lemma read_dec_zeros: "read_dec (replicate k 48 @ s) = read_dec s"
  by (induction k) (simp_all add: read_dec_def)

lemma read_pad_zero: "read_dec (pad_zero w s) = read_dec s"
  by (simp add: pad_zero_def read_dec_zeros)

lemma length_pad_zero: "length (pad_zero w s) = max w (length s)"
  by (simp add: pad_zero_def)

lemma set_pad_zero: "\<forall>c\<in>set s. P c \<Longrightarrow> P 48 \<Longrightarrow> \<forall>c\<in>set (pad_zero w s). P c"
  by (auto simp: pad_zero_def)

lemma pad_show_inj: "pad_zero w (show_dec m) = pad_zero w (show_dec n) \<Longrightarrow> m = n"
  by (metis read_pad_zero read_show_dec)

section \<open>Searching lists\<close>

text \<open>\<open>Iterator::position\<close>: the index of the first element satisfying a predicate.\<close>

fun position :: "('a \<Rightarrow> bool) \<Rightarrow> 'a list \<Rightarrow> nat option" where
  "position p [] = None"
| "position p (x # xs) = (if p x then Some 0 else map_option Suc (position p xs))"

lemma position_None: "position p xs = None \<longleftrightarrow> (\<forall>x\<in>set xs. \<not> p x)"
  by (induction xs) auto

lemma position_SomeD:
  "position p xs = Some i \<Longrightarrow> i < length xs \<and> p (xs ! i) \<and> (\<forall>j<i. \<not> p (xs ! j))"
proof (induction xs arbitrary: i)
  case Nil
  then show ?case by simp
next
  case (Cons x xs)
  then show ?case by (auto split: if_splits simp: less_Suc_eq_0_disj)
qed

lemma position_SomeI:
  "i < length xs \<Longrightarrow> p (xs ! i) \<Longrightarrow> \<forall>j<i. \<not> p (xs ! j) \<Longrightarrow> position p xs = Some i"
proof (induction xs arbitrary: i)
  case Nil
  then show ?case by simp
next
  case (Cons x xs)
  show ?case
  proof (cases i)
    case 0
    with Cons.prems show ?thesis by simp
  next
    case (Suc k)
    with Cons.prems have "\<not> p x" by fastforce
    moreover have "position p xs = Some k" using Cons Suc by fastforce
    ultimately show ?thesis using Suc by simp
  qed
qed

lemma position_eq_Some:
  "position p xs = Some i \<longleftrightarrow> i < length xs \<and> p (xs ! i) \<and> (\<forall>j<i. \<not> p (xs ! j))"
proof
  assume "position p xs = Some i"
  then show "i < length xs \<and> p (xs ! i) \<and> (\<forall>j<i. \<not> p (xs ! j))" by (rule position_SomeD)
next
  assume "i < length xs \<and> p (xs ! i) \<and> (\<forall>j<i. \<not> p (xs ! j))"
  then show "position p xs = Some i" using position_SomeI by metis
qed

end
