(* ===== verification/Ascii_Text.thy ===== *)
theory Ascii_Text
  imports Gw_Prelude
begin

text \<open>
  The fixed-size text type of \<^verbatim>\<open>crates/config/src/ascii_text.rs\<close>: an array of exactly LENGTH
  bytes, each an ASCII digit or an ASCII uppercase letter.  The constant generic LENGTH is the
  first argument of the parsing operations.  The Rust field is private, so every value of the
  type comes out of \<open>try_from_bytes\<close>; \<open>ascii_wf\<close> is what that guarantees.
\<close>

section \<open>The type and its operations\<close>

datatype ascii_error = BadLength nat nat | InvalidChar u8 nat

datatype ascii_text = AsciiDigitsOrUpper (as_array: "u8 list")

definition is_ascii_digit :: "u8 \<Rightarrow> bool" where
  "is_ascii_digit b = ascii_digit (unat b)"

definition is_ascii_uppercase :: "u8 \<Rightarrow> bool" where
  "is_ascii_uppercase b = ascii_upper (unat b)"

text \<open>
  \<open>as_str\<close> decodes the bytes as UTF-8; on ASCII bytes, the only ones a value can hold, that is
  the characters with these codes (\<open>utf8_as_str\<close> below states it against the encoder).
\<close>

definition as_str :: "ascii_text \<Rightarrow> str" where
  "as_str a = map unat (as_array a)"

definition try_from_bytes :: "nat \<Rightarrow> u8 list \<Rightarrow> ascii_error + ascii_text" where
  "try_from_bytes LEN value =
     (if length value \<noteq> LEN then Inl (BadLength (length value) LEN)
      else case position (\<lambda>b. \<not> is_ascii_digit b \<and> \<not> is_ascii_uppercase b) value of
        Some pos \<Rightarrow> Inl (InvalidChar (value ! pos) (pos + 1))
      | None \<Rightarrow> Inr (AsciiDigitsOrUpper value))"

definition from_str :: "nat \<Rightarrow> str \<Rightarrow> ascii_error + ascii_text" where
  "from_str LEN s = try_from_bytes LEN (utf8 s)"

definition try_from_string :: "nat \<Rightarrow> str \<Rightarrow> ascii_error + ascii_text" where
  "try_from_string LEN value = from_str LEN value"

definition ascii_fmt :: "ascii_text \<Rightarrow> str" where
  "ascii_fmt a = as_str a"

section \<open>The invariant of the type\<close>

definition ascii_byte :: "u8 \<Rightarrow> bool" where
  "ascii_byte b \<longleftrightarrow> is_ascii_digit b \<or> is_ascii_uppercase b"

definition ascii_wf :: "nat \<Rightarrow> ascii_text \<Rightarrow> bool" where
  "ascii_wf LEN a \<longleftrightarrow> length (as_array a) = LEN \<and> list_all ascii_byte (as_array a)"

lemma ascii_byte_less: "ascii_byte b \<Longrightarrow> unat b < 128"
  by (auto simp: ascii_byte_def is_ascii_digit_def is_ascii_uppercase_def ascii_digit_def
      ascii_upper_def)

abbreviation bad_byte :: "u8 \<Rightarrow> bool" where
  "bad_byte b \<equiv> \<not> is_ascii_digit b \<and> \<not> is_ascii_uppercase b"

lemma ascii_byte_iff: "ascii_byte b \<longleftrightarrow> \<not> bad_byte b"
  by (auto simp: ascii_byte_def)

lemma try_from_bytes_eq_Inr:
  "try_from_bytes LEN bs = Inr a \<longleftrightarrow> as_array a = bs \<and> ascii_wf LEN a"
proof (cases "position bad_byte bs")
  case None
  then have "list_all ascii_byte bs" by (simp add: position_None list_all_iff ascii_byte_iff)
  with None show ?thesis by (cases a) (auto simp: try_from_bytes_def ascii_wf_def)
next
  case (Some i)
  then have "\<not> list_all ascii_byte bs"
    using position_SomeD[OF Some] by (auto simp: list_all_iff ascii_byte_iff)
  with Some show ?thesis by (cases a) (auto simp: try_from_bytes_def ascii_wf_def)
qed

lemma try_from_bytes_BadLength:
  "length bs \<noteq> LEN \<Longrightarrow> try_from_bytes LEN bs = Inl (BadLength (length bs) LEN)"
  by (simp add: try_from_bytes_def)

lemma try_from_bytes_InvalidChar:
  assumes "length bs = LEN" and "i < length bs" and "\<not> ascii_byte (bs ! i)"
    and "\<forall>j<i. ascii_byte (bs ! j)"
  shows "try_from_bytes LEN bs = Inl (InvalidChar (bs ! i) (i + 1))"
proof -
  have "position bad_byte bs = Some i"
    using assms by (simp add: position_eq_Some ascii_byte_iff)
  then show ?thesis using assms(1) by (simp add: try_from_bytes_def)
qed

lemma ascii_wf_chars: "ascii_wf LEN a \<Longrightarrow> \<forall>c\<in>set (as_str a). ascii_digit c \<or> ascii_upper c"
  by (auto simp: ascii_wf_def as_str_def list_all_iff ascii_byte_def is_ascii_digit_def
      is_ascii_uppercase_def)

lemma length_as_str [simp]: "length (as_str a) = length (as_array a)"
  by (simp add: as_str_def)

lemma ascii_wf_length: "ascii_wf LEN a \<Longrightarrow> length (as_array a) = LEN"
  by (simp add: ascii_wf_def)

lemma utf8_as_str: "ascii_wf LEN a \<Longrightarrow> utf8 (as_str a) = as_array a"
  unfolding as_str_def
  by (rule utf8_map_unat) (auto simp: ascii_wf_def list_all_iff intro: ascii_byte_less)

lemma as_str_inject: "as_str a = as_str b \<longleftrightarrow> a = b"
proof
  assume "as_str a = as_str b"
  moreover have "inj (unat :: u8 \<Rightarrow> nat)" by (simp add: inj_def word_unat_eq_iff)
  ultimately have "as_array a = as_array b" by (simp add: as_str_def inj_map_eq_map)
  then show "a = b" by (rule ascii_text.expand)
qed simp

lemma from_str_as_str: "ascii_wf LEN a \<Longrightarrow> from_str LEN (as_str a) = Inr a"
  by (simp add: from_str_def utf8_as_str try_from_bytes_eq_Inr)

lemma from_str_wf: "from_str LEN s = Inr a \<Longrightarrow> ascii_wf LEN a"
  by (simp add: from_str_def try_from_bytes_eq_Inr)

text \<open>The characters of the accepted strings.\<close>

definition ascii_chars :: "str \<Rightarrow> bool" where
  "ascii_chars s \<longleftrightarrow> list_all (\<lambda>c. ascii_digit c \<or> ascii_upper c) s"

lemma ascii_chars_utf8: "ascii_chars s \<Longrightarrow> utf8 s = map of_nat s"
  by (rule utf8_ascii) (auto simp: ascii_chars_def list_all_iff ascii_digit_def ascii_upper_def)

lemma map_unat_of_nat: "\<forall>c\<in>set s. c < 256 \<Longrightarrow> map unat (map of_nat s :: u8 list) = s"
  by (induction s) (auto simp: unat_of_nat take_bit_nat_eq_self)

lemma ascii_chars_unat: "ascii_chars s \<Longrightarrow> map unat (map of_nat s :: u8 list) = s"
  by (rule map_unat_of_nat) (auto simp: ascii_chars_def list_all_iff ascii_digit_def ascii_upper_def)

lemma from_str_ascii_chars:
  assumes "ascii_chars s" and "length s = LEN"
  shows "from_str LEN s = Inr (AsciiDigitsOrUpper (map of_nat s))"
proof -
  have "unat (of_nat c :: u8) = c" if "c \<in> set s" for c
    using that ascii_chars_unat[OF assms(1)] by (metis comp_apply list.map_comp map_eq_conv map_ident)
  then show ?thesis
    using assms
    by (auto simp: from_str_def ascii_chars_utf8 try_from_bytes_eq_Inr ascii_wf_def list_all_iff
        ascii_chars_def ascii_byte_def is_ascii_digit_def is_ascii_uppercase_def)
qed

end
