(* ===== verification/Ua_Values.thy ===== *)
theory Ua_Values
  imports Ascii_Text
begin

text \<open>
  OPC-UA values as the gateway sees them: conversion of a data value into a Rust value
  (\<^verbatim>\<open>src/opcua/data_value.rs\<close>) and serialization of a variant (\<^verbatim>\<open>src/opcua/variant.rs\<close>).
  The types \<^verbatim>\<open>NodeId\<close>, \<^verbatim>\<open>Variant\<close>, \<^verbatim>\<open>DataValue\<close> belong to the \<^verbatim>\<open>opcua\<close> crate: the model has the
  constructors and fields that the sources name, every other variant being \<open>VOther\<close>.  The
  crate's functions on them are the parameter \<open>ua\<close>.
\<close>

section \<open>Values\<close>

type_synonym status_code = u32

datatype ua_identifier = Numeric u32 | Other_Identifier str

datatype node_id = NodeId u16 ua_identifier

text \<open>Floating point numbers are kept as their bits; a \<^verbatim>\<open>UAString\<close> may be null.\<close>

datatype variant =
    VEmpty
  | VBoolean bool
  | VSByte u8
  | VByte u8
  | VInt16 u16
  | VUInt16 u16
  | VInt32 u32
  | VUInt32 u32
  | VInt64 u64
  | VUInt64 u64
  | VFloat u32
  | VDouble u64
  | VString "str option"
  | VArray "variant list" "u32 list option"  \<comment> \<open>values and dimensions\<close>
  | VOther str

record data_value =
  dv_value :: "variant option"
  dv_status :: status_code  \<comment> \<open>what the crate's \<open>status()\<close> returns\<close>

record ua_types =
  is_good :: "status_code \<Rightarrow> bool"
  type_id_debug :: "variant \<Rightarrow> str"  \<comment> \<open>the debug formatting of \<open>type_id()\<close>\<close>

section \<open>Conversion of a variant\<close>

datatype try_from_error =
    BadStatus status_code
  | MissingValue
  | InvalidType str str
  | NullString
  | Ascii ascii_error

definition invalid_type :: "ua_types \<Rightarrow> str \<Rightarrow> variant \<Rightarrow> try_from_error" where
  "invalid_type ua expected got = InvalidType expected (type_id_debug ua got)"

text \<open>The implementations that the macro generates, one per primitive type.\<close>

type_synonym 'a from_variant = "variant \<Rightarrow> try_from_error + 'a"

definition bool_from_variant :: "ua_types \<Rightarrow> bool from_variant" where
  "bool_from_variant ua v = (case v of VBoolean x \<Rightarrow> Inr x | _ \<Rightarrow> Inl (invalid_type ua (lit ''Boolean'') v))"

definition i8_from_variant :: "ua_types \<Rightarrow> u8 from_variant" where
  "i8_from_variant ua v = (case v of VSByte x \<Rightarrow> Inr x | _ \<Rightarrow> Inl (invalid_type ua (lit ''SByte'') v))"

definition u8_from_variant :: "ua_types \<Rightarrow> u8 from_variant" where
  "u8_from_variant ua v = (case v of VByte x \<Rightarrow> Inr x | _ \<Rightarrow> Inl (invalid_type ua (lit ''Byte'') v))"

definition i16_from_variant :: "ua_types \<Rightarrow> u16 from_variant" where
  "i16_from_variant ua v = (case v of VInt16 x \<Rightarrow> Inr x | _ \<Rightarrow> Inl (invalid_type ua (lit ''Int16'') v))"

definition u16_from_variant :: "ua_types \<Rightarrow> u16 from_variant" where
  "u16_from_variant ua v = (case v of VUInt16 x \<Rightarrow> Inr x | _ \<Rightarrow> Inl (invalid_type ua (lit ''UInt16'') v))"

definition i32_from_variant :: "ua_types \<Rightarrow> u32 from_variant" where
  "i32_from_variant ua v = (case v of VInt32 x \<Rightarrow> Inr x | _ \<Rightarrow> Inl (invalid_type ua (lit ''Int32'') v))"

definition u32_from_variant :: "ua_types \<Rightarrow> u32 from_variant" where
  "u32_from_variant ua v = (case v of VUInt32 x \<Rightarrow> Inr x | _ \<Rightarrow> Inl (invalid_type ua (lit ''UInt32'') v))"

definition i64_from_variant :: "ua_types \<Rightarrow> u64 from_variant" where
  "i64_from_variant ua v = (case v of VInt64 x \<Rightarrow> Inr x | _ \<Rightarrow> Inl (invalid_type ua (lit ''Int64'') v))"

definition u64_from_variant :: "ua_types \<Rightarrow> u64 from_variant" where
  "u64_from_variant ua v = (case v of VUInt64 x \<Rightarrow> Inr x | _ \<Rightarrow> Inl (invalid_type ua (lit ''UInt64'') v))"

definition f32_from_variant :: "ua_types \<Rightarrow> u32 from_variant" where
  "f32_from_variant ua v = (case v of VFloat x \<Rightarrow> Inr x | _ \<Rightarrow> Inl (invalid_type ua (lit ''Float'') v))"

definition f64_from_variant :: "ua_types \<Rightarrow> u64 from_variant" where
  "f64_from_variant ua v = (case v of VDouble x \<Rightarrow> Inr x | _ \<Rightarrow> Inl (invalid_type ua (lit ''Double'') v))"

definition ua_string_from_variant :: "ua_types \<Rightarrow> str option from_variant" where
  "ua_string_from_variant ua v =
     (case v of VString x \<Rightarrow> Inr x | _ \<Rightarrow> Inl (invalid_type ua (lit ''String'') v))"

definition string_from_variant :: "ua_types \<Rightarrow> str from_variant" where
  "string_from_variant ua v =
     (case ua_string_from_variant ua v of
        Inl e \<Rightarrow> Inl e
      | Inr s \<Rightarrow> (case s of None \<Rightarrow> Inl NullString | Some t \<Rightarrow> Inr t))"

definition ascii_from_variant :: "ua_types \<Rightarrow> nat \<Rightarrow> ascii_text from_variant" where
  "ascii_from_variant ua LEN v =
     (case string_from_variant ua v of
        Inl e \<Rightarrow> Inl e
      | Inr s \<Rightarrow> (case from_str LEN s of Inl e \<Rightarrow> Inl (Ascii e) | Inr a \<Rightarrow> Inr a))"

section \<open>Conversion of a data value\<close>

definition try_into_variant :: "ua_types \<Rightarrow> data_value \<Rightarrow> try_from_error + variant" where
  "try_into_variant ua dv =
     (if \<not> is_good ua (dv_status dv) then Inl (BadStatus (dv_status dv))
      else case dv_value dv of None \<Rightarrow> Inl MissingValue | Some v \<Rightarrow> Inr v)"

definition try_ua_value_as :: "ua_types \<Rightarrow> 'a from_variant \<Rightarrow> data_value \<Rightarrow> try_from_error + 'a" where
  "try_ua_value_as ua conv dv =
     (case try_into_variant ua dv of Inl e \<Rightarrow> Inl e | Inr v \<Rightarrow> conv v)"

lemma u8_from_variant_eq_Inr [simp]: "u8_from_variant ua v = Inr x \<longleftrightarrow> v = VByte x"
  by (auto simp: u8_from_variant_def split: variant.splits)

lemma string_from_variant_eq_Inr: "string_from_variant ua v = Inr s \<longleftrightarrow> v = VString (Some s)"
  by (auto simp: string_from_variant_def ua_string_from_variant_def
      split: variant.splits sum.splits option.splits)

lemma ascii_from_variant_eq_Inr:
  "ascii_from_variant ua LEN v = Inr a \<longleftrightarrow> (\<exists>s. v = VString (Some s) \<and> from_str LEN s = Inr a)"
proof -
  have "ascii_from_variant ua LEN v = Inr a \<longleftrightarrow>
      (\<exists>s. string_from_variant ua v = Inr s \<and> from_str LEN s = Inr a)"
    by (auto simp: ascii_from_variant_def split: sum.splits)
  then show ?thesis by (simp add: string_from_variant_eq_Inr)
qed

lemma ascii_from_variant_wf: "ascii_from_variant ua LEN v = Inr a \<Longrightarrow> ascii_wf LEN a"
  by (auto simp: ascii_from_variant_eq_Inr dest: from_str_wf)

lemma try_into_variant_eq_Inr:
  "try_into_variant ua dv = Inr v \<longleftrightarrow> is_good ua (dv_status dv) \<and> dv_value dv = Some v"
  by (auto simp: try_into_variant_def split: option.splits)

lemma try_ua_value_as_eq_Inr:
  "try_ua_value_as ua conv dv = Inr x \<longleftrightarrow>
     is_good ua (dv_status dv) \<and> (\<exists>v. dv_value dv = Some v \<and> conv v = Inr x)"
  by (auto simp: try_ua_value_as_def try_into_variant_def split: option.splits)

section \<open>Serialization\<close>

text \<open>
  The \<^verbatim>\<open>serde\<close> data model that the sources drive: a value is the tree of serializer calls it
  makes.  An error is the message of a custom serialization error.
\<close>

datatype ser =
    SUnit | SBool bool | SI8 u8 | SU8 u8 | SI16 u16 | SU16 u16 | SI32 u32 | SU32 u32
  | SI64 u64 | SU64 u64 | SF32 u32 | SF64 u64 | SNone | SSome ser | SStr str
  | SSeq "ser list"
  | SMap "(str \<times> ser) list"
  | SStruct str "(str \<times> ser) list"

datatype ser_error = SerCustom str

definition serialize_ua_string :: "str option \<Rightarrow> ser" where
  "serialize_ua_string s = (case s of None \<Rightarrow> SNone | Some t \<Rightarrow> SSome (SStr t))"

fun serialize_variant :: "ua_types \<Rightarrow> variant \<Rightarrow> ser_error + ser"
and serialize_elements :: "ua_types \<Rightarrow> variant list \<Rightarrow> ser_error + ser list" where
  "serialize_variant ua VEmpty = Inr SUnit"
| "serialize_variant ua (VBoolean v) = Inr (SBool v)"
| "serialize_variant ua (VSByte v) = Inr (SI8 v)"
| "serialize_variant ua (VByte v) = Inr (SU8 v)"
| "serialize_variant ua (VInt16 v) = Inr (SI16 v)"
| "serialize_variant ua (VUInt16 v) = Inr (SU16 v)"
| "serialize_variant ua (VInt32 v) = Inr (SI32 v)"
| "serialize_variant ua (VUInt32 v) = Inr (SU32 v)"
| "serialize_variant ua (VInt64 v) = Inr (SI64 v)"
| "serialize_variant ua (VUInt64 v) = Inr (SU64 v)"
| "serialize_variant ua (VFloat v) = Inr (SF32 v)"
| "serialize_variant ua (VDouble v) = Inr (SF64 v)"
| "serialize_variant ua (VString v) = Inr (serialize_ua_string v)"
| "serialize_variant ua (VArray values dimensions) =
     (if dimensions \<noteq> None
      then Inl (SerCustom (lit ''multidimensional arrays are not supported''))
      else case serialize_elements ua values of Inl e \<Rightarrow> Inl e | Inr ts \<Rightarrow> Inr (SSeq ts))"
| "serialize_variant ua (VOther x) =
     Inl (SerCustom (lit ''unsupported serialization for Variant type ''
       @ type_id_debug ua (VOther x)))"
| "serialize_elements ua [] = Inr []"
| "serialize_elements ua (v # vs) =
     (case serialize_variant ua v of Inl e \<Rightarrow> Inl e
      | Inr t \<Rightarrow> (case serialize_elements ua vs of Inl e \<Rightarrow> Inl e | Inr ts \<Rightarrow> Inr (t # ts)))"

text \<open>The values the archive can hold: supported scalars and one-dimensional arrays of them.\<close>

fun serializable :: "variant \<Rightarrow> bool" where
  "serializable (VArray values dimensions) \<longleftrightarrow> dimensions = None \<and> list_all serializable values"
| "serializable (VOther x) \<longleftrightarrow> False"
| "serializable v \<longleftrightarrow> True"

lemma serialize_total:
  "(\<exists>t. serialize_variant ua v = Inr t) \<longleftrightarrow> serializable v"
  "(\<exists>ts. serialize_elements ua vs = Inr ts) \<longleftrightarrow> list_all serializable vs"
  by (induction ua v and ua vs rule: serialize_variant_serialize_elements.induct)
    (auto split: sum.splits)

lemma serialize_elements_length: "serialize_elements ua vs = Inr ts \<Longrightarrow> length ts = length vs"
  by (induction vs arbitrary: ts) (auto split: sum.splits)

end
