(* ===== verification/Binary_Codec.thy ===== *)
theory Binary_Codec
  imports Ua_Values
begin

text \<open>
  The binary encoding of the \<^verbatim>\<open>opcua\<close> crate (\<^verbatim>\<open>BinaryEncodable\<close>, \<^verbatim>\<open>BinaryDecodable\<close>) as an
  interface.  Both directions take the encoding context of the session that runs them, so a
  value written under one context is read back under another.  The second half builds a codec
  with the layout of OPC-UA Part 6 for scalars, and arrays of scalars, that satisfies the laws.
\<close>

section \<open>The interface\<close>

datatype enc_error = EncError str
datatype io_error = IoError str

record 'c codec =
  enc_u16 :: "'c \<Rightarrow> u16 \<Rightarrow> enc_error + u8 list"
  enc_u32 :: "'c \<Rightarrow> u32 \<Rightarrow> enc_error + u8 list"
  enc_variant :: "'c \<Rightarrow> variant \<Rightarrow> enc_error + u8 list"
  dec_u16 :: "'c \<Rightarrow> u8 list \<Rightarrow> io_error + u16 \<times> u8 list"
  dec_u32 :: "'c \<Rightarrow> u8 list \<Rightarrow> io_error + u32 \<times> u8 list"
  dec_variant :: "'c \<Rightarrow> u8 list \<Rightarrow> io_error + variant \<times> u8 list"

text \<open>
  \<open>portable v\<close>: the value \<open>v\<close> is within the decoding limits of the contexts in use, and the
  crate decodes its encoding to the same value.
\<close>

locale binary_codec =
  fixes K :: "'c codec" and portable :: "variant \<Rightarrow> bool"
  assumes u16_roundtrip: "enc_u16 K c n = Inr bs \<Longrightarrow> dec_u16 K c' (bs @ r) = Inr (n, r)"
    and u32_roundtrip: "enc_u32 K c i = Inr bs \<Longrightarrow> dec_u32 K c' (bs @ r) = Inr (i, r)"
    and variant_roundtrip:
      "portable v \<Longrightarrow> enc_variant K c v = Inr bs \<Longrightarrow> dec_variant K c' (bs @ r) = Inr (v, r)"

section \<open>Little-endian integers\<close>

fun le :: "nat \<Rightarrow> nat \<Rightarrow> u8 list" where
  "le 0 x = []"
| "le (Suc n) x = of_nat (x mod 256) # le n (x div 256)"

fun unle :: "u8 list \<Rightarrow> nat" where
  "unle [] = 0"
| "unle (b # bs) = unat b + 256 * unle bs"

lemma length_le [simp]: "length (le n x) = n"
  by (induction n arbitrary: x) simp_all

lemma unle_le: "unle (le n x) = x mod 256 ^ n"
proof (induction n arbitrary: x)
  case 0
  then show ?case by simp
next
  case (Suc n)
  have "unat (of_nat (x mod 256) :: u8) = x mod 256"
    by (simp add: unat_of_nat take_bit_nat_def)
  then show ?case using Suc[of "x div 256"] by (simp add: mod_mult2_eq)
qed

definition take_le :: "nat \<Rightarrow> u8 list \<Rightarrow> io_error + nat \<times> u8 list" where
  "take_le n bs = (if length bs < n then Inl (IoError (lit ''eof''))
     else Inr (unle (take n bs), drop n bs))"

lemma take_le_le: "x < 256 ^ n \<Longrightarrow> take_le n (le n x @ r) = Inr (x, r)"
  by (simp add: take_le_def unle_le)

definition map_dec :: "('a \<Rightarrow> 'b) \<Rightarrow> io_error + 'a \<times> u8 list \<Rightarrow> io_error + 'b \<times> u8 list" where
  "map_dec f r = (case r of Inl e \<Rightarrow> Inl e | Inr (x, bs) \<Rightarrow> Inr (f x, bs))"

lemma take_le_word:
  fixes w :: "'a::len word"
  assumes "LENGTH('a) = 8 * n"
  shows "map_dec of_nat (take_le n (le n (unat w) @ r)) = Inr (w, r)"
proof -
  have "unat w < 2 ^ LENGTH('a)" by (rule unsigned_less)
  then have "unat w < 256 ^ n" using assms by (simp add: power_mult)
  then show ?thesis by (simp add: take_le_le map_dec_def)
qed

section \<open>A codec for scalars and arrays of scalars\<close>

definition enc_string :: "str option \<Rightarrow> u8 list" where
  "enc_string s = (case s of None \<Rightarrow> le 4 0xFFFFFFFF | Some t \<Rightarrow> le 4 (length t) @ map of_nat t)"

fun enc_scalar :: "variant \<Rightarrow> u8 list option" where
  "enc_scalar VEmpty = Some [0]"
| "enc_scalar (VBoolean b) = Some [1, if b then 1 else 0]"
| "enc_scalar (VSByte x) = Some (2 # le 1 (unat x))"
| "enc_scalar (VByte x) = Some (3 # le 1 (unat x))"
| "enc_scalar (VInt16 x) = Some (4 # le 2 (unat x))"
| "enc_scalar (VUInt16 x) = Some (5 # le 2 (unat x))"
| "enc_scalar (VInt32 x) = Some (6 # le 4 (unat x))"
| "enc_scalar (VUInt32 x) = Some (7 # le 4 (unat x))"
| "enc_scalar (VInt64 x) = Some (8 # le 8 (unat x))"
| "enc_scalar (VUInt64 x) = Some (9 # le 8 (unat x))"
| "enc_scalar (VFloat x) = Some (10 # le 4 (unat x))"
| "enc_scalar (VDouble x) = Some (11 # le 8 (unat x))"
| "enc_scalar (VString s) = Some (12 # enc_string s)"
| "enc_scalar _ = None"

definition dec_string :: "u8 list \<Rightarrow> io_error + str option \<times> u8 list" where
  "dec_string bs = (case take_le 4 bs of Inl e \<Rightarrow> Inl e
     | Inr (n, r) \<Rightarrow> (if n = 0xFFFFFFFF then Inr (None, r)
         else if length r < n then Inl (IoError (lit ''eof''))
         else Inr (Some (map unat (take n r)), drop n r)))"

definition dec_scalar :: "u8 list \<Rightarrow> io_error + variant \<times> u8 list" where
  "dec_scalar bs = (case bs of [] \<Rightarrow> Inl (IoError (lit ''eof''))
     | t # r \<Rightarrow>
        if t = 0 then Inr (VEmpty, r)
        else if t = 1 then map_dec (\<lambda>n. VBoolean (n \<noteq> 0)) (take_le 1 r)
        else if t = 2 then map_dec (VSByte \<circ> of_nat) (take_le 1 r)
        else if t = 3 then map_dec (VByte \<circ> of_nat) (take_le 1 r)
        else if t = 4 then map_dec (VInt16 \<circ> of_nat) (take_le 2 r)
        else if t = 5 then map_dec (VUInt16 \<circ> of_nat) (take_le 2 r)
        else if t = 6 then map_dec (VInt32 \<circ> of_nat) (take_le 4 r)
        else if t = 7 then map_dec (VUInt32 \<circ> of_nat) (take_le 4 r)
        else if t = 8 then map_dec (VInt64 \<circ> of_nat) (take_le 8 r)
        else if t = 9 then map_dec (VUInt64 \<circ> of_nat) (take_le 8 r)
        else if t = 10 then map_dec (VFloat \<circ> of_nat) (take_le 4 r)
        else if t = 11 then map_dec (VDouble \<circ> of_nat) (take_le 8 r)
        else if t = 12 then map_dec VString (dec_string r)
        else Inl (IoError (lit ''type'')))"

fun dec_scalars :: "nat \<Rightarrow> u8 list \<Rightarrow> io_error + variant list \<times> u8 list" where
  "dec_scalars 0 bs = Inr ([], bs)"
| "dec_scalars (Suc n) bs = (case dec_scalar bs of Inl e \<Rightarrow> Inl e
     | Inr (v, r) \<Rightarrow> map_dec (Cons v) (dec_scalars n r))"

fun enc_scalars :: "variant list \<Rightarrow> u8 list option" where
  "enc_scalars [] = Some []"
| "enc_scalars (v # vs) = (case enc_scalar v of None \<Rightarrow> None
     | Some b \<Rightarrow> map_option ((@) b) (enc_scalars vs))"

fun enc_value :: "variant \<Rightarrow> u8 list option" where
  "enc_value (VArray vs None) = map_option (\<lambda>b. 0x80 # le 4 (length vs) @ b) (enc_scalars vs)"
| "enc_value v = enc_scalar v"

definition dec_value :: "u8 list \<Rightarrow> io_error + variant \<times> u8 list" where
  "dec_value bs = (case bs of t # r \<Rightarrow>
       (if t = 0x80 then (case take_le 4 r of Inl e \<Rightarrow> Inl e
          | Inr (n, r') \<Rightarrow> map_dec (\<lambda>vs. VArray vs None) (dec_scalars n r'))
        else dec_scalar bs)
     | [] \<Rightarrow> dec_scalar bs)"

text \<open>The values it round trips: ASCII strings and arrays that fit their length fields.\<close>

fun scalar_ok :: "variant \<Rightarrow> bool" where
  "scalar_ok (VString (Some t)) \<longleftrightarrow> length t < 0x80000000 \<and> (\<forall>c\<in>set t. c < 128)"
| "scalar_ok (VArray _ _) \<longleftrightarrow> False"
| "scalar_ok (VOther _) \<longleftrightarrow> False"
| "scalar_ok _ \<longleftrightarrow> True"

fun value_ok :: "variant \<Rightarrow> bool" where
  "value_ok (VArray vs None) \<longleftrightarrow> length vs < 0x80000000 \<and> list_all scalar_ok vs"
| "value_ok v \<longleftrightarrow> scalar_ok v"

definition of_enc :: "u8 list option \<Rightarrow> enc_error + u8 list" where
  "of_enc x = (case x of None \<Rightarrow> Inl (EncError (lit ''unsupported'')) | Some b \<Rightarrow> Inr b)"

definition le_codec :: "unit codec" where
  "le_codec = \<lparr>
     enc_u16 = (\<lambda>_ n. Inr (le 2 (unat n))), enc_u32 = (\<lambda>_ n. Inr (le 4 (unat n))),
     enc_variant = (\<lambda>_ v. of_enc (enc_value v)),
     dec_u16 = (\<lambda>_ bs. map_dec of_nat (take_le 2 bs)), dec_u32 = (\<lambda>_ bs. map_dec of_nat (take_le 4 bs)),
     dec_variant = (\<lambda>_ bs. dec_value bs)\<rparr>"

lemma map_dec_comp: "map_dec (f \<circ> g) r = map_dec f (map_dec g r)"
  by (simp add: map_dec_def split: sum.splits prod.splits)

lemma map_dec_Inr [simp]: "map_dec f (Inr (x, r)) = Inr (f x, r)"
  by (simp add: map_dec_def)

lemma dec_enc_string:
  "(case s of None \<Rightarrow> True | Some t \<Rightarrow> length t < 0x80000000 \<and> (\<forall>c\<in>set t. c < 128)) \<Longrightarrow>
     dec_string (enc_string s @ r) = Inr (s, r)"
  by (cases s) (auto simp: dec_string_def enc_string_def take_le_le unat_of_nat
      take_bit_nat_eq_self intro!: map_idI simp del: le.simps)

lemma dec_enc_scalar:
  "scalar_ok v \<Longrightarrow> enc_scalar v = Some bs \<Longrightarrow> dec_scalar (bs @ r) = Inr (v, r)"
proof (cases v)
  case (VBoolean b)
  assume "enc_scalar v = Some bs"
  then show ?thesis using VBoolean by (auto simp: dec_scalar_def take_le_def)
next
  case (VString s)
  assume "scalar_ok v" "enc_scalar v = Some bs"
  moreover have "case s of None \<Rightarrow> True | Some t \<Rightarrow> length t < 0x80000000 \<and> (\<forall>c\<in>set t. c < 128)"
    if "scalar_ok (VString s)" using that by (cases s) auto
  ultimately show ?thesis using VString dec_enc_string[of s r] by (auto simp: dec_scalar_def)
qed (auto simp: dec_scalar_def map_dec_comp take_le_word simp del: le.simps)

lemma dec_enc_scalars:
  "list_all scalar_ok vs \<Longrightarrow> enc_scalars vs = Some bs \<Longrightarrow> dec_scalars (length vs) (bs @ r) = Inr (vs, r)"
  by (induction vs arbitrary: bs) (auto simp: dec_enc_scalar split: option.splits)

lemma enc_scalar_tag: "enc_scalar v = Some bs \<Longrightarrow> \<exists>t r. bs = t # r \<and> t \<noteq> 0x80"
  by (cases v) auto

lemma dec_enc_value:
  assumes "value_ok v" and "enc_value v = Some bs"
  shows "dec_value (bs @ r) = Inr (v, r)"
proof (cases "\<exists>vs. v = VArray vs None")
  case True
  then obtain vs b where v: "v = VArray vs None" "enc_scalars vs = Some b"
    "bs = 0x80 # le 4 (length vs) @ b" using assms(2) by auto
  then show ?thesis using assms(1)
    by (simp add: dec_value_def take_le_le dec_enc_scalars)
next
  case False
  then have s: "scalar_ok v" "enc_scalar v = Some bs"
    using assms by (cases "v" rule: value_ok.cases; simp)+
  obtain t u where "bs = t # u" "t \<noteq> 0x80" using enc_scalar_tag[OF s(2)] by blast
  then show ?thesis using dec_enc_scalar[OF s, of r] by (simp add: dec_value_def)
qed

interpretation lec: binary_codec le_codec value_ok
proof
  show "enc_u16 le_codec c n = Inr bs \<Longrightarrow> dec_u16 le_codec c' (bs @ r) = Inr (n, r)" for c n bs c' r
    by (auto simp: le_codec_def take_le_word simp del: le.simps)
  show "enc_u32 le_codec c i = Inr bs \<Longrightarrow> dec_u32 le_codec c' (bs @ r) = Inr (i, r)" for c i bs c' r
    by (auto simp: le_codec_def take_le_word simp del: le.simps)
  show "value_ok v \<Longrightarrow> enc_variant le_codec c v = Inr bs \<Longrightarrow>
      dec_variant le_codec c' (bs @ r) = Inr (v, r)" for v c bs c' r
    by (auto simp: le_codec_def of_enc_def dec_enc_value split: option.splits)
qed

end
