(* ===== verification/Row_Json.thy ===== *)
theory Row_Json
  imports Ua_Values
begin

text \<open>
  The \<^verbatim>\<open>serde_json\<close> crate as an interface: printing a tree of the serde data model as one JSON
  text, and building a JSON value from it.  The second half is a compact JSON printer that
  satisfies the law the gateway relies on: the text is a single line.
\<close>

datatype json_error = JsonSer ser_error | JsonError str

record json_lib =
  json_to_string :: "ser \<Rightarrow> json_error + str"
  json_to_value :: "ser \<Rightarrow> json_error + unit"

text \<open>A serializer error ends the printing, as \<open>serde_json::Error::custom\<close>.\<close>

definition json_of :: "(ser \<Rightarrow> json_error + 'a) \<Rightarrow> ser_error + ser \<Rightarrow> json_error + 'a" where
  "json_of f r = (case r of Inl e \<Rightarrow> Inl (JsonSer e) | Inr t \<Rightarrow> f t)"

lemma json_of_eq_Inr: "json_of f r = Inr s \<longleftrightarrow> (\<exists>t. r = Inr t \<and> f t = Inr s)"
  by (cases r) (simp_all add: json_of_def)

locale json_lines =
  fixes F :: json_lib
  assumes one_line: "json_to_string F t = Inr s \<Longrightarrow> 10 \<notin> set s"

section \<open>A compact printer\<close>

definition hex_digit :: "nat \<Rightarrow> uchar" where
  "hex_digit n = (if n < 10 then 48 + n else 87 + n)"

definition json_char :: "uchar \<Rightarrow> str" where
  "json_char c = (if c = 34 \<or> c = 92 then [92, c]
     else if c < 32 then [92, 117, 48, 48] @ [hex_digit (c div 16), hex_digit (c mod 16)]
     else [c])"

definition json_str :: "str \<Rightarrow> str" where
  "json_str s = [34] @ concat (map json_char s) @ [34]"

definition json_int :: "int \<Rightarrow> str" where
  "json_int i = (if i < 0 then 45 # show_dec (nat (- i)) else show_dec (nat i))"

fun sep_concat :: "str list \<Rightarrow> str" where
  "sep_concat [] = []"
| "sep_concat [x] = x"
| "sep_concat (x # y # xs) = x @ [44] @ sep_concat (y # xs)"

fun json_print :: "ser \<Rightarrow> str option"
and json_items :: "ser list \<Rightarrow> str list option"
and json_entries :: "(str \<times> ser) list \<Rightarrow> str list option" where
  "json_print SUnit = Some (lit ''null'')"
| "json_print SNone = Some (lit ''null'')"
| "json_print (SSome t) = json_print t"
| "json_print (SBool b) = Some (if b then lit ''true'' else lit ''false'')"
| "json_print (SI8 w) = Some (json_int (sint w))"
| "json_print (SU8 w) = Some (json_int (uint w))"
| "json_print (SI16 w) = Some (json_int (sint w))"
| "json_print (SU16 w) = Some (json_int (uint w))"
| "json_print (SI32 w) = Some (json_int (sint w))"
| "json_print (SU32 w) = Some (json_int (uint w))"
| "json_print (SI64 w) = Some (json_int (sint w))"
| "json_print (SU64 w) = Some (json_int (uint w))"
| "json_print (SF32 w) = None"
| "json_print (SF64 w) = None"
| "json_print (SStr s) = Some (json_str s)"
| "json_print (SSeq ts) = map_option (\<lambda>xs. [91] @ sep_concat xs @ [93]) (json_items ts)"
| "json_print (SMap es) = map_option (\<lambda>xs. [123] @ sep_concat xs @ [125]) (json_entries es)"
| "json_print (SStruct n es) = map_option (\<lambda>xs. [123] @ sep_concat xs @ [125]) (json_entries es)"
| "json_items [] = Some []"
| "json_items (t # ts) = (case json_print t of None \<Rightarrow> None
     | Some x \<Rightarrow> map_option (Cons x) (json_items ts))"
| "json_entries [] = Some []"
| "json_entries ((k, t) # es) = (case json_print t of None \<Rightarrow> None
     | Some x \<Rightarrow> map_option (Cons (json_str k @ [58] @ x)) (json_entries es))"

definition compact_json :: json_lib where
  "compact_json = \<lparr>
     json_to_string = (\<lambda>t. case json_print t of None \<Rightarrow> Inl (JsonError (lit ''float'')) | Some s \<Rightarrow> Inr s),
     json_to_value = (\<lambda>t. case json_print t of None \<Rightarrow> Inl (JsonError (lit ''float'')) | Some s \<Rightarrow> Inr ())\<rparr>"

lemma json_char_line: "10 \<notin> set (json_char c)"
  by (auto simp: json_char_def hex_digit_def)

lemma json_str_line: "10 \<notin> set (json_str s)"
  using json_char_line by (auto simp: json_str_def)

lemma show_dec_line: "10 \<notin> set (show_dec n)"
  using show_dec_digits[of n] by (auto simp: ascii_digit_def)

lemma json_int_line: "10 \<notin> set (json_int i)"
  using show_dec_line by (auto simp: json_int_def)

lemma sep_concat_line: "\<forall>x\<in>set xs. 10 \<notin> set x \<Longrightarrow> 10 \<notin> set (sep_concat xs)"
  by (induction xs rule: sep_concat.induct) auto

lemma json_print_line:
  "json_print t = Some s \<Longrightarrow> 10 \<notin> set s"
  "json_items ts = Some xs \<Longrightarrow> \<forall>x\<in>set xs. 10 \<notin> set x"
  "json_entries es = Some xs \<Longrightarrow> \<forall>x\<in>set xs. 10 \<notin> set x"
proof (induction t and ts and es arbitrary: s and xs and xs
    rule: json_print_json_items_json_entries.induct)
qed (auto simp: json_int_line json_str_line dest: sep_concat_line split: option.splits)

interpretation cjson: json_lines compact_json
  by unfold_locales (auto simp: compact_json_def dest: json_print_line split: option.splits)

end
