(* ===== verification/Part_Sheet.thy ===== *)
theory Part_Sheet
  imports Binary_Codec Row_Json
begin

text \<open>
  Encodings of a part sheet, \<^verbatim>\<open>src/traceability/part_sheet.rs\<close>: the binary form kept in the cache
  and the JSON row sent to the archive.
\<close>

section \<open>The cached form\<close>

type_synonym saved_item = "u32 \<times> str \<times> variant"

datatype try_from_int_error = TryFromIntError

definition written :: "enc_error + 'a \<Rightarrow> ('e, 'a) res" where
  "written r = (case r of Inl e \<Rightarrow> Inl (Panic (lit ''writing to a Vec should not fail'')) | Inr x \<Rightarrow> Inr x)"

lemma written_eq_Inr [res_split]: "written r = Inr x \<longleftrightarrow> r = Inr x"
  by (auto simp: written_def split: sum.splits)

definition count_u16 :: "nat \<Rightarrow> (try_from_int_error, u16) res" where
  "count_u16 n = (if n < 65536 then Inr (of_nat n) else Inl (Err TryFromIntError))"

definition encode_item :: "'c codec \<Rightarrow> 'c \<Rightarrow> saved_item \<Rightarrow> ('e, u8 list) res" where
  "encode_item K ctx item = (case item of (node, _, v) \<Rightarrow>
     res_bind (written (enc_u32 K ctx node)) (\<lambda>a.
     res_bind (written (enc_variant K ctx v)) (\<lambda>b. Inr (a @ b))))"

definition encode_part_sheet_for_cache ::
    "'c codec \<Rightarrow> 'c \<Rightarrow> saved_item list \<Rightarrow> (try_from_int_error, u8 list) res" where
  "encode_part_sheet_for_cache K ctx part_sheet =
     res_bind (count_u16 (length part_sheet)) (\<lambda>count.
     res_bind (written (enc_u16 K ctx count)) (\<lambda>head.
     res_bind (collect (encode_item K ctx) part_sheet) (\<lambda>items.
       Inr (head @ concat items))))"

fun decode_items :: "'c codec \<Rightarrow> 'c \<Rightarrow> nat \<Rightarrow> u8 list \<Rightarrow> io_error + (u32 \<times> variant) list" where
  "decode_items K ctx 0 buf = Inr []"
| "decode_items K ctx (Suc n) buf =
     (case dec_u32 K ctx buf of Inl e \<Rightarrow> Inl e
      | Inr (node, buf1) \<Rightarrow> (case dec_variant K ctx buf1 of Inl e \<Rightarrow> Inl e
         | Inr (v, buf2) \<Rightarrow> (case decode_items K ctx n buf2 of Inl e \<Rightarrow> Inl e
            | Inr out \<Rightarrow> Inr ((node, v) # out))))"

definition decode_cached_part_sheet :: "'c codec \<Rightarrow> 'c \<Rightarrow> u8 list \<Rightarrow> io_error + (u32 \<times> variant) list" where
  "decode_cached_part_sheet K ctx buf =
     (case dec_u16 K ctx buf of Inl e \<Rightarrow> Inl e
      | Inr (count, buf1) \<Rightarrow> decode_items K ctx (unat count) buf1)"

text \<open>What the cache keeps of an item: the node identifier and the value, not the name.\<close>

definition cached_item :: "saved_item \<Rightarrow> u32 \<times> variant" where
  "cached_item item = (case item of (node, _, v) \<Rightarrow> (node, v))"

abbreviation item_value :: "saved_item \<Rightarrow> variant" where
  "item_value item \<equiv> snd (snd item)"

lemma encode_item_eq_Inr:
  "encode_item K ctx item = Inr bs \<longleftrightarrow> (\<exists>a b. enc_u32 K ctx (fst item) = Inr a \<and>
     enc_variant K ctx (item_value item) = Inr b \<and> bs = a @ b)"
  by (cases item) (auto simp: encode_item_def res_bind_eq_Inr written_eq_Inr)

lemma count_u16_eq_Inr: "count_u16 n = Inr c \<longleftrightarrow> n < 65536 \<and> c = of_nat n"
  by (auto simp: count_u16_def)

lemma encode_InrD:
  assumes "encode_part_sheet_for_cache K ctx ps = Inr bs"
  obtains head items where "length ps < 65536" "enc_u16 K ctx (of_nat (length ps)) = Inr head"
    "list_all2 (\<lambda>item b. encode_item K ctx item = (Inr b :: (try_from_int_error, u8 list) res)) ps items"
    "bs = head @ concat items"
  using assms
  by (auto simp: encode_part_sheet_for_cache_def res_bind_eq_Inr count_u16_eq_Inr written_eq_Inr
      collect_eq_Inr)

text \<open>Encoding a part sheet for the cache reports an error exactly when it has more than 65535 items,
  the bound of the item count that the encoding starts with.\<close>

theorem encode_for_cache_bounds:
  "(\<exists>e. encode_part_sheet_for_cache K ctx ps = Inl (Err e)) \<longleftrightarrow> 65536 \<le> length ps"
proof -
  have "encode_item K ctx item \<noteq> (Inl (Err e) :: (try_from_int_error, u8 list) res)" for item e
    by (cases item) (auto simp: encode_item_def res_bind_eq_Inl written_def split: sum.splits)
  then have "collect (encode_item K ctx) ps \<noteq> (Inl (Err e) :: (try_from_int_error, u8 list list) res)" for e
    by (auto simp: collect_eq_Inl)
  then show ?thesis
    by (auto simp: encode_part_sheet_for_cache_def res_bind_eq_Inl count_u16_def written_def split: sum.splits if_splits)
qed

context binary_codec
begin

lemma decode_encoded_items:
  assumes "list_all2 (\<lambda>item b. encode_item K ctx item = (Inr b :: ('e, u8 list) res)) ps items"
    and "list_all (\<lambda>item. portable (item_value item)) ps"
  shows "decode_items K ctx' (length ps) (concat items @ r) = Inr (map cached_item ps)"
  using assms
proof (induction ps items rule: list_all2_induct)
  case Nil
  then show ?case by simp
next
  case (Cons item ps b items)
  obtain x y where x: "enc_u32 K ctx (fst item) = Inr x" and y: "enc_variant K ctx (item_value item) = Inr y"
    and b: "b = x @ y" using Cons.hyps(1) by (auto simp: encode_item_eq_Inr)
  have p: "portable (item_value item)" using Cons.prems by simp
  show ?case
    using Cons u32_roundtrip[OF x] variant_roundtrip[OF p y] by (simp add: b cached_item_def split_beta)
qed

lemma decode_encoded_sheet:
  assumes "encode_part_sheet_for_cache K ctx ps = Inr bs"
    and "list_all (\<lambda>item. portable (item_value item)) ps"
  shows "decode_cached_part_sheet K ctx' bs = Inr (map cached_item ps)"
proof -
  obtain head items where l: "length ps < 65536" and h: "enc_u16 K ctx (of_nat (length ps)) = Inr head"
    and i: "list_all2 (\<lambda>item b. encode_item K ctx item = (Inr b :: (try_from_int_error, u8 list) res)) ps items"
    and bs: "bs = head @ concat items" by (rule encode_InrD[OF assms(1)])
  have "unat (of_nat (length ps) :: u16) = length ps"
    using l by (simp add: unat_of_nat take_bit_nat_eq_self)
  then show ?thesis
    using u16_roundtrip[OF h] decode_encoded_items[OF i assms(2), of ctx' "[]"]
    by (simp add: decode_cached_part_sheet_def bs)
qed

end

section \<open>The archived row\<close>

text \<open>The database row; its field \<open>row_saved_at\<close> holds a \<^verbatim>\<open>jiff::Timestamp\<close>, of any type.\<close>

record 't part_sheet_row =
  row_saved_at :: 't
  row_machine_id :: str
  row_part_id :: ascii_text
  row_data :: "saved_item list"

record 't row_lib =
  strftime_ms :: "'t \<Rightarrow> str"  \<comment> \<open>\<open>ts.strftime("%F %T%3.f")\<close>\<close>
  json_lib_of :: json_lib

definition serialize_timestamp :: "'t row_lib \<Rightarrow> 't \<Rightarrow> ser" where
  "serialize_timestamp L ts = SStr (strftime_ms L ts)"

fun serialize_entries :: "ua_types \<Rightarrow> saved_item list \<Rightarrow> ser_error + (str \<times> ser) list" where
  "serialize_entries ua [] = Inr []"
| "serialize_entries ua ((_, name, v) # ps) =
     (case serialize_variant ua v of Inl e \<Rightarrow> Inl e
      | Inr t \<Rightarrow> (case serialize_entries ua ps of Inl e \<Rightarrow> Inl e | Inr es \<Rightarrow> Inr ((name, t) # es)))"

definition serialize_part_sheet :: "ua_types \<Rightarrow> saved_item list \<Rightarrow> ser_error + ser" where
  "serialize_part_sheet ua ps =
     (case serialize_entries ua ps of Inl e \<Rightarrow> Inl e | Inr es \<Rightarrow> Inr (SMap es))"

definition serialize_row :: "ua_types \<Rightarrow> 't row_lib \<Rightarrow> 't part_sheet_row \<Rightarrow> ser_error + ser" where
  "serialize_row ua L row =
     (case serialize_part_sheet ua (row_data row) of Inl e \<Rightarrow> Inl e
      | Inr d \<Rightarrow> Inr (SStruct (lit ''PartSheetRow'')
          [(lit ''saved_at'', serialize_timestamp L (row_saved_at row)),
           (lit ''machine_id'', SStr (row_machine_id row)),
           (lit ''part_id'', SStr (as_str (row_part_id row))),
           (lit ''data'', d)]))"

definition encode_part_sheet_for_db ::
    "ua_types \<Rightarrow> 't row_lib \<Rightarrow> 't \<Rightarrow> str \<Rightarrow> ascii_text \<Rightarrow> saved_item list \<Rightarrow> json_error + str" where
  "encode_part_sheet_for_db ua L at machine part_id part_sheet =
     json_of (json_to_string (json_lib_of L)) (serialize_row ua L
       \<lparr>row_saved_at = at, row_machine_id = machine, row_part_id = part_id, row_data = part_sheet\<rparr>)"

lemma serialize_entries_total:
  "(\<exists>es. serialize_entries ua ps = Inr es) \<longleftrightarrow> list_all (\<lambda>i. serializable (item_value i)) ps"
proof (induction ps)
  case Nil
  then show ?case by simp
next
  case (Cons i ps)
  obtain node name v where i: "i = (node, name, v)" by (cases i)
  then show ?case
    using Cons.IH serialize_total(1)[of ua v] by (auto split: sum.splits)
qed

lemma serialize_entries_names: "serialize_entries ua ps = Inr es \<Longrightarrow> map fst es = map (fst \<circ> snd) ps"
  by (induction ua ps arbitrary: es rule: serialize_entries.induct) (auto split: sum.splits)

lemma serialize_row_total:
  "(\<exists>t. serialize_row ua L row = Inr t) \<longleftrightarrow> list_all (\<lambda>i. serializable (item_value i)) (row_data row)"
  using serialize_entries_total[of ua "row_data row"]
  by (auto simp: serialize_row_def serialize_part_sheet_def split: sum.splits)

lemma encode_for_db_line:
  assumes "json_lines (json_lib_of L)" and "encode_part_sheet_for_db ua L at m p ps = Inr s"
  shows "10 \<notin> set s"
  using assms json_lines.one_line by (fastforce simp: encode_part_sheet_for_db_def json_of_eq_Inr)

end
