(* ===== verification/Calendar.thy ===== *)
theory Calendar
  imports Gw_Prelude
begin

text \<open>
  The civil dates of the \<^verbatim>\<open>jiff\<close> crate, which is not part of the repository, as an interface: the
  formatting and parsing functions the gateway calls, and the documented laws it relies on.
  The second half builds a proleptic Gregorian calendar that satisfies them.
\<close>

section \<open>The interface\<close>

datatype jiff_error = JiffError str

record 'd dates =
  strftime_ymd :: "'d \<Rightarrow> str"               \<comment> \<open>\<open>date.strftime("%Y%m%d")\<close>\<close>
  strftime_yj :: "'d \<Rightarrow> str"                \<comment> \<open>\<open>date.strftime("%y%j")\<close>\<close>
  strptime_yj :: "str \<Rightarrow> jiff_error + 'd"    \<comment> \<open>\<open>Date::strptime("%y%j", s)\<close>\<close>

locale calendar =
  fixes J :: "'d dates" and valid :: "'d \<Rightarrow> bool"
  assumes yj_length: "valid d \<Longrightarrow> length (strftime_yj J d) = 5"
    and yj_digits: "valid d \<Longrightarrow> list_all ascii_digit (strftime_yj J d)"
    and yj_parses: "valid d \<Longrightarrow> \<exists>d'. strptime_yj J (strftime_yj J d) = Inr d'"
    and ymd_inj: "valid d \<Longrightarrow> valid d' \<Longrightarrow> strftime_ymd J d = strftime_ymd J d' \<Longrightarrow> d = d'"

section \<open>A Gregorian calendar\<close>

record civil =
  cyear :: nat
  cmonth :: nat
  cday :: nat

definition leap :: "nat \<Rightarrow> bool" where
  "leap y \<longleftrightarrow> y mod 4 = 0 \<and> (y mod 100 \<noteq> 0 \<or> y mod 400 = 0)"

definition month_lengths :: "nat \<Rightarrow> nat list" where
  "month_lengths y = [31, if leap y then 29 else 28, 31, 30, 31, 30, 31, 31, 30, 31, 30, 31]"

definition civil_ok :: "civil \<Rightarrow> bool" where
  "civil_ok d \<longleftrightarrow> cyear d < 10000 \<and> 1 \<le> cmonth d \<and> cmonth d \<le> 12 \<and> 1 \<le> cday d \<and>
     cday d \<le> month_lengths (cyear d) ! (cmonth d - 1)"

definition ordinal :: "civil \<Rightarrow> nat" where
  "ordinal d = sum_list (take (cmonth d - 1) (month_lengths (cyear d))) + cday d"

fun month_of :: "nat list \<Rightarrow> nat \<Rightarrow> nat \<Rightarrow> nat \<times> nat" where
  "month_of [] m n = (m, n)"
| "month_of (k # ks) m n = (if n \<le> k then (m, n) else month_of ks (Suc m) (n - k))"

definition of_ordinal :: "nat \<Rightarrow> nat \<Rightarrow> civil" where
  "of_ordinal y n = (let (m, d) = month_of (month_lengths y) 1 n in
     \<lparr>cyear = y, cmonth = m, cday = d\<rparr>)"

definition century :: "nat \<Rightarrow> nat" where
  "century yy = (if yy \<le> 68 then 2000 + yy else 1900 + yy)"

definition gregorian :: "civil dates" where
  "gregorian = \<lparr>
     strftime_ymd = (\<lambda>d. pad_zero 4 (show_dec (cyear d)) @ pad_zero 2 (show_dec (cmonth d)) @
       pad_zero 2 (show_dec (cday d))),
     strftime_yj = (\<lambda>d. pad_zero 2 (show_dec (cyear d mod 100)) @ pad_zero 3 (show_dec (ordinal d))),
     strptime_yj = (\<lambda>s. if length s \<noteq> 5 \<or> \<not> list_all ascii_digit s then Inl (JiffError (lit ''parse''))
       else let y = century (read_dec (take 2 s)); n = read_dec (drop 2 s) in
         if 1 \<le> n \<and> n \<le> (if leap y then 366 else 365) then Inr (of_ordinal y n)
         else Inl (JiffError (lit ''range'')))\<rparr>"

lemma gregorian_simps:
  "strftime_ymd gregorian d = pad_zero 4 (show_dec (cyear d)) @ pad_zero 2 (show_dec (cmonth d)) @
     pad_zero 2 (show_dec (cday d))"
  "strftime_yj gregorian d = pad_zero 2 (show_dec (cyear d mod 100)) @ pad_zero 3 (show_dec (ordinal d))"
  by (simp_all add: gregorian_def)

lemma pad_show_length: "0 < w \<Longrightarrow> n < 10 ^ w \<Longrightarrow> length (pad_zero w (show_dec n)) = w"
  using show_dec_length[of w n] by (simp add: length_pad_zero)

lemma pad_show_digits: "list_all ascii_digit (pad_zero w (show_dec n))"
  using set_pad_zero[OF show_dec_digits, of w n] by (simp add: list_all_iff ascii_digit_def)

lemma month_cases: "1 \<le> m \<Longrightarrow> m \<le> 12 \<Longrightarrow> m \<in> {1,2,3,4,5,6,7,8,9,10,11,12::nat}"
  by (simp, arith)

lemma ordinal_bounds: "civil_ok d \<Longrightarrow> 1 \<le> ordinal d \<and> ordinal d \<le> (if leap (cyear d) then 366 else 365)"
  using month_cases[of "cmonth d"]
  by (auto simp: civil_ok_def ordinal_def month_lengths_def)

lemma leap_century: "leap y \<Longrightarrow> leap (century (y mod 100))"
proof -
  assume y: "leap y"
  define z where "z = y mod 100"
  have z: "z < 100" "z mod 4 = 0"
    using y by (simp_all add: z_def leap_def mod_mod_cancel)
  show "leap (century (y mod 100))"
  proof (cases "z = 0")
    case True
    then show ?thesis by (simp add: z_def century_def leap_def)
  next
    case False
    have "(2000 + z) mod 4 = 0" "(1900 + z) mod 4 = 0"
      using z(2) mod_mult_self4[of 4 500 z] mod_mult_self4[of 4 475 z] by simp_all
    moreover have "(2000 + z) mod 100 = z" "(1900 + z) mod 100 = z"
      using z(1) mod_mult_self4[of 100 20 z] mod_mult_self4[of 100 19 z] by simp_all
    ultimately show ?thesis
      using False by (simp add: century_def leap_def flip: z_def)
  qed
qed

lemma civil_day_less: "civil_ok d \<Longrightarrow> cday d < 100"
  using month_cases[of "cmonth d"] by (auto simp: civil_ok_def month_lengths_def split: if_splits)

interpretation greg: calendar gregorian civil_ok
proof
  fix d assume d: "civil_ok d"
  have o: "ordinal d < 10 ^ 3" using ordinal_bounds[OF d] by (auto split: if_splits)
  have l2: "length (pad_zero 2 (show_dec (cyear d mod 100))) = 2" by (rule pad_show_length) simp_all
  have l3: "length (pad_zero 3 (show_dec (ordinal d))) = 3" using o by (rule pad_show_length[rotated]) simp
  show len: "length (strftime_yj gregorian d) = 5" by (simp add: gregorian_def l2 l3)
  show dig: "list_all ascii_digit (strftime_yj gregorian d)"
    by (simp add: gregorian_def pad_show_digits)
  have "take 2 (strftime_yj gregorian d) = pad_zero 2 (show_dec (cyear d mod 100))"
    and "drop 2 (strftime_yj gregorian d) = pad_zero 3 (show_dec (ordinal d))"
    by (simp_all add: gregorian_def l2)
  then have "read_dec (take 2 (strftime_yj gregorian d)) = cyear d mod 100"
    and "read_dec (drop 2 (strftime_yj gregorian d)) = ordinal d"
    by (simp_all add: read_pad_zero read_show_dec)
  then show "\<exists>d'. strptime_yj gregorian (strftime_yj gregorian d) = Inr d'"
    using len dig ordinal_bounds[OF d] leap_century[of "cyear d"]
    by (auto simp: gregorian_def Let_def split: if_splits)
next
  fix d d' assume d: "civil_ok d" "civil_ok d'" and eq: "strftime_ymd gregorian d = strftime_ymd gregorian d'"
  have l4: "length (pad_zero 4 (show_dec (cyear e))) = 4" if "civil_ok e" for e
    using that by (intro pad_show_length) (simp_all add: civil_ok_def)
  have l2: "length (pad_zero 2 (show_dec (cmonth e))) = 2" if "civil_ok e" for e
    using that by (intro pad_show_length) (simp_all add: civil_ok_def)
  have "pad_zero 4 (show_dec (cyear d)) = pad_zero 4 (show_dec (cyear d'))
      \<and> pad_zero 2 (show_dec (cmonth d)) = pad_zero 2 (show_dec (cmonth d'))
      \<and> pad_zero 2 (show_dec (cday d)) = pad_zero 2 (show_dec (cday d'))"
    using eq l4[OF d(1)] l4[OF d(2)] l2[OF d(1)] l2[OF d(2)] by (simp add: gregorian_def)
  then have "cyear d = cyear d'" "cmonth d = cmonth d'" "cday d = cday d'"
    using pad_show_inj by blast+
  then show "d = d'" by simp
qed

end
