(* ===== verification/Redb.thy ===== *)
theory Redb
  imports Gw_Prelude "HOL-Library.RBT" "HOL-Library.List_Lexorder"
begin

text \<open>
  The embedded database (the \<^verbatim>\<open>redb\<close> crate) as an interface: transactions, and the tables whose
  definitions the cache opens.  The laws are about successful calls; any call may fail.  A write
  transaction that is dropped is aborted.  The second half is an in-memory store with a fault
  plan that satisfies the laws.
\<close>

section \<open>Errors\<close>

datatype txn_error = TransactionError str
datatype table_error = TableDoesNotExist str | OtherTableError str
datatype storage_error = StorageError str
datatype commit_error = CommitError str

datatype redb_error =
    ETransaction txn_error
  | ETable table_error
  | EStorage storage_error
  | ECommit commit_error

section \<open>The interface\<close>

text \<open>Operations on one table, within a write transaction \<open>'w\<close> or a read transaction \<open>'r\<close>.\<close>

record ('w, 'r, 'k, 'v) table_ops =
  open_write :: "'w \<Rightarrow> (table_error + unit) \<times> 'w"
  wget :: "'k \<Rightarrow> 'w \<Rightarrow> (storage_error + 'v option) \<times> 'w"
  winsert :: "'k \<Rightarrow> 'v \<Rightarrow> 'w \<Rightarrow> (storage_error + unit) \<times> 'w"
  wremove :: "'k \<Rightarrow> 'w \<Rightarrow> (storage_error + unit) \<times> 'w"
  open_read :: "'r \<Rightarrow> table_error + unit"
  rget :: "'k \<Rightarrow> 'r \<Rightarrow> storage_error + 'v option"
  riter :: "'r \<Rightarrow> storage_error + (storage_error + 'k \<times> 'v) list"
  rlen :: "'r \<Rightarrow> storage_error + u64"

text \<open>A failed \<open>begin_write\<close> gives the database back; \<open>abort\<close> is the drop of a transaction.\<close>

record ('db, 'w, 'r) redb =
  begin_write :: "'db \<Rightarrow> (txn_error \<times> 'db) + 'w"
  begin_read :: "'db \<Rightarrow> (txn_error + 'r) \<times> 'db"
  commit :: "'w \<Rightarrow> (commit_error + unit) \<times> 'db"
  abort :: "'w \<Rightarrow> 'db"
  serial_ops :: "('w, 'r, str, u32) table_ops"
  sheet_ops :: "('w, 'r, str, u8 list) table_ops"
  seq_ops :: "('w, 'r, unit, u64) table_ops"
  general_ops :: "('w, 'r, u64, str) table_ops"
  operation_ops :: "('w, 'r, u64, str) table_ops"

text \<open>
  The shape of every writer of the cache: begin, run the block, commit; an early return drops
  the transaction.
\<close>

definition write_txn ::
    "('db, 'w, 'r) redb \<Rightarrow> (txn_error \<Rightarrow> 'e) \<Rightarrow> (commit_error \<Rightarrow> 'e) \<Rightarrow> ('w, 'e, 'a) act \<Rightarrow> ('db, 'e, 'a) act"
where
  "write_txn R te ce body db =
     (case begin_write R db of
        Inl (e, db') \<Rightarrow> (Inl (Err (te e)), db')
      | Inr w \<Rightarrow> (case body w of
          (Inl f, w') \<Rightarrow> (Inl f, abort R w')
        | (Inr x, w') \<Rightarrow> (case commit R w' of
            (Inl e, db') \<Rightarrow> (Inl (Err (ce e)), db')
          | (Inr _, db') \<Rightarrow> (Inr x, db'))))"

definition read_txn ::
    "('db, 'w, 'r) redb \<Rightarrow> (txn_error \<Rightarrow> 'e) \<Rightarrow> ('r \<Rightarrow> ('e, 'a) res) \<Rightarrow> ('db, 'e, 'a) act"
where
  "read_txn R te body db =
     (case begin_read R db of
        (Inl e, db') \<Rightarrow> (Inl (Err (te e)), db')
      | (Inr r, db') \<Rightarrow> (body r, db'))"

text \<open>An action that keeps a function of its state, whatever its result.\<close>

definition keeps :: "('s \<Rightarrow> 'b) \<Rightarrow> ('s, 'e, 'a) act \<Rightarrow> bool" where
  "keeps f m \<longleftrightarrow> (\<forall>s. f (snd (m s)) = f s)"

lemma keepsD: "keeps f m \<Longrightarrow> m s = (r, s') \<Longrightarrow> f s' = f s"
  by (metis keeps_def snd_conv)

lemma keeps_lift [intro!, simp]: "keeps f (act_lift r)"
  by (simp add: keeps_def)

lemma keeps_Pair [intro!, simp]: "keeps f (Pair r)"
  by (simp add: keeps_def)

lemma keeps_bind [intro!]: "keeps f m \<Longrightarrow> (\<And>x. keeps f (g x)) \<Longrightarrow> keeps f (act_bind m g)"
  by (simp add: keeps_def act_bind_def split: prod.splits sum.splits) (metis snd_conv)

lemma keeps_call: "(\<And>s. f (snd (m s)) = f s) \<Longrightarrow> keeps f (act_call e m)"
  by (auto simp: keeps_def act_call_def split: prod.splits) (metis snd_conv)

section \<open>What the tables contain\<close>

text \<open>The contents of a database: each table, when it exists, is a map.\<close>

record tables =
  serials :: "(str \<rightharpoonup> u32) option"
  sheets :: "(str \<rightharpoonup> u8 list) option"
  seqs :: "(unit \<rightharpoonup> u64) option"
  general_rows :: "(u64 \<rightharpoonup> str) option"
  operation_rows :: "(u64 \<rightharpoonup> str) option"

definition opened :: "('k \<rightharpoonup> 'v) option \<Rightarrow> ('k \<rightharpoonup> 'v)" where
  "opened t = (case t of None \<Rightarrow> Map.empty | Some m \<Rightarrow> m)"

lemma opened_simps [simp]: "opened None = Map.empty" "opened (Some m) = m"
  by (simp_all add: opened_def)

text \<open>
  \<open>sel\<close> and \<open>upd\<close> select and replace the table in the contents; \<open>wview\<close> is what a write
  transaction sees, \<open>wbase\<close> the contents when it began, and \<open>rview\<close> what a read transaction sees.
\<close>

locale redb_table =
  fixes T :: "('w, 'r, 'k, 'v) table_ops"
    and wview wbase :: "'w \<Rightarrow> tables"
    and rview :: "'r \<Rightarrow> tables"
    and sel :: "tables \<Rightarrow> ('k \<rightharpoonup> 'v) option"
    and upd :: "('k \<rightharpoonup> 'v) option \<Rightarrow> tables \<Rightarrow> tables"
  assumes open_write_view:
      "open_write T w = (Inr u, w') \<Longrightarrow> wview w' = upd (Some (opened (sel (wview w)))) (wview w)"
    and wget_view: "sel (wview w) = Some m \<Longrightarrow> wget T k w = (Inr x, w') \<Longrightarrow> x = m k \<and> wview w' = wview w"
    and winsert_view: "sel (wview w) = Some m \<Longrightarrow> winsert T k v w = (Inr u, w') \<Longrightarrow>
      wview w' = upd (Some (m(k \<mapsto> v))) (wview w)"
    and wremove_view: "sel (wview w) = Some m \<Longrightarrow> wremove T k w = (Inr u, w') \<Longrightarrow>
      wview w' = upd (Some (m(k := None))) (wview w)"
    and open_write_base: "wbase (snd (open_write T w)) = wbase w"
    and wget_base: "wbase (snd (wget T k w)) = wbase w"
    and winsert_base: "wbase (snd (winsert T k v w)) = wbase w"
    and wremove_base: "wbase (snd (wremove T k w)) = wbase w"
    and open_read_ok: "open_read T r = Inr u \<Longrightarrow> \<exists>m. sel (rview r) = Some m"
    and open_read_missing: "open_read T r = Inl (TableDoesNotExist s) \<Longrightarrow> sel (rview r) = None"
    and rget_view: "sel (rview r) = Some m \<Longrightarrow> rget T k r = Inr x \<Longrightarrow> x = m k"
begin

lemma keeps_ops [intro!, simp]:
  "keeps wbase (act_call e (open_write T))" "keeps wbase (act_call e2 (wget T k))"
  "keeps wbase (act_call e3 (winsert T k v))" "keeps wbase (act_call e4 (wremove T k))"
  by (rule keeps_call; rule open_write_base wget_base winsert_base wremove_base)+

end

text \<open>Iteration and length, which the code uses on the row queues.\<close>

locale redb_queue = redb_table T wview wbase rview sel upd
  for T :: "('w, 'r, u64, str) table_ops"
    and wview wbase :: "'w \<Rightarrow> tables" and rview :: "'r \<Rightarrow> tables"
    and sel :: "tables \<Rightarrow> (u64 \<rightharpoonup> str) option" and upd :: "(u64 \<rightharpoonup> str) option \<Rightarrow> tables \<Rightarrow> tables" +
  assumes riter_view: "sel (rview r) = Some m \<Longrightarrow> riter T r = Inr (map Inr kvs) \<Longrightarrow>
      sorted_wrt (<) (map fst kvs) \<and> map_of kvs = m"
    and rlen_view: "sel (rview r) = Some m \<Longrightarrow> rlen T r = Inr n \<Longrightarrow> finite (dom m) \<and> unat n = card (dom m)"

locale redb_store =
    serial: redb_table "serial_ops R" wview wbase rview serials "\<lambda>m. serials_update (\<lambda>_. m)"
  + sheet: redb_table "sheet_ops R" wview wbase rview sheets "\<lambda>m. sheets_update (\<lambda>_. m)"
  + seq: redb_table "seq_ops R" wview wbase rview seqs "\<lambda>m. seqs_update (\<lambda>_. m)"
  + gen: redb_queue "general_ops R" wview wbase rview general_rows "\<lambda>m. general_rows_update (\<lambda>_. m)"
  + oper: redb_queue "operation_ops R" wview wbase rview operation_rows "\<lambda>m. operation_rows_update (\<lambda>_. m)"
  for R :: "('db, 'w, 'r) redb" and view :: "'db \<Rightarrow> tables"
    and wview wbase :: "'w \<Rightarrow> tables" and rview :: "'r \<Rightarrow> tables" +
  assumes begin_write_ok: "begin_write R db = Inr w \<Longrightarrow> wview w = view db \<and> wbase w = view db"
    and begin_write_err: "begin_write R db = Inl (e, db') \<Longrightarrow> view db' = view db"
    and begin_read_ok: "begin_read R db = (Inr r, db') \<Longrightarrow> rview r = view db"
    and begin_read_view: "view (snd (begin_read R db)) = view db"
    and commit_ok: "commit R w = (Inr u, db') \<Longrightarrow> view db' = wview w"
    and commit_err: "commit R w = (Inl ce, db') \<Longrightarrow> view db' = wbase w \<or> view db' = wview w"
    and abort_view: "view (abort R w) = wbase w"
begin

lemma write_txn_Inr:
  assumes "write_txn R te ce body db = (Inr x, db')"
  obtains w w' where "wview w = view db" "body w = (Inr x, w')" "view db' = wview w'"
  using assms begin_write_ok commit_ok
  by (fastforce simp: write_txn_def split: sum.splits prod.splits)

text \<open>
  A failed writer leaves the contents as they were, except that a failed commit may have
  applied the whole block.
\<close>

lemma write_txn_Inl:
  assumes "write_txn R te ce body db = (Inl f, db')"
    and base: "keeps wbase body"
  shows "view db' = view db \<or>
     (\<exists>e w w' x. f = Err (ce e) \<and> wview w = view db \<and> body w = (Inr x, w') \<and> view db' = wview w')"
proof (cases "begin_write R db")
  case (Inl a)
  then show ?thesis using assms(1) begin_write_err by (cases a) (auto simp: write_txn_def)
next
  case (Inr w)
  obtain r w' where b: "body w = (r, w')" by (cases "body w")
  note v = begin_write_ok[OF Inr]
  have wb: "wbase w' = view db" using keepsD[OF base b] v by simp
  show ?thesis
  proof (cases r)
    case (Inl g)
    then have "db' = abort R w'" using assms(1) Inr b by (simp add: write_txn_def)
    then show ?thesis using abort_view[of w'] wb by simp
  next
    case R: (Inr x)
    obtain c d where c: "commit R w' = (c, d)" by (cases "commit R w'")
    then obtain e where e: "c = Inl e" "f = Err (ce e)" "db' = d"
      using assms(1) Inr b R by (auto simp: write_txn_def split: sum.splits)
    then have "view db' = wbase w' \<or> view db' = wview w'" using commit_err c by blast
    then show ?thesis
    proof
      assume "view db' = wbase w'"
      then show ?thesis using wb by simp
    next
      assume "view db' = wview w'"
      then show ?thesis using e v b R by metis
    qed
  qed
qed

lemma read_txn_step:
  assumes "read_txn R te body db = (x, db')"
  shows "view db' = view db"
    and "(\<exists>e. x = Inl (Err (te e))) \<or> (\<exists>r. rview r = view db \<and> x = body r)"
  using assms begin_read_view[of db] begin_read_ok[of db]
  by (auto simp: read_txn_def split: prod.splits sum.splits)

lemma read_txn_Inr:
  assumes "read_txn R te body db = (Inr x, db')"
  obtains r where "rview r = view db" "body r = Inr x"
  using assms begin_read_ok[of db] by (auto simp: read_txn_def split: prod.splits sum.splits)

end

section \<open>An in-memory store\<close>

text \<open>
  Tables are red-black trees.  The fault plan is a list of booleans: a call that can fail takes
  the first one and fails when it is true; calls after the end of the plan succeed.
\<close>

record mem =
  m_serials :: "(str, u32) rbt option"
  m_sheets :: "(str, u8 list) rbt option"
  m_seqs :: "(unit, u64) rbt option"
  m_general :: "(u64, str) rbt option"
  m_operation :: "(u64, str) rbt option"

type_synonym plan = "bool list"

datatype mem_db = MemDb (db_tables: mem) (db_plan: plan)
datatype mem_write = MemWrite (mw_base: mem) (mw_now: mem) (mw_plan: plan)
datatype mem_read = MemRead (mr_tables: mem) (mr_fail: bool)

definition mem_view :: "mem \<Rightarrow> tables" where
  "mem_view m = \<lparr>serials = map_option RBT.lookup (m_serials m), sheets = map_option RBT.lookup (m_sheets m),
     seqs = map_option RBT.lookup (m_seqs m), general_rows = map_option RBT.lookup (m_general m),
     operation_rows = map_option RBT.lookup (m_operation m)\<rparr>"

fun mem_call :: "'e \<Rightarrow> 'a \<Rightarrow> (mem \<Rightarrow> mem) \<Rightarrow> mem_write \<Rightarrow> ('e + 'a) \<times> mem_write" where
  "mem_call e x f (MemWrite b m (True # p)) = (Inl e, MemWrite b m p)"
| "mem_call e x f (MemWrite b m (False # p)) = (Inr x, MemWrite b (f m) p)"
| "mem_call e x f (MemWrite b m []) = (Inr x, MemWrite b (f m) [])"

definition table_or_empty :: "('k::linorder, 'v) rbt option \<Rightarrow> ('k, 'v) rbt" where
  "table_or_empty t = (case t of None \<Rightarrow> RBT.empty | Some x \<Rightarrow> x)"

definition mem_ops :: "(mem \<Rightarrow> ('k::linorder, 'v) rbt option) \<Rightarrow> (('k, 'v) rbt option \<Rightarrow> mem \<Rightarrow> mem) \<Rightarrow>
    (mem_write, mem_read, 'k, 'v) table_ops" where
  "mem_ops get put = \<lparr>
     open_write = mem_call (OtherTableError []) () (\<lambda>m. put (Some (table_or_empty (get m))) m),
     wget = (\<lambda>k w. mem_call (StorageError []) (RBT.lookup (table_or_empty (get (mw_now w))) k) (\<lambda>m. m) w),
     winsert = (\<lambda>k v. mem_call (StorageError []) () (\<lambda>m. put (Some (RBT.insert k v (table_or_empty (get m)))) m)),
     wremove = (\<lambda>k. mem_call (StorageError []) () (\<lambda>m. put (Some (RBT.delete k (table_or_empty (get m)))) m)),
     open_read = (\<lambda>r. if mr_fail r then Inl (OtherTableError []) else case get (mr_tables r) of
        None \<Rightarrow> Inl (TableDoesNotExist []) | Some t \<Rightarrow> Inr ()),
     rget = (\<lambda>k r. Inr (RBT.lookup (table_or_empty (get (mr_tables r))) k)),
     riter = (\<lambda>r. Inr (map Inr (RBT.entries (table_or_empty (get (mr_tables r)))))),
     rlen = (\<lambda>r. let n = length (RBT.entries (table_or_empty (get (mr_tables r)))) in
        if n < 2 ^ 64 then Inr (of_nat n) else Inl (StorageError []))\<rparr>"

fun mem_begin_write :: "mem_db \<Rightarrow> (txn_error \<times> mem_db) + mem_write" where
  "mem_begin_write (MemDb m (True # p)) = Inl (TransactionError [], MemDb m p)"
| "mem_begin_write (MemDb m p) = Inr (MemWrite m m (tl p))"

fun mem_begin_read :: "mem_db \<Rightarrow> (txn_error + mem_read) \<times> mem_db" where
  "mem_begin_read (MemDb m (True # p)) = (Inl (TransactionError []), MemDb m p)"
| "mem_begin_read (MemDb m (False # b # p)) = (Inr (MemRead m b), MemDb m p)"
| "mem_begin_read (MemDb m p) = (Inr (MemRead m False), MemDb m [])"

fun mem_commit :: "mem_write \<Rightarrow> (commit_error + unit) \<times> mem_db" where
  "mem_commit (MemWrite b m (True # p)) = (Inl (CommitError []), MemDb b p)"
| "mem_commit (MemWrite b m p) = (Inr (), MemDb m (tl p))"

definition mem_redb :: "(mem_db, mem_write, mem_read) redb" where
  "mem_redb = \<lparr>begin_write = mem_begin_write, begin_read = mem_begin_read, commit = mem_commit,
     abort = (\<lambda>w. MemDb (mw_base w) (mw_plan w)),
     serial_ops = mem_ops m_serials (\<lambda>t. m_serials_update (\<lambda>_. t)),
     sheet_ops = mem_ops m_sheets (\<lambda>t. m_sheets_update (\<lambda>_. t)),
     seq_ops = mem_ops m_seqs (\<lambda>t. m_seqs_update (\<lambda>_. t)),
     general_ops = mem_ops m_general (\<lambda>t. m_general_update (\<lambda>_. t)),
     operation_ops = mem_ops m_operation (\<lambda>t. m_operation_update (\<lambda>_. t))\<rparr>"

lemma mem_call_Inr:
  "mem_call e x f w = (Inr y, w') \<Longrightarrow> y = x \<and> mw_now w' = f (mw_now w)"
  by (induction e x f w rule: mem_call.induct) auto

lemma mem_call_base: "mw_base (snd (mem_call e x f w)) = mw_base w"
  by (induction e x f w rule: mem_call.induct) auto

lemma table_or_empty_lookup:
  "RBT.lookup (table_or_empty t) = opened (map_option RBT.lookup t)"
  by (auto simp: table_or_empty_def fun_eq_iff split: option.splits)

text \<open>The laws of one table, from the laws of its selector and update.\<close>

lemma mem_ops_simps:
  "open_write (mem_ops get put) = mem_call (OtherTableError []) () (\<lambda>m. put (Some (table_or_empty (get m))) m)"
  "wget (mem_ops get put) k w =
     mem_call (StorageError []) (RBT.lookup (table_or_empty (get (mw_now w))) k) (\<lambda>m. m) w"
  "winsert (mem_ops get put) k v =
     mem_call (StorageError []) () (\<lambda>m. put (Some (RBT.insert k v (table_or_empty (get m)))) m)"
  "wremove (mem_ops get put) k =
     mem_call (StorageError []) () (\<lambda>m. put (Some (RBT.delete k (table_or_empty (get m)))) m)"
  "open_read (mem_ops get put) r = (if mr_fail r then Inl (OtherTableError []) else case get (mr_tables r) of
     None \<Rightarrow> Inl (TableDoesNotExist []) | Some t \<Rightarrow> Inr ())"
  "rget (mem_ops get put) k r = Inr (RBT.lookup (table_or_empty (get (mr_tables r))) k)"
  "riter (mem_ops get put) r = Inr (map Inr (RBT.entries (table_or_empty (get (mr_tables r)))))"
  "rlen (mem_ops get put) r = (let n = length (RBT.entries (table_or_empty (get (mr_tables r)))) in
     if n < 2 ^ 64 then Inr (of_nat n) else Inl (StorageError []))"
  by (simp_all add: mem_ops_def)

lemma mem_ops_table:
  assumes sel: "\<And>m. sel (mem_view m) = map_option RBT.lookup (get m)"
    and upd: "\<And>t m. mem_view (put t m) = upd (map_option RBT.lookup t) (mem_view m)"
  shows "redb_table (mem_ops get put) (mem_view \<circ> mw_now) (mem_view \<circ> mw_base) (mem_view \<circ> mr_tables) sel upd"
proof
  let ?T = "mem_ops get put"
  have look: "RBT.lookup (table_or_empty (get m)) = opened (sel (mem_view m))" for m
    by (simp add: sel table_or_empty_lookup)
  show "open_write ?T w = (Inr u, w') \<Longrightarrow> (mem_view \<circ> mw_now) w' =
      upd (Some (opened (sel ((mem_view \<circ> mw_now) w)))) ((mem_view \<circ> mw_now) w)" for w u w'
    by (auto simp: mem_ops_simps upd look dest!: mem_call_Inr)
  show "sel ((mem_view \<circ> mw_now) w) = Some m \<Longrightarrow> wget ?T k w = (Inr x, w') \<Longrightarrow>
      x = m k \<and> (mem_view \<circ> mw_now) w' = (mem_view \<circ> mw_now) w" for w m k x w'
    by (auto simp: mem_ops_simps look dest!: mem_call_Inr)
  show "sel ((mem_view \<circ> mw_now) w) = Some m \<Longrightarrow> winsert ?T k v w = (Inr u, w') \<Longrightarrow>
      (mem_view \<circ> mw_now) w' = upd (Some (m(k \<mapsto> v))) ((mem_view \<circ> mw_now) w)" for w m k v u w'
    by (auto simp: mem_ops_simps upd look dest!: mem_call_Inr)
  show "sel ((mem_view \<circ> mw_now) w) = Some m \<Longrightarrow> wremove ?T k w = (Inr u, w') \<Longrightarrow>
      (mem_view \<circ> mw_now) w' = upd (Some (m(k := None))) ((mem_view \<circ> mw_now) w)" for w m k u w'
    by (auto simp: mem_ops_simps upd look dest!: mem_call_Inr)
  show "open_read ?T r = Inr u \<Longrightarrow> \<exists>m. sel ((mem_view \<circ> mr_tables) r) = Some m" for r u
    by (auto simp: mem_ops_simps sel split: if_splits option.splits)
  show "open_read ?T r = Inl (TableDoesNotExist s) \<Longrightarrow> sel ((mem_view \<circ> mr_tables) r) = None" for r s
    by (auto simp: mem_ops_simps sel split: if_splits option.splits)
  show "sel ((mem_view \<circ> mr_tables) r) = Some m \<Longrightarrow> rget ?T k r = Inr x \<Longrightarrow> x = m k" for r m k x
    by (auto simp: mem_ops_simps look)
qed (simp_all add: mem_ops_simps mem_call_base)

lemma entries_sorted: "sorted_wrt (<) (map fst (RBT.entries t))"
  by (simp add: strict_sorted_iff RBT.sorted_entries RBT.distinct_entries)

lemma entries_single: "RBT.entries (RBT.insert k v RBT.empty) = [(k, v)]" for k :: "'k::linorder"
  by (simp add: RBT.entries.rep_eq RBT.insert.rep_eq RBT.empty.rep_eq RBT_Impl.rbt_insert_def
      RBT_Impl.rbt_insert_with_key_def paint_def)

lemma entries_card: "finite (dom (RBT.lookup t)) \<and> card (dom (RBT.lookup t)) = length (RBT.entries t)"
proof -
  have "RBT.lookup t = map_of (RBT.entries t)" by (simp add: RBT.map_of_entries)
  moreover have "card (dom (map_of (RBT.entries t))) = length (map fst (RBT.entries t))"
    unfolding dom_map_of_conv_image_fst
    using distinct_card[OF RBT.distinct_entries[of t]] by simp
  ultimately show ?thesis by (simp add: finite_dom_map_of)
qed

lemma mem_ops_queue:
  assumes "redb_table (mem_ops get put) (mem_view \<circ> mw_now) (mem_view \<circ> mw_base) (mem_view \<circ> mr_tables) sel upd"
    and "\<And>m. sel (mem_view m) = map_option RBT.lookup (get m)"
  shows "redb_queue (mem_ops get put) (mem_view \<circ> mw_now) (mem_view \<circ> mw_base) (mem_view \<circ> mr_tables) sel upd"
proof (intro redb_queue.intro assms(1) redb_queue_axioms.intro)
  fix r m kvs
  assume "sel ((mem_view \<circ> mr_tables) r) = Some m" "riter (mem_ops get put) r = Inr (map Inr kvs)"
  moreover obtain t where t: "get (mr_tables r) = Some t" "m = RBT.lookup t"
    using calculation(1) by (auto simp: assms(2))
  moreover have "RBT.entries t = kvs"
    using calculation by (simp add: mem_ops_simps table_or_empty_def inj_map_eq_map)
  ultimately show "sorted_wrt (<) (map fst kvs) \<and> map_of kvs = m"
    using entries_sorted[of t] RBT.map_of_entries[of t] by simp
next
  fix r m n
  assume "sel ((mem_view \<circ> mr_tables) r) = Some m" "rlen (mem_ops get put) r = Inr n"
  moreover obtain t where t: "get (mr_tables r) = Some t" "m = RBT.lookup t"
    using calculation(1) by (auto simp: assms(2))
  moreover have "n = of_nat (length (RBT.entries t))" "length (RBT.entries t) < 2 ^ 64"
    using calculation by (simp_all add: mem_ops_simps table_or_empty_def Let_def split: if_splits)
  ultimately show "finite (dom m) \<and> unat n = card (dom m)"
    using entries_card[of t] by (simp add: unat_of_nat take_bit_nat_eq_self)
qed

lemma mem_begin_write_laws:
  "mem_begin_write db = Inr w \<Longrightarrow> mw_now w = db_tables db \<and> mw_base w = db_tables db"
  "mem_begin_write db = Inl (e, db') \<Longrightarrow> db_tables db' = db_tables db"
  by (induction db rule: mem_begin_write.induct) auto

lemma mem_begin_read_laws:
  "mem_begin_read db = (Inr r, db') \<Longrightarrow> mr_tables r = db_tables db"
  "db_tables (snd (mem_begin_read db)) = db_tables db"
  by (induction db rule: mem_begin_read.induct) auto

lemma mem_commit_laws:
  "mem_commit w = (Inr u, db') \<Longrightarrow> db_tables db' = mw_now w"
  "mem_commit w = (Inl ce, db') \<Longrightarrow> db_tables db' = mw_base w"
  by (induction w rule: mem_commit.induct) auto

lemma mem_redb_tables:
  "serial_ops mem_redb = mem_ops m_serials (\<lambda>t. m_serials_update (\<lambda>_. t))"
  "sheet_ops mem_redb = mem_ops m_sheets (\<lambda>t. m_sheets_update (\<lambda>_. t))"
  "seq_ops mem_redb = mem_ops m_seqs (\<lambda>t. m_seqs_update (\<lambda>_. t))"
  "general_ops mem_redb = mem_ops m_general (\<lambda>t. m_general_update (\<lambda>_. t))"
  "operation_ops mem_redb = mem_ops m_operation (\<lambda>t. m_operation_update (\<lambda>_. t))"
  by (simp_all add: mem_redb_def)

interpretation memdb: redb_store mem_redb "mem_view \<circ> db_tables" "mem_view \<circ> mw_now" "mem_view \<circ> mw_base"
  "mem_view \<circ> mr_tables"
proof (intro redb_store.intro)
  show "redb_store_axioms mem_redb (mem_view \<circ> db_tables) (mem_view \<circ> mw_now) (mem_view \<circ> mw_base)
      (mem_view \<circ> mr_tables)"
    by unfold_locales (auto simp: mem_redb_def mem_begin_read_laws
        dest: mem_begin_write_laws mem_begin_read_laws(1) mem_commit_laws)
qed (unfold mem_redb_tables, (intro mem_ops_queue mem_ops_table; simp add: mem_view_def)+)

end
