(* ===== verification/Trace_Cache.thy ===== *)
theory Trace_Cache
  imports Part_Sheet Calendar Redb
begin

text \<open>
  The traceability cache, \<^verbatim>\<open>src/traceability/cache.rs\<close>: daily serial numbers, the last general part
  sheet of each part, and the two queues of rows waiting to be archived.  Each operation is an
  action on the database, within one transaction; its parameters are the libraries it calls.
\<close>

section \<open>Tables and errors\<close>

datatype queue_table = General | Operation

definition queue_tables :: "queue_table list" where
  "queue_tables = [General, Operation]"

definition table_definition ::
    "('db, 'w, 'r) redb \<Rightarrow> queue_table \<Rightarrow> ('w, 'r, u64, str) table_ops" where
  "table_definition R q = (case q of General \<Rightarrow> general_ops R | Operation \<Rightarrow> operation_ops R)"

definition queue_table_fmt :: "queue_table \<Rightarrow> str" where
  "queue_table_fmt q = (case q of General \<Rightarrow> lit ''general_queue'' | Operation \<Rightarrow> lit ''operation_queue'')"

datatype get_error =
    Get_Transaction txn_error
  | Get_Table table_error
  | Get_Storage storage_error
  | Decoding io_error

datatype save_error =
    ElementsCount try_from_int_error
  | GeneralSerialization json_error
  | OperationSerialization json_error
  | Save_Transaction txn_error
  | Save_Table table_error
  | Save_Storage storage_error
  | Save_Commit commit_error

datatype check_error =
    Check_Transaction txn_error
  | Check_Table table_error
  | Check_Storage storage_error
  | TooMuchEnqueued u64 u64

record ('db, 'w, 'r) trace_cache =
  cache_redb :: "('db, 'w, 'r) redb"
  queues_threshold :: u64

section \<open>Operations\<close>

definition next_serial :: "'d dates \<Rightarrow> ('db, 'w, 'r) trace_cache \<Rightarrow> 'd \<Rightarrow> ('db, redb_error, u32) act" where
  "next_serial J C date =
     (let R = cache_redb C; T = serial_ops R; date_str = strftime_ymd J date in
      write_txn R ETransaction ECommit
        (act_bind (act_call ETable (open_write T)) (\<lambda>_.
         act_bind (act_call EStorage (wget T date_str)) (\<lambda>got.
         let nxt = (case got of Some v \<Rightarrow> v + 1 | None \<Rightarrow> 1) in
         act_bind (act_call EStorage (winsert T date_str nxt)) (\<lambda>_.
         act_lift (Inr nxt))))))"

definition get_general_part_sheet ::
    "'c codec \<Rightarrow> ('db, 'w, 'r) trace_cache \<Rightarrow> str \<Rightarrow> 'c \<Rightarrow> ('db, get_error, (u32 \<times> variant) list option) act"
where
  "get_general_part_sheet K C part_id ctx =
     (let R = cache_redb C; T = sheet_ops R in
      read_txn R Get_Transaction (\<lambda>r.
        res_bind (of_sum Get_Table (open_read T r)) (\<lambda>_.
        res_bind (of_sum Get_Storage (rget T part_id r)) (\<lambda>value_guard.
        case value_guard of
          None \<Rightarrow> Inr None
        | Some bytes \<Rightarrow> res_bind (of_sum Decoding (decode_cached_part_sheet K ctx bytes)) (\<lambda>ps.
            Inr (Some ps))))))"

definition save_block ::
    "('db, 'w, 'r) redb \<Rightarrow> str \<Rightarrow> u8 list \<Rightarrow> str \<Rightarrow> str \<Rightarrow> ('w, save_error, unit) act" where
  "save_block R part_id cached_general json_general json_operation =
     act_bind (act_call Save_Table (open_write (seq_ops R))) (\<lambda>_.
     act_bind (act_call Save_Storage (wget (seq_ops R) ())) (\<lambda>entry.
     let nxt = (case entry of Some v \<Rightarrow> v + 2 | None \<Rightarrow> 0) in
     act_bind (act_call Save_Storage (winsert (seq_ops R) () nxt)) (\<lambda>_.
     act_bind (act_call Save_Table (open_write (sheet_ops R))) (\<lambda>_.
     act_bind (act_call Save_Storage (winsert (sheet_ops R) part_id cached_general)) (\<lambda>_.
     act_bind (act_call Save_Table (open_write (general_ops R))) (\<lambda>_.
     act_bind (act_call Save_Storage (winsert (general_ops R) nxt json_general)) (\<lambda>_.
     act_bind (act_call Save_Table (open_write (operation_ops R))) (\<lambda>_.
     act_call Save_Storage (winsert (operation_ops R) (nxt + 1) json_operation)))))))))"

text \<open>What is computed before the transaction: the cached bytes and the two rows.\<close>

definition encode_sheets ::
    "'c codec \<Rightarrow> ua_types \<Rightarrow> 't row_lib \<Rightarrow> 't \<Rightarrow> str \<Rightarrow> ascii_text \<Rightarrow> saved_item list \<Rightarrow> saved_item list \<Rightarrow> 'c
      \<Rightarrow> (save_error, u8 list \<times> str \<times> str) res"
where
  "encode_sheets K ua L saved_at machine part_id general operation ctx =
     res_bind (map_err ElementsCount (encode_part_sheet_for_cache K ctx general)) (\<lambda>cached_general.
     res_bind (of_sum GeneralSerialization (encode_part_sheet_for_db ua L saved_at machine part_id general)) (\<lambda>json_general.
     res_bind (of_sum OperationSerialization (encode_part_sheet_for_db ua L saved_at machine part_id operation)) (\<lambda>json_operation.
       Inr (cached_general, json_general, json_operation))))"

definition save_part_sheets ::
    "'c codec \<Rightarrow> ua_types \<Rightarrow> 't row_lib \<Rightarrow> ('db, 'w, 'r) trace_cache \<Rightarrow> 't \<Rightarrow> str \<Rightarrow> ascii_text
      \<Rightarrow> saved_item list \<Rightarrow> saved_item list \<Rightarrow> 'c \<Rightarrow> ('db, save_error, unit) act"
where
  "save_part_sheets K ua L C saved_at machine part_id general operation ctx =
     act_bind (act_lift (encode_sheets K ua L saved_at machine part_id general operation ctx))
       (\<lambda>(cached_general, json_general, json_operation).
         write_txn (cache_redb C) Save_Transaction Save_Commit
           (save_block (cache_redb C) (as_str part_id) cached_general json_general json_operation))"

fun count_enqueued :: "('db, 'w, 'r) redb \<Rightarrow> 'r \<Rightarrow> u64 \<Rightarrow> queue_table list \<Rightarrow> (check_error, u64) res" where
  "count_enqueued R r total_enqueued [] = Inr total_enqueued"
| "count_enqueued R r total_enqueued (q # qs) =
     (case open_read (table_definition R q) r of
        Inl (TableDoesNotExist _) \<Rightarrow> count_enqueued R r total_enqueued qs
      | Inl e \<Rightarrow> Inl (Err (Check_Table e))
      | Inr _ \<Rightarrow> res_bind (of_sum Check_Storage (rlen (table_definition R q) r)) (\<lambda>len.
          count_enqueued R r (total_enqueued + len) qs))"

definition check_enqueuing_allowed :: "('db, 'w, 'r) trace_cache \<Rightarrow> ('db, check_error, unit) act" where
  "check_enqueuing_allowed C =
     read_txn (cache_redb C) Check_Transaction (\<lambda>r.
       res_bind (count_enqueued (cache_redb C) r 0 queue_tables) (\<lambda>total_enqueued.
         if total_enqueued \<ge> queues_threshold C
         then Inl (Err (TooMuchEnqueued total_enqueued (queues_threshold C)))
         else Inr ()))"

definition batch_of :: "(storage_error + u64 \<times> str) list \<Rightarrow> (redb_error, u64 list \<times> str) res" where
  "batch_of items = res_bind (collect (of_sum EStorage) items) (\<lambda>kvs.
     Inr (map fst kvs, concat (map (\<lambda>(_, v). v @ [10]) kvs)))"

definition get_queue_batch ::
    "('db, 'w, 'r) trace_cache \<Rightarrow> queue_table \<Rightarrow> ('db, redb_error, u64 list \<times> str) act" where
  "get_queue_batch C q =
     (let T = table_definition (cache_redb C) q in
      read_txn (cache_redb C) ETransaction (\<lambda>r.
        case open_read T r of
          Inl (TableDoesNotExist _) \<Rightarrow> Inr ([], [])
        | Inl e \<Rightarrow> Inl (Err (ETable e))
        | Inr _ \<Rightarrow> res_bind (of_sum EStorage (riter T r)) batch_of))"

fun remove_keys :: "('w, 'r, u64, str) table_ops \<Rightarrow> u64 list \<Rightarrow> ('w, redb_error, unit) act" where
  "remove_keys T [] = act_lift (Inr ())"
| "remove_keys T (key # keys) =
     act_bind (act_call EStorage (wremove T key)) (\<lambda>_. remove_keys T keys)"

definition remove_entries ::
    "('db, 'w, 'r) trace_cache \<Rightarrow> queue_table \<Rightarrow> u64 list \<Rightarrow> ('db, redb_error, unit) act" where
  "remove_entries C q keys =
     (let T = table_definition (cache_redb C) q in
      write_txn (cache_redb C) ETransaction ECommit
        (act_bind (act_call ETable (open_write T)) (\<lambda>_. remove_keys T keys)))"

section \<open>Specification on the contents\<close>

text \<open>What each writer does to the contents of the database when it succeeds.\<close>

definition serial_after :: "u32 option \<Rightarrow> u32" where
  "serial_after got = (case got of Some v \<Rightarrow> v + 1 | None \<Rightarrow> 1)"

definition spec_serial :: "str \<Rightarrow> tables \<Rightarrow> u32" where
  "spec_serial date_str t = serial_after (opened (serials t) date_str)"

definition spec_serial_step :: "str \<Rightarrow> tables \<Rightarrow> tables" where
  "spec_serial_step date_str t =
     t\<lparr>serials := Some ((opened (serials t))(date_str \<mapsto> spec_serial date_str t))\<rparr>"

definition spec_seq :: "tables \<Rightarrow> u64" where
  "spec_seq t = (case opened (seqs t) () of Some v \<Rightarrow> v + 2 | None \<Rightarrow> 0)"

definition spec_save :: "str \<Rightarrow> u8 list \<Rightarrow> str \<Rightarrow> str \<Rightarrow> tables \<Rightarrow> tables" where
  "spec_save part_id cached_general json_general json_operation t =
     t\<lparr>seqs := Some ((opened (seqs t))(() \<mapsto> spec_seq t)),
       sheets := Some ((opened (sheets t))(part_id \<mapsto> cached_general)),
       general_rows := Some ((opened (general_rows t))(spec_seq t \<mapsto> json_general)),
       operation_rows := Some ((opened (operation_rows t))(spec_seq t + 1 \<mapsto> json_operation))\<rparr>"

definition rows :: "queue_table \<Rightarrow> tables \<Rightarrow> (u64 \<rightharpoonup> str) option" where
  "rows q t = (case q of General \<Rightarrow> general_rows t | Operation \<Rightarrow> operation_rows t)"

definition set_rows :: "queue_table \<Rightarrow> (u64 \<rightharpoonup> str) option \<Rightarrow> tables \<Rightarrow> tables" where
  "set_rows q m t = (case q of General \<Rightarrow> t\<lparr>general_rows := m\<rparr> | Operation \<Rightarrow> t\<lparr>operation_rows := m\<rparr>)"

definition spec_remove :: "queue_table \<Rightarrow> u64 list \<Rightarrow> tables \<Rightarrow> tables" where
  "spec_remove q keys t = set_rows q (Some ((opened (rows q t)) |` (- set keys))) t"

definition queued :: "tables \<Rightarrow> nat" where
  "queued t = (\<Sum>q\<leftarrow>queue_tables. card (dom (opened (rows q t))))"

lemma rows_set_rows [simp]: "rows q (set_rows q' m t) = (if q = q' then m else rows q t)"
  by (cases q; cases q') (simp_all add: rows_def set_rows_def)

lemma rows_simps [simp]:
  "rows General t = general_rows t" "rows Operation t = operation_rows t"
  by (simp_all add: rows_def)

lemma set_rows_id: "set_rows q (rows q t) t = t"
  by (cases q) (simp_all add: set_rows_def)

lemma set_rows_twice: "set_rows q m (set_rows q m' t) = set_rows q m t"
  by (cases q) (simp_all add: set_rows_def)

section \<open>The operations implement the specification\<close>

context redb_store
begin

lemma queue_table_laws:
  "redb_queue (table_definition R q) wview wbase rview (rows q) (set_rows q)"
proof (cases q)
  case General
  then have "rows q = general_rows" "set_rows q = (\<lambda>m. general_rows_update (\<lambda>_. m))"
    by (simp_all add: fun_eq_iff set_rows_def)
  then show ?thesis using gen.redb_queue_axioms General by (simp add: table_definition_def)
next
  case Operation
  then have "rows q = operation_rows" "set_rows q = (\<lambda>m. operation_rows_update (\<lambda>_. m))"
    by (simp_all add: fun_eq_iff set_rows_def)
  then show ?thesis using oper.redb_queue_axioms Operation by (simp add: table_definition_def)
qed

lemma serial_body_Inr:
  assumes "act_bind (act_call ETable (open_write (serial_ops R))) (\<lambda>_.
         act_bind (act_call EStorage (wget (serial_ops R) k)) (\<lambda>got.
         let nxt = (case got of Some v \<Rightarrow> v + 1 | None \<Rightarrow> 1) in
         act_bind (act_call EStorage (winsert (serial_ops R) k nxt)) (\<lambda>_.
         act_lift (Inr nxt)))) w = (Inr n, w')"
  shows "n = spec_serial k (wview w) \<and> wview w' = spec_serial_step k (wview w)"
proof -
  obtain w1 got w2 u1 u2 where o: "open_write (serial_ops R) w = (Inr u1, w1)"
    and g: "wget (serial_ops R) k w1 = (Inr got, w2)" and n: "n = serial_after got"
    and i: "winsert (serial_ops R) k n w2 = (Inr u2, w')"
    using assms by (fastforce simp: Let_def act_bind_eq_Inr act_call_eq_Inr serial_after_def)
  have 1: "serials (wview w1) = Some (opened (serials (wview w)))"
    "wview w1 = wview w\<lparr>serials := Some (opened (serials (wview w)))\<rparr>"
    using serial.open_write_view[OF o] by simp_all
  have 2: "got = opened (serials (wview w)) k" "wview w2 = wview w1"
    using serial.wget_view[OF 1(1) g] by simp_all
  then show ?thesis
    using serial.winsert_view[OF _ i, of "opened (serials (wview w))"] 1 n
    by (simp add: spec_serial_def spec_serial_step_def)
qed

lemma next_serial_Inr:
  assumes "next_serial J C date db = (Inr n, db')" and "cache_redb C = R"
  shows "n = spec_serial (strftime_ymd J date) (view db) \<and>
    view db' = spec_serial_step (strftime_ymd J date) (view db)"
  using assms(1) unfolding next_serial_def assms(2) Let_def
  by (elim write_txn_Inr) (drule serial_body_Inr[unfolded Let_def], simp)

lemma next_serial_Inl:
  assumes "next_serial J C date db = (Inl f, db')" and "cache_redb C = R"
  shows "view db' = view db \<or>
    (\<exists>e. f = Err (ECommit e)) \<and> view db' = spec_serial_step (strftime_ymd J date) (view db)"
  using assms(1) unfolding next_serial_def assms(2) Let_def
  by (rule disjE[OF write_txn_Inl]; (auto dest!: serial_body_Inr[unfolded Let_def])?)

lemma save_block_Inr:
  assumes "save_block R pid bytes jg jo w = (Inr u, w')"
  shows "wview w' = spec_save pid bytes jg jo (wview w)"
proof -
  let ?t = "wview w"
  let ?n = "spec_seq ?t"
  obtain got w1 w2 w3 w4 w5 w6 w7 w8 u1 u3 u4 u5 u6 u7 u8 u9 n
    where n: "n = (case got of Some v \<Rightarrow> v + 2 | None \<Rightarrow> 0)"
      and s1: "open_write (seq_ops R) w = (Inr u1, w1)" and s2: "wget (seq_ops R) () w1 = (Inr got, w2)"
      and s3: "winsert (seq_ops R) () n w2 = (Inr u3, w3)"
      and s4: "open_write (sheet_ops R) w3 = (Inr u4, w4)"
      and s5: "winsert (sheet_ops R) pid bytes w4 = (Inr u5, w5)"
      and s6: "open_write (general_ops R) w5 = (Inr u6, w6)"
      and s7: "winsert (general_ops R) n jg w6 = (Inr u7, w7)"
      and s8: "open_write (operation_ops R) w7 = (Inr u8, w8)"
      and s9: "winsert (operation_ops R) (n + 1) jo w8 = (Inr u9, w')"
    using assms unfolding save_block_def Let_def act_bind_eq_Inr act_call_eq_Inr by blast
  note v1 = seq.open_write_view[OF s1]
  have v2: "got = opened (seqs ?t) ()" "wview w2 = wview w1"
    using seq.wget_view[OF _ s2, of "opened (seqs ?t)"] v1 by simp_all
  have n': "n = ?n" using n v2 by (simp add: spec_seq_def)
  have v3: "wview w3 = ?t\<lparr>seqs := Some ((opened (seqs ?t))(() \<mapsto> n))\<rparr>"
    using seq.winsert_view[OF _ s3, of "opened (seqs ?t)"] v1 v2 by simp
  note v4 = sheet.open_write_view[OF s4]
  have v5: "wview w5 = wview w3\<lparr>sheets := Some ((opened (sheets ?t))(pid \<mapsto> bytes))\<rparr>"
    using sheet.winsert_view[OF _ s5, of "opened (sheets ?t)"] v4 v3 by simp
  note v6 = gen.open_write_view[OF s6]
  have v7: "wview w7 = wview w5\<lparr>general_rows := Some ((opened (general_rows ?t))(n \<mapsto> jg))\<rparr>"
    using gen.winsert_view[OF _ s7, of "opened (general_rows ?t)"] v6 v5 v3 by simp
  note v8 = oper.open_write_view[OF s8]
  have "wview w' = wview w7\<lparr>operation_rows := Some ((opened (operation_rows ?t))(n + 1 \<mapsto> jo))\<rparr>"
    using oper.winsert_view[OF _ s9, of "opened (operation_rows ?t)"] v8 v7 v5 v3 by simp
  then show ?thesis using v7 v5 v3 n' by (simp add: spec_save_def)
qed

lemma save_block_keeps: "keeps wbase (save_block R pid bytes jg jo)"
  unfolding save_block_def Let_def by (intro keeps_bind seq.keeps_ops sheet.keeps_ops gen.keeps_ops oper.keeps_ops)

lemma save_part_sheets_Inr:
  assumes "save_part_sheets K ua L C ts machine pid general operation ctx db = (Inr u, db')"
    and "cache_redb C = R"
  obtains bytes jg jo where
    "encode_sheets K ua L ts machine pid general operation ctx = Inr (bytes, jg, jo)"
    "view db' = spec_save (as_str pid) bytes jg jo (view db)"
  using assms(1) unfolding save_part_sheets_def assms(2)
  by (auto simp: act_bind_eq_Inr elim!: write_txn_Inr dest!: save_block_Inr)

lemma save_part_sheets_Inl:
  assumes "save_part_sheets K ua L C ts machine pid general operation ctx db = (Inl f, db')"
    and "cache_redb C = R"
  shows "view db' = view db \<or> ((\<exists>e. f = Err (Save_Commit e)) \<and> (\<exists>bytes jg jo.
    encode_sheets K ua L ts machine pid general operation ctx = Inr (bytes, jg, jo) \<and>
    view db' = spec_save (as_str pid) bytes jg jo (view db)))"
proof (cases "encode_sheets K ua L ts machine pid general operation ctx")
  case (Inl g)
  then show ?thesis using assms(1) by (simp add: save_part_sheets_def)
next
  case (Inr x)
  obtain bytes jg jo where x: "x = (bytes, jg, jo)" by (cases x)
  have "write_txn R Save_Transaction Save_Commit (save_block R (as_str pid) bytes jg jo) db = (Inl f, db')"
    using assms Inr x by (simp add: save_part_sheets_def)
  from write_txn_Inl[OF this save_block_keeps] show ?thesis
    using Inr x save_block_Inr by fastforce
qed

lemma get_general_Inr:
  assumes "get_general_part_sheet K C pid ctx db = (Inr x, db')" and "cache_redb C = R"
  shows "\<exists>m. sheets (view db) = Some m \<and> (case m pid of None \<Rightarrow> x = None
    | Some bytes \<Rightarrow> \<exists>ps. decode_cached_part_sheet K ctx bytes = Inr ps \<and> x = Some ps)"
proof -
  obtain r u g where r: "rview r = view db" and o: "open_read (sheet_ops R) r = Inr u"
    and g: "rget (sheet_ops R) pid r = Inr g"
    and x: "(case g of None \<Rightarrow> Inr None
        | Some bytes \<Rightarrow> res_bind (of_sum Decoding (decode_cached_part_sheet K ctx bytes)) (\<lambda>ps.
            Inr (Some ps))) = Inr x"
    using assms(1) unfolding get_general_part_sheet_def assms(2) Let_def
    by (elim read_txn_Inr) (auto simp: res_bind_eq_Inr of_sum_eq_Inr)
  obtain m where m: "sheets (view db) = Some m" using sheet.open_read_ok[OF o] r by auto
  then have "g = m pid" using sheet.rget_view[OF _ g] r by simp
  then show ?thesis using m x by (auto simp: res_bind_eq_Inr of_sum_eq_Inr split: option.splits)
qed

lemma get_general_view:
  assumes "get_general_part_sheet K C pid ctx db = (x, db')" and "cache_redb C = R"
  shows "view db' = view db"
  using assms(1) unfolding get_general_part_sheet_def assms(2) Let_def by (rule read_txn_step(1))

lemma count_enqueued_Inr:
  "count_enqueued R r n qs = Inr tot \<Longrightarrow>
     tot = n + of_nat (\<Sum>q\<leftarrow>qs. card (dom (opened (rows q (rview r))))) \<and>
     (\<forall>q\<in>set qs. finite (dom (opened (rows q (rview r)))))"
proof (induction qs arbitrary: n)
  case Nil
  then show ?case by simp
next
  case (Cons q qs)
  note law = queue_table_laws[of q] redb_queue.axioms(1)[OF queue_table_laws[of q]]
  show ?case
  proof (cases "open_read (table_definition R q) r")
    case (Inl e)
    then obtain s where e: "e = TableDoesNotExist s" and "count_enqueued R r n qs = Inr tot"
      using Cons.prems by (cases e) auto
    moreover have "rows q (rview r) = None"
      using redb_table.open_read_missing[OF law(2)] Inl e by blast
    ultimately show ?thesis using Cons.IH by simp
  next
    case (Inr u)
    then obtain m where m: "rows q (rview r) = Some m" using redb_table.open_read_ok[OF law(2)] by blast
    obtain l where l: "rlen (table_definition R q) r = Inr l" and c: "count_enqueued R r (n + l) qs = Inr tot"
      using Cons.prems Inr by (auto simp: res_bind_eq_Inr of_sum_eq_Inr)
    have f: "finite (dom m)" "unat l = card (dom m)"
      using redb_queue.rlen_view[OF law(1) m l] by simp_all
    then have "l = of_nat (card (dom m))" by (metis of_nat_unat ucast_id)
    then show ?thesis using Cons.IH[OF c] m f by (simp add: add.assoc)
  qed
qed

lemma check_enqueuing_Inr:
  assumes "check_enqueuing_allowed C db = (Inr u, db')" and "cache_redb C = R"
  shows "view db' = view db \<and> (of_nat (queued (view db)) :: u64) < queues_threshold C"
proof -
  have v: "view db' = view db"
    using assms(1) unfolding check_enqueuing_allowed_def assms(2) by (rule read_txn_step(1))
  obtain r tot where "rview r = view db" "count_enqueued R r 0 queue_tables = Inr tot"
    "tot < queues_threshold C"
    using assms(1) unfolding check_enqueuing_allowed_def assms(2)
    by (elim read_txn_Inr) (auto simp: res_bind_eq_Inr not_le split: if_splits)
  then show ?thesis using v by (auto simp: queued_def dest: count_enqueued_Inr)
qed

lemma check_enqueuing_TooMuch:
  assumes "check_enqueuing_allowed C db = (Inl (Err (TooMuchEnqueued n m)), db')" and "cache_redb C = R"
  shows "n = of_nat (queued (view db)) \<and> m = queues_threshold C \<and> m \<le> n"
proof -
  have count_err: "count_enqueued R r k qs \<noteq> Inl (Err (TooMuchEnqueued n m))" for r k qs
    by (induction R r k qs rule: count_enqueued.induct)
      (auto simp: res_bind_eq_Inl of_sum_eq_Err split: sum.splits table_error.splits)
  obtain r tot where "rview r = view db" "count_enqueued R r 0 queue_tables = Inr tot"
    "n = tot" "m = queues_threshold C" "m \<le> n"
    using read_txn_step(2)[OF assms(1)[unfolded check_enqueuing_allowed_def assms(2)]]
    by (auto dest!: sym[of "Inl _"] simp: res_bind_eq_Inl count_err split: if_splits)
  then show ?thesis by (auto simp: queued_def dest: count_enqueued_Inr)
qed

lemma collect_items: "collect (of_sum e) items = Inr kvs \<Longrightarrow> items = map Inr kvs"
  by (induction items arbitrary: kvs) (auto simp: res_bind_eq_Inr of_sum_eq_Inr)

lemma get_queue_batch_Inr:
  assumes "get_queue_batch C q db = (Inr (keys, body), db')" and "cache_redb C = R"
  obtains kvs where "sorted_wrt (<) (map fst kvs)" "map_of kvs = opened (rows q (view db))"
    "keys = map fst kvs" "body = concat (map (\<lambda>(_, v). v @ [10]) kvs)"
proof -
  note law = queue_table_laws[of q] redb_queue.axioms(1)[OF queue_table_laws[of q]]
  obtain r where r: "rview r = view db" and b: "(case open_read (table_definition R q) r of
          Inl (TableDoesNotExist _) \<Rightarrow> Inr ([], []) | Inl e \<Rightarrow> Inl (Err (ETable e))
        | Inr _ \<Rightarrow> res_bind (of_sum EStorage (riter (table_definition R q) r)) batch_of) = Inr (keys, body)"
    using assms(1) unfolding get_queue_batch_def assms(2) Let_def by (rule read_txn_Inr)
  show ?thesis
  proof (cases "open_read (table_definition R q) r")
    case (Inl e)
    then have ke: "keys = [] \<and> body = [] \<and> (\<exists>s. e = TableDoesNotExist s)"
      using b by (cases e) simp_all
    then obtain s where e: "e = TableDoesNotExist s" "keys = []" "body = []" by blast
    moreover have "rows q (rview r) = None"
      using redb_table.open_read_missing[OF law(2)] Inl e(1) by blast
    ultimately show ?thesis using that[of "[]"] r by simp
  next
    case (Inr u)
    then obtain m where m: "rows q (rview r) = Some m" using redb_table.open_read_ok[OF law(2)] by blast
    obtain items kvs where i: "riter (table_definition R q) r = Inr items"
      and k: "collect (of_sum EStorage) items = Inr kvs"
      and kb: "keys = map fst kvs" "body = concat (map (\<lambda>(_, v). v @ [10]) kvs)"
      using b Inr by (auto simp: res_bind_eq_Inr of_sum_eq_Inr batch_of_def)
    have "riter (table_definition R q) r = Inr (map Inr kvs)" using i collect_items[OF k] by simp
    then have "sorted_wrt (<) (map fst kvs) \<and> map_of kvs = m" by (rule redb_queue.riter_view[OF law(1) m])
    then show ?thesis using m r by (intro that[OF _ _ kb]) simp_all
  qed
qed

lemma get_queue_batch_view:
  assumes "get_queue_batch C q db = (x, db')" and "cache_redb C = R"
  shows "view db' = view db"
  using assms(1) unfolding get_queue_batch_def assms(2) Let_def by (rule read_txn_step(1))

lemma remove_keys_Inr:
  "rows q (wview w) = Some m \<Longrightarrow> remove_keys (table_definition R q) keys w = (Inr u, w') \<Longrightarrow>
     wview w' = set_rows q (Some (m |` (- set keys))) (wview w)"
proof (induction keys arbitrary: w m)
  case Nil
  then show ?case using set_rows_id[of q "wview w"] by simp
next
  case (Cons k keys)
  note law = redb_queue.axioms(1)[OF queue_table_laws[of q]]
  obtain w1 u1 where r: "wremove (table_definition R q) k w = (Inr u1, w1)"
    and rest: "remove_keys (table_definition R q) keys w1 = (Inr u, w')"
    using Cons.prems(2) by (auto simp: act_bind_eq_Inr act_call_eq_Inr)
  let ?m = "m(k := None)"
  have v: "wview w1 = set_rows q (Some ?m) (wview w)"
    using redb_table.wremove_view[OF law Cons.prems(1) r] .
  have "wview w' = set_rows q (Some (?m |` (- set keys))) (wview w1)"
    by (rule Cons.IH[OF _ rest]) (simp add: v fun_upd_def)
  moreover have "?m |` (- set keys) = m |` (- set (k # keys))"
    by (auto simp: fun_eq_iff restrict_map_def)
  ultimately show ?case by (simp only: v set_rows_twice)
qed

lemma remove_keys_keeps: "keeps wbase (remove_keys (table_definition R q) keys)"
  by (induction keys)
    (auto intro!: keeps_bind redb_table.keeps_ops[OF redb_queue.axioms(1)[OF queue_table_laws[of q]]])

lemma remove_block_Inr:
  assumes "act_bind (act_call ETable (open_write (table_definition R q)))
      (\<lambda>_. remove_keys (table_definition R q) keys) w = (Inr u, w')"
  shows "wview w' = spec_remove q keys (wview w)"
proof -
  note law = redb_queue.axioms(1)[OF queue_table_laws[of q]]
  obtain u1 w1 where o: "open_write (table_definition R q) w = (Inr u1, w1)"
    and r: "remove_keys (table_definition R q) keys w1 = (Inr u, w')"
    using assms by (auto simp: act_bind_eq_Inr act_call_eq_Inr)
  have "wview w1 = set_rows q (Some (opened (rows q (wview w)))) (wview w)"
    using redb_table.open_write_view[OF law o] .
  then show ?thesis using remove_keys_Inr[where m = "opened (rows q (wview w))", OF _ r]
    by (simp add: spec_remove_def set_rows_twice)
qed

lemma remove_entries_Inr:
  assumes "remove_entries C q keys db = (Inr u, db')" and "cache_redb C = R"
  shows "view db' = spec_remove q keys (view db)"
  using assms(1) unfolding remove_entries_def assms(2) Let_def
  by (elim write_txn_Inr) (drule remove_block_Inr, simp)

lemma remove_entries_Inl:
  assumes "remove_entries C q keys db = (Inl f, db')" and "cache_redb C = R"
  shows "view db' = view db \<or> (\<exists>e. f = Err (ECommit e)) \<and> view db' = spec_remove q keys (view db)"
proof -
  have "keeps wbase (act_bind (act_call ETable (open_write (table_definition R q)))
      (\<lambda>_. remove_keys (table_definition R q) keys) :: ('w, redb_error, unit) act)"
    by (intro keeps_bind remove_keys_keeps redb_table.keeps_ops[OF redb_queue.axioms(1)[OF queue_table_laws[of q]]])
  from write_txn_Inl[OF assms(1)[unfolded remove_entries_def assms(2) Let_def] this] show ?thesis
    by (metis remove_block_Inr)
qed

end

end
