(* ===== verification/Cache_Runs.thy ===== *)
theory Cache_Runs
  imports Trace_Cache
begin

text \<open>
  Sequences of calls to the traceability cache.  The handlers of several machines and the
  draining task call it concurrently; every call is one transaction, so what they do together
  is some sequence of calls.  This theory runs such sequences and proves what holds along them.
\<close>

section \<open>Calls\<close>

record ('d, 'c, 't) libs =
  lib_dates :: "'d dates"
  lib_codec :: "'c codec"
  lib_ua :: ua_types
  lib_row :: "'t row_lib"

datatype ('d, 'c, 't) cache_call =
    NextSerial 'd
  | GetSheet str 'c
  | SaveSheets 't str ascii_text "saved_item list" "saved_item list" 'c
  | CheckEnqueuing
  | GetBatch queue_table
  | RemoveEntries queue_table "u64 list"

datatype outcome =
    Serial "(redb_error, u32) res"
  | Sheet "(get_error, (u32 \<times> variant) list option) res"
  | Saved "(save_error, unit) res"
  | Checked "(check_error, unit) res"
  | Batch "(redb_error, u64 list \<times> str) res"
  | Removed "(redb_error, unit) res"

fun exec_call :: "('d, 'c, 't) libs \<Rightarrow> ('db, 'w, 'r) trace_cache \<Rightarrow> ('d, 'c, 't) cache_call \<Rightarrow> 'db \<Rightarrow> outcome \<times> 'db"
where
  "exec_call L C (NextSerial d) db = map_prod Serial id (next_serial (lib_dates L) C d db)"
| "exec_call L C (GetSheet pid ctx) db = map_prod Sheet id (get_general_part_sheet (lib_codec L) C pid ctx db)"
| "exec_call L C (SaveSheets ts machine pid general operation ctx) db =
     map_prod Saved id (save_part_sheets (lib_codec L) (lib_ua L) (lib_row L) C ts machine pid general operation ctx db)"
| "exec_call L C CheckEnqueuing db = map_prod Checked id (check_enqueuing_allowed C db)"
| "exec_call L C (GetBatch q) db = map_prod Batch id (get_queue_batch C q db)"
| "exec_call L C (RemoveEntries q keys) db = map_prod Removed id (remove_entries C q keys db)"

fun run_calls :: "('d, 'c, 't) libs \<Rightarrow> ('db, 'w, 'r) trace_cache \<Rightarrow> ('d, 'c, 't) cache_call list \<Rightarrow> 'db
    \<Rightarrow> outcome list \<times> 'db" where
  "run_calls L C [] db = ([], db)"
| "run_calls L C (c # cs) db =
     (case exec_call L C c db of (x, db1) \<Rightarrow> case run_calls L C cs db1 of (xs, db2) \<Rightarrow> (x # xs, db2))"

lemma map_prod_eq_iff: "map_prod f id p = (x, y) \<longleftrightarrow> (\<exists>z. p = (z, y) \<and> x = f z)"
  by (cases p) auto

lemma run_calls_Cons:
  "run_calls L C (c # cs) db = (os, db') \<longleftrightarrow>
     (\<exists>x db1 xs. exec_call L C c db = (x, db1) \<and> run_calls L C cs db1 = (xs, db') \<and> os = x # xs)"
  by (auto split: prod.splits)

section \<open>Every call is atomic\<close>

text \<open>The change a call makes to the contents when it succeeds.\<close>

fun effect :: "('d, 'c, 't) libs \<Rightarrow> ('d, 'c, 't) cache_call \<Rightarrow> tables \<Rightarrow> tables" where
  "effect L (NextSerial d) t = spec_serial_step (strftime_ymd (lib_dates L) d) t"
| "effect L (SaveSheets ts machine pid general operation ctx) t =
     (case encode_sheets (lib_codec L) (lib_ua L) (lib_row L) ts machine pid general operation ctx of
        Inr (bytes, jg, jo) \<Rightarrow> spec_save (as_str pid) bytes jg jo t
      | Inl _ \<Rightarrow> t)"
| "effect L (RemoveEntries q keys) t = spec_remove q keys t"
| "effect L (GetSheet _ _) t = t"
| "effect L CheckEnqueuing t = t"
| "effect L (GetBatch _) t = t"

fun succeeded :: "outcome \<Rightarrow> bool" where
  "succeeded (Serial r) \<longleftrightarrow> \<not> isl r"
| "succeeded (Sheet r) \<longleftrightarrow> \<not> isl r"
| "succeeded (Saved r) \<longleftrightarrow> \<not> isl r"
| "succeeded (Checked r) \<longleftrightarrow> \<not> isl r"
| "succeeded (Batch r) \<longleftrightarrow> \<not> isl r"
| "succeeded (Removed r) \<longleftrightarrow> \<not> isl r"

fun commit_failed :: "outcome \<Rightarrow> bool" where
  "commit_failed (Serial (Inl (Err (ECommit _)))) \<longleftrightarrow> True"
| "commit_failed (Saved (Inl (Err (Save_Commit _)))) \<longleftrightarrow> True"
| "commit_failed (Removed (Inl (Err (ECommit _)))) \<longleftrightarrow> True"
| "commit_failed _ \<longleftrightarrow> False"

text \<open>What a call returns, with the threshold \<open>h\<close>, from the contents \<open>t\<close> it finds.\<close>

definition batch_rows :: "queue_table \<Rightarrow> tables \<Rightarrow> (u64 \<times> str) list \<Rightarrow> bool" where
  "batch_rows q t kvs \<longleftrightarrow> sorted_wrt (<) (map fst kvs) \<and> map_of kvs = opened (rows q t)"

definition json_lines_body :: "(u64 \<times> str) list \<Rightarrow> str" where
  "json_lines_body kvs = concat (map (\<lambda>(_, v). v @ [10]) kvs)"

fun answer :: "('d, 'c, 't) libs \<Rightarrow> u64 \<Rightarrow> ('d, 'c, 't) cache_call \<Rightarrow> outcome \<Rightarrow> tables \<Rightarrow> bool" where
  "answer L h (NextSerial d) (Serial r) t \<longleftrightarrow>
     (case r of Inr n \<Rightarrow> n = spec_serial (strftime_ymd (lib_dates L) d) t | Inl _ \<Rightarrow> True)"
| "answer L h (GetSheet pid ctx) (Sheet r) t \<longleftrightarrow>
     (case r of Inr x \<Rightarrow> (\<exists>m. sheets t = Some m \<and> (case m pid of None \<Rightarrow> x = None
        | Some bytes \<Rightarrow> \<exists>ps. decode_cached_part_sheet (lib_codec L) ctx bytes = Inr ps \<and> x = Some ps))
      | Inl _ \<Rightarrow> True)"
| "answer L h (SaveSheets ts machine pid general operation ctx) (Saved r) t \<longleftrightarrow>
     (case r of Inr _ \<Rightarrow>
        (\<exists>y. encode_sheets (lib_codec L) (lib_ua L) (lib_row L) ts machine pid general operation ctx = Inr y)
      | Inl _ \<Rightarrow> True)"
| "answer L h CheckEnqueuing (Checked r) t \<longleftrightarrow>
     (case r of Inr _ \<Rightarrow> of_nat (queued t) < h
      | Inl (Err (TooMuchEnqueued n m)) \<Rightarrow> n = of_nat (queued t) \<and> m = h \<and> h \<le> n
      | Inl _ \<Rightarrow> True)"
| "answer L h (GetBatch q) (Batch r) t \<longleftrightarrow>
     (case r of Inr (keys, body) \<Rightarrow>
        (\<exists>kvs. batch_rows q t kvs \<and> keys = map fst kvs \<and> body = json_lines_body kvs)
      | Inl _ \<Rightarrow> True)"
| "answer L h (RemoveEntries q keys) (Removed r) t \<longleftrightarrow> True"
| "answer L h _ _ t \<longleftrightarrow> False"

definition atomic_step ::
    "('d, 'c, 't) libs \<Rightarrow> u64 \<Rightarrow> ('d, 'c, 't) cache_call \<Rightarrow> outcome \<Rightarrow> tables \<Rightarrow> tables \<Rightarrow> bool" where
  "atomic_step L h c x t t' \<longleftrightarrow> answer L h c x t \<and>
     (if succeeded x then t' = effect L c t else t' = t \<or> commit_failed x \<and> t' = effect L c t)"

text \<open>A run of calls, seen on the contents.\<close>

fun tsteps ::
    "('d, 'c, 't) libs \<Rightarrow> u64 \<Rightarrow> ('d, 'c, 't) cache_call list \<Rightarrow> outcome list \<Rightarrow> tables \<Rightarrow> tables \<Rightarrow> bool" where
  "tsteps L h [] os t t' \<longleftrightarrow> os = [] \<and> t' = t"
| "tsteps L h (c # cs) [] t t' \<longleftrightarrow> False"
| "tsteps L h (c # cs) (x # os) t t' \<longleftrightarrow> (\<exists>t1. atomic_step L h c x t t1 \<and> tsteps L h cs os t1 t')"

context redb_store
begin

lemma check_view:
  assumes "check_enqueuing_allowed C db = (x, db')" and "cache_redb C = R"
  shows "view db' = view db"
  using assms(1) unfolding check_enqueuing_allowed_def assms(2) by (rule read_txn_step(1))

lemma exec_call_atomic:
  assumes "exec_call L C c db = (x, db')" and R: "cache_redb C = R"
  shows "atomic_step L (queues_threshold C) c x (view db) (view db')"
proof (cases c)
  case (NextSerial d)
  then obtain r where r: "next_serial (lib_dates L) C d db = (r, db')" "x = Serial r"
    using assms(1) by (auto simp: map_prod_eq_iff)
  then show ?thesis using NextSerial next_serial_Inr[OF _ R] next_serial_Inl[OF _ R]
    by (cases r) (fastforce simp: atomic_step_def)+
next
  case (GetSheet pid ctx)
  then obtain r where r: "get_general_part_sheet (lib_codec L) C pid ctx db = (r, db')" "x = Sheet r"
    using assms(1) by (auto simp: map_prod_eq_iff)
  then show ?thesis using GetSheet get_general_view[OF r(1) R] get_general_Inr[OF _ R]
    by (cases r) (auto simp: atomic_step_def)
next
  case (SaveSheets ts machine pid general operation ctx)
  then obtain r where r: "x = Saved r"
    "save_part_sheets (lib_codec L) (lib_ua L) (lib_row L) C ts machine pid general operation ctx db = (r, db')"
    using assms(1) by (auto simp: map_prod_eq_iff)
  show ?thesis
  proof (cases r)
    case (Inl f)
    then show ?thesis using r SaveSheets save_part_sheets_Inl[OF _ R] by (fastforce simp: atomic_step_def)
  next
    case (Inr u)
    then show ?thesis using r SaveSheets by (auto simp: atomic_step_def elim!: save_part_sheets_Inr[OF _ R])
  qed
next
  case CheckEnqueuing
  then obtain r where r: "check_enqueuing_allowed C db = (r, db')" "x = Checked r"
    using assms(1) by (auto simp: map_prod_eq_iff)
  then show ?thesis using CheckEnqueuing check_view[OF r(1) R] check_enqueuing_Inr[OF _ R]
      check_enqueuing_TooMuch[OF _ R]
    by (cases r) (auto simp: atomic_step_def split: fault.splits check_error.splits)
next
  case (GetBatch q)
  then obtain r where r: "get_queue_batch C q db = (r, db')" "x = Batch r"
    using assms(1) by (auto simp: map_prod_eq_iff)
  then show ?thesis using GetBatch get_queue_batch_view[OF r(1) R]
    by (cases r) (auto simp: atomic_step_def batch_rows_def json_lines_body_def elim!: get_queue_batch_Inr[OF _ R])
next
  case (RemoveEntries q keys)
  then obtain r where r: "x = Removed r" "remove_entries C q keys db = (r, db')"
    using assms(1) by (auto simp: map_prod_eq_iff)
  then show ?thesis using RemoveEntries remove_entries_Inr[OF _ R] remove_entries_Inl[OF _ R]
    by (cases r) (fastforce simp: atomic_step_def)+
qed

lemma run_calls_tsteps:
  "run_calls L C cs db = (os, db') \<Longrightarrow> cache_redb C = R \<Longrightarrow>
     tsteps L (queues_threshold C) cs os (view db) (view db')"
proof (induction cs arbitrary: os db)
  case Nil
  then show ?case by simp
next
  case (Cons c cs)
  then obtain x db1 xs where "exec_call L C c db = (x, db1)" "run_calls L C cs db1 = (xs, db')" "os = x # xs"
    unfolding run_calls_Cons by blast
  then show ?case using Cons exec_call_atomic by fastforce
qed

end

section \<open>Serial numbers\<close>

text \<open>The last serial given for a day, zero when there is none, and those given along a run.\<close>

definition last_serial :: "str \<Rightarrow> tables \<Rightarrow> nat" where
  "last_serial k t = (case opened (serials t) k of None \<Rightarrow> 0 | Some v \<Rightarrow> unat v)"

fun issued1 :: "('d, 'c, 't) libs \<Rightarrow> str \<Rightarrow> ('d, 'c, 't) cache_call \<Rightarrow> outcome \<Rightarrow> nat list" where
  "issued1 L k (NextSerial d) (Serial (Inr n)) = (if strftime_ymd (lib_dates L) d = k then [unat n] else [])"
| "issued1 L k _ _ = []"

fun issued :: "('d, 'c, 't) libs \<Rightarrow> str \<Rightarrow> ('d, 'c, 't) cache_call list \<Rightarrow> outcome list \<Rightarrow> nat list" where
  "issued L k (c # cs) (x # os) = issued1 L k c x @ issued L k cs os"
| "issued L k _ _ = []"

lemma last_serial_spec:
  assumes "last_serial k t + 1 < 2 ^ 32"
  shows "unat (spec_serial k t) = last_serial k t + 1"
    and "last_serial k (spec_serial_step k' t) = (if k' = k then last_serial k t + 1 else last_serial k t)"
proof -
  have "unat (v + 1) = unat v + 1" if "unat v + 1 < 2 ^ 32" for v :: u32
    using that by (simp add: unat_word_ariths)
  then show *: "unat (spec_serial k t) = last_serial k t + 1"
    using assms by (simp add: spec_serial_def last_serial_def serial_after_def split: option.splits)
  show "last_serial k (spec_serial_step k' t) = (if k' = k then last_serial k t + 1 else last_serial k t)"
    using * by (simp add: spec_serial_step_def last_serial_def)
qed

lemma last_serial_save [simp]: "last_serial k (spec_save pid b jg jo t) = last_serial k t"
  by (simp add: last_serial_def spec_save_def)

lemma last_serial_remove [simp]: "last_serial k (spec_remove q keys t) = last_serial k t"
  by (cases q) (simp_all add: last_serial_def spec_remove_def set_rows_def)

lemma last_serial_effect:
  assumes "last_serial k t + 1 < 2 ^ 32"
  shows "last_serial k (effect L c t) =
    (if \<exists>d. c = NextSerial d \<and> strftime_ymd (lib_dates L) d = k then last_serial k t + 1 else last_serial k t)"
  using last_serial_spec[OF assms] by (cases c) (auto split: sum.splits)

lemma issued_step:
  assumes "atomic_step L h c x t t1" and "last_serial k t + 1 < 2 ^ 32"
  shows "last_serial k t \<le> last_serial k t1" and "last_serial k t1 \<le> last_serial k t + 1"
    and "issued1 L k c x = [] \<or> issued1 L k c x = [last_serial k t + 1] \<and> last_serial k t1 = last_serial k t + 1"
  using assms(1) last_serial_effect[OF assms(2), of L c] last_serial_spec(1)[OF assms(2)]
  by (induction L k c x rule: issued1.induct) (auto simp: atomic_step_def split: if_splits)

lemma issued_sorted:
  "tsteps L h cs os t t' \<Longrightarrow> last_serial k t + length cs < 2 ^ 32 \<Longrightarrow>
     sorted_wrt (<) (issued L k cs os) \<and> (\<forall>n\<in>set (issued L k cs os). last_serial k t < n)"
proof (induction L h cs os t t' rule: tsteps.induct)
  case (3 L h c cs x os t t')
  then obtain t1 where s: "atomic_step L h c x t t1" and r: "tsteps L h cs os t1 t'" by auto
  have b: "last_serial k t + 1 < 2 ^ 32" using "3.prems"(2) by simp
  note st = issued_step[OF s b]
  have "sorted_wrt (<) (issued L k cs os) \<and> (\<forall>n\<in>set (issued L k cs os). last_serial k t1 < n)"
    using "3.IH"[OF r] st(2) "3.prems"(2) by simp
  then show ?case using st by fastforce
qed simp_all

section \<open>Sequence numbers\<close>

text \<open>
  The next sequence number, as a natural number, and the invariant of the queues: general rows
  have even keys, operation rows odd ones, all below the next number.
\<close>

definition next_seq :: "tables \<Rightarrow> nat" where
  "next_seq t = (case opened (seqs t) () of None \<Rightarrow> 0 | Some v \<Rightarrow> unat v + 2)"

definition queue_inv :: "tables \<Rightarrow> bool" where
  "queue_inv t \<longleftrightarrow> even (next_seq t) \<and>
     (\<forall>k\<in>dom (opened (general_rows t)). even (unat k) \<and> unat k < next_seq t) \<and>
     (\<forall>k\<in>dom (opened (operation_rows t)). odd (unat k) \<and> unat k < next_seq t)"

lemma spec_seq_unat:
  assumes "next_seq t + 2 \<le> 2 ^ 64"
  shows "unat (spec_seq t) = next_seq t" and "unat (spec_seq t + 1) = next_seq t + 1"
proof -
  have a: "unat (v + w) = unat v + unat w" if "unat v + unat w < 2 ^ 64" for v w :: u64
    using that by (simp add: unat_word_ariths)
  have "unat (v + 2) = unat v + 2" if "unat v + 2 < 2 ^ 64" for v :: u64
    using that a[of v 2] by simp
  then show *: "unat (spec_seq t) = next_seq t"
    using assms by (simp add: spec_seq_def next_seq_def split: option.splits)
  show "unat (spec_seq t + 1) = next_seq t + 1"
    using * assms a[of "spec_seq t" 1] by simp
qed

lemma next_seq_simps [simp]:
  "next_seq (spec_serial_step k t) = next_seq t"
  "next_seq (spec_remove q keys t) = next_seq t"
   apply (simp add: next_seq_def spec_serial_step_def)
  apply (cases q; simp add: next_seq_def spec_remove_def set_rows_def)
  done

lemma next_seq_save:
  "next_seq t + 2 \<le> 2 ^ 64 \<Longrightarrow> next_seq (spec_save pid b jg jo t) = next_seq t + 2"
  using spec_seq_unat(1)[of t] unfolding next_seq_def[of "spec_save pid b jg jo t"]
  by (simp add: spec_save_def)

lemma rows_spec_save:
  "opened (rows General (spec_save pid b jg jo t)) = (opened (general_rows t))(spec_seq t \<mapsto> jg)"
  "opened (rows Operation (spec_save pid b jg jo t)) = (opened (operation_rows t))(spec_seq t + 1 \<mapsto> jo)"
  by (simp_all add: spec_save_def)

lemma rows_spec_remove:
  "opened (rows q' (spec_remove q keys t)) =
     (if q' = q then (opened (rows q t)) |` (- set keys) else opened (rows q' t))"
  by (simp add: spec_remove_def)

lemma rows_spec_serial [simp]: "rows q (spec_serial_step k t) = rows q t"
  by (cases q) (simp_all add: spec_serial_step_def)

lemma queue_table_all: "(\<forall>q. P q) \<longleftrightarrow> P General \<and> P Operation"
  by (metis queue_table.exhaust)

lemma queue_inv_rows:
  "queue_inv t \<longleftrightarrow> even (next_seq t) \<and>
     (\<forall>q. \<forall>k\<in>dom (opened (rows q t)). even (unat k) = (q = General) \<and> unat k < next_seq t)"
  by (simp add: queue_inv_def queue_table_all)

lemma queue_inv_save:
  assumes "queue_inv t" and "next_seq t + 2 \<le> 2 ^ 64"
  shows "queue_inv (spec_save pid b jg jo t)"
proof -
  have old: "even (unat k) = (q = General) \<and> unat k < next_seq t + 2"
    if "opened (rows q t) k = Some y" for q k y
  proof -
    have "k \<in> dom (opened (rows q t))" using that by blast
    then have "even (unat k) = (q = General) \<and> unat k < next_seq t"
      using assms(1) unfolding queue_inv_rows by blast
    then show ?thesis by simp
  qed
  have "even (next_seq t)" using assms(1) by (simp add: queue_inv_def)
  then show ?thesis
    using old[of General] old[of Operation] spec_seq_unat[OF assms(2)]
    unfolding queue_inv_def next_seq_save[OF assms(2)]
    by (auto simp: spec_save_def)
qed

lemma queue_inv_remove [simp]: "queue_inv t \<Longrightarrow> queue_inv (spec_remove q keys t)"
  by (auto simp: queue_inv_rows rows_spec_remove split: if_splits)

lemma queue_inv_serial [simp]: "queue_inv t \<Longrightarrow> queue_inv (spec_serial_step k t)"
  by (simp add: queue_inv_rows)

lemma queue_inv_effect:
  assumes "queue_inv t" and "next_seq t + 2 \<le> 2 ^ 64"
  shows "queue_inv (effect L c t)" and "next_seq (effect L c t) \<le> next_seq t + 2"
    and "next_seq t \<le> next_seq (effect L c t)"
  using assms queue_inv_save[OF assms] next_seq_save[OF assms(2)]
  by (cases c; auto split: sum.splits)+

lemma atomic_step_cases:
  "atomic_step L h c x t t' \<Longrightarrow> t' = t \<or> t' = effect L c t"
  by (auto simp: atomic_step_def split: if_splits)

lemma queue_inv_step:
  assumes "atomic_step L h c x t t'" and "queue_inv t" and "next_seq t + 2 \<le> 2 ^ 64"
  shows "queue_inv t' \<and> next_seq t' \<le> next_seq t + 2 \<and> next_seq t \<le> next_seq t'"
  using atomic_step_cases[OF assms(1)] queue_inv_effect[OF assms(2,3)] assms(2) by auto

lemma queue_inv_run:
  "tsteps L h cs os t t' \<Longrightarrow> queue_inv t \<Longrightarrow> next_seq t + 2 * length cs \<le> 2 ^ 64 \<Longrightarrow>
     queue_inv t' \<and> next_seq t' \<le> next_seq t + 2 * length cs \<and> next_seq t \<le> next_seq t'"
proof (induction L h cs os t t' rule: tsteps.induct)
  case (3 L h c cs x os t t')
  then obtain t1 where s: "atomic_step L h c x t t1" and r: "tsteps L h cs os t1 t'" by auto
  have q: "queue_inv t1 \<and> next_seq t1 \<le> next_seq t + 2 \<and> next_seq t \<le> next_seq t1"
    using queue_inv_step[OF s] "3.prems" by simp
  then show ?case using "3.IH"[OF r] "3.prems"(3) by simp
qed simp_all

text \<open>A key used once is never used again, even when the queues have been drained.\<close>

lemma save_fresh:
  assumes "queue_inv t" and "next_seq t + 2 \<le> 2 ^ 64"
  shows "\<forall>q. \<forall>k\<in>dom (opened (rows q t)). k < spec_seq t" and "spec_seq t < spec_seq t + 1"
  using assms spec_seq_unat[OF assms(2)] by (auto simp: queue_inv_rows word_less_nat_alt)

section \<open>What a drain takes and leaves\<close>

definition saves_only :: "('d, 'c, 't) cache_call \<Rightarrow> bool" where
  "saves_only c \<longleftrightarrow> (\<forall>q keys. c \<noteq> RemoveEntries q keys)"

lemma rows_grow:
  assumes "atomic_step L h c x t t'" and "queue_inv t" and "next_seq t + 2 \<le> 2 ^ 64" and "saves_only c"
  shows "opened (rows q t) \<subseteq>\<^sub>m opened (rows q t')" and
    "\<forall>k\<in>dom (opened (rows q t')) - dom (opened (rows q t)). next_seq t \<le> unat k"
proof -
  note u = spec_seq_unat[OF assms(3)]
  have n1: "spec_seq t \<notin> dom (opened (general_rows t))"
    using assms(2) u(1) unfolding queue_inv_def by (metis less_irrefl)
  have n2: "spec_seq t + 1 \<notin> dom (opened (operation_rows t))"
    using assms(2) u(2) unfolding queue_inv_def by (metis less_irrefl less_add_one order.strict_trans)
  note n = n1 n2
  have "opened (rows q t) \<subseteq>\<^sub>m opened (rows q (effect L c t)) \<and>
      (\<forall>k\<in>dom (opened (rows q (effect L c t))) - dom (opened (rows q t)). next_seq t \<le> unat k)"
  proof (cases c)
    case (SaveSheets ts machine pid general operation ctx)
    show ?thesis
      using n spec_seq_unat[OF assms(3)]
      by (cases q) (auto simp: SaveSheets map_le_def spec_save_def split: sum.splits)
  qed (use assms(4) in \<open>auto simp: saves_only_def\<close>)
  then show "opened (rows q t) \<subseteq>\<^sub>m opened (rows q t')"
    "\<forall>k\<in>dom (opened (rows q t')) - dom (opened (rows q t)). next_seq t \<le> unat k"
    using atomic_step_cases[OF assms(1)] by (elim disjE; simp)+
qed

lemma rows_grow_run:
  "tsteps L h cs os t t' \<Longrightarrow> queue_inv t \<Longrightarrow> next_seq t + 2 * length cs \<le> 2 ^ 64 \<Longrightarrow>
     list_all saves_only cs \<Longrightarrow> opened (rows q t) \<subseteq>\<^sub>m opened (rows q t')"
proof (induction L h cs os t t' rule: tsteps.induct)
  case (3 L h c cs x os t t')
  then obtain t1 where s: "atomic_step L h c x t t1" and r: "tsteps L h cs os t1 t'" by auto
  have q: "queue_inv t1 \<and> next_seq t1 \<le> next_seq t + 2 \<and> next_seq t \<le> next_seq t1"
    using queue_inv_step[OF s] "3.prems" by simp
  have "opened (rows q t) \<subseteq>\<^sub>m opened (rows q t1)"
    using rows_grow(1)[OF s "3.prems"(2)] "3.prems" by simp
  also have "\<dots> \<subseteq>\<^sub>m opened (rows q t')" using "3.IH"[OF r] q "3.prems" by simp
  finally (map_le_trans) show ?case .
qed simp_all

section \<open>Numbers left\<close>

text \<open>
  A call is made while there are numbers left for it: a serial number for its day, or two sequence
  numbers.  A sequence of calls is paced when this holds for each on the contents that it finds.
\<close>

fun numbers_left :: "('d, 'c, 't) libs \<Rightarrow> ('d, 'c, 't) cache_call \<Rightarrow> tables \<Rightarrow> bool" where
  "numbers_left L (NextSerial d) t \<longleftrightarrow> last_serial (strftime_ymd (lib_dates L) d) t + 2 < 2 ^ 32"
| "numbers_left L (SaveSheets _ _ _ _ _ _) t \<longleftrightarrow> next_seq t + 2 \<le> 2 ^ 64"
| "numbers_left L _ t \<longleftrightarrow> True"

fun paced :: "('d, 'c, 't) libs \<Rightarrow> ('db, 'w, 'r) trace_cache \<Rightarrow> ('db \<Rightarrow> tables) \<Rightarrow> ('d, 'c, 't) cache_call list
    \<Rightarrow> 'db \<Rightarrow> bool" where
  "paced L C view [] db \<longleftrightarrow> True"
| "paced L C view (c # cs) db \<longleftrightarrow> numbers_left L c (view db) \<and> paced L C view cs (snd (exec_call L C c db))"

lemma queue_inv_left:
  assumes "atomic_step L h c x t t'" and "queue_inv t" and "numbers_left L c t"
  shows "queue_inv t'"
proof (cases c)
  case (SaveSheets ts machine pid general operation ctx)
  then show ?thesis using queue_inv_step[OF assms(1,2)] assms(3) by simp
qed (use atomic_step_cases[OF assms(1)] assms(2) in auto)

lemma rows_grow_left:
  assumes "atomic_step L h c x t t'" and "queue_inv t" and "numbers_left L c t" and "\<forall>keys. c \<noteq> RemoveEntries q keys"
  shows "opened (rows q t) \<subseteq>\<^sub>m opened (rows q t')"
proof (cases c)
  case (SaveSheets ts machine pid general operation ctx)
  then show ?thesis using rows_grow(1)[OF assms(1,2)] assms(3) by (simp add: saves_only_def)
qed (use atomic_step_cases[OF assms(1)] assms(4) in \<open>auto simp: rows_spec_remove\<close>)

text \<open>A relation that every paced call of a kind satisfies holds between the ends of a run.\<close>

context redb_store
begin

lemma paced_run:
  assumes step: "\<And>c x t t'. allowed c \<Longrightarrow> numbers_left L c t \<Longrightarrow> atomic_step L (queues_threshold C) c x t t' \<Longrightarrow> rely t t'"
    and refl: "\<And>t. rely t t" and trans: "\<And>t t1 t2. rely t t1 \<Longrightarrow> rely t1 t2 \<Longrightarrow> rely t t2"
    and R: "cache_redb C = R"
  shows "list_all allowed cs \<Longrightarrow> paced L C view cs db \<Longrightarrow> rely (view db) (view (snd (run_calls L C cs db)))"
proof (induction cs arbitrary: db)
  case Nil
  then show ?case by (simp add: refl)
next
  case (Cons c cs)
  obtain x db1 where e: "exec_call L C c db = (x, db1)" by fastforce
  have "rely (view db) (view db1)"
    using step[OF _ _ exec_call_atomic[OF e R]] Cons.prems by simp
  moreover have "rely (view db1) (view (snd (run_calls L C cs db1)))" using Cons e by simp
  ultimately show ?case using trans e by (auto split: prod.splits)
qed

end

end
