(* ===== verification/Pattern_Match.thy ===== *)
theory Pattern_Match
  imports Gw_Prelude
begin

text \<open>
  The fragment of regular expressions that \<^verbatim>\<open>src/traceability/part_id.rs\<close> uses, anchored at
  the start of the text: bounded greedy repetitions of a character class, capturing or not, and
  the alternative "one character of a class, or the end of the text".  The matcher backtracks
  as the documented leftmost-first semantics does: longer repetitions are tried first.
\<close>

section \<open>Patterns and the backtracking matcher\<close>

datatype rx =
    Rep bool "uchar \<Rightarrow> bool" nat nat
  | Or_End "uchar \<Rightarrow> bool"

fun first_some :: "('a \<Rightarrow> 'b option) \<Rightarrow> 'a list \<Rightarrow> 'b option" where
  "first_some f [] = None"
| "first_some f (x # xs) = (case f x of None \<Rightarrow> first_some f xs | Some y \<Rightarrow> Some y)"

lemma first_some_SomeD: "first_some f xs = Some y \<Longrightarrow> \<exists>x\<in>set xs. f x = Some y"
  by (induction xs) (auto split: option.splits)

lemma first_some_None: "first_some f xs = None \<longleftrightarrow> (\<forall>x\<in>set xs. f x = None)"
  by (induction xs) (auto split: option.splits)

definition rx_capture :: "bool \<Rightarrow> str \<Rightarrow> str list \<Rightarrow> str list" where
  "rx_capture cap s cs = (if cap then s # cs else cs)"

fun rx_match :: "rx list \<Rightarrow> str \<Rightarrow> str list option" where
  "rx_match [] s = Some []"
| "rx_match (Rep cap p lo hi # rs) s =
     first_some (\<lambda>n. if n \<le> length s \<and> list_all p (take n s)
         then map_option (rx_capture cap (take n s)) (rx_match rs (drop n s)) else None)
       (rev [lo..<Suc hi])"
| "rx_match (Or_End p # rs) s =
     (case s of [] \<Rightarrow> rx_match rs [] | c # t \<Rightarrow> if p c then rx_match rs t else None)"

section \<open>The language of a pattern\<close>

text \<open>Which captures some way of matching yields, whatever the order of the attempts.\<close>

fun rx_accepts :: "rx list \<Rightarrow> str \<Rightarrow> str list \<Rightarrow> bool" where
  "rx_accepts [] s cs \<longleftrightarrow> cs = []"
| "rx_accepts (Rep cap p lo hi # rs) s cs \<longleftrightarrow>
     (\<exists>u v cs'. s = u @ v \<and> lo \<le> length u \<and> length u \<le> hi \<and> list_all p u \<and>
       rx_accepts rs v cs' \<and> cs = rx_capture cap u cs')"
| "rx_accepts (Or_End p # rs) s cs \<longleftrightarrow>
     (case s of [] \<Rightarrow> rx_accepts rs [] cs | c # t \<Rightarrow> p c \<and> rx_accepts rs t cs)"

lemma rx_match_sound: "rx_match rs s = Some cs \<Longrightarrow> rx_accepts rs s cs"
proof (induction rs s arbitrary: cs rule: rx_match.induct)
  case (2 cap p lo hi rs s)
  let ?go = "\<lambda>n. if n \<le> length s \<and> list_all p (take n s)
      then map_option (rx_capture cap (take n s)) (rx_match rs (drop n s)) else None"
  have "\<exists>n\<in>set (rev [lo..<Suc hi]). ?go n = Some cs"
    using "2.prems" by (intro first_some_SomeD) (simp only: rx_match.simps)
  then obtain n where n: "lo \<le> n" "n \<le> hi" "n \<le> length s" "list_all p (take n s)"
    and r: "map_option (rx_capture cap (take n s)) (rx_match rs (drop n s)) = Some cs"
    by (auto split: if_splits)
  then obtain cs' where cs': "rx_match rs (drop n s) = Some cs'"
    and cs: "cs = rx_capture cap (take n s) cs'" by auto
  have "rx_accepts rs (drop n s) cs'"
    by (rule "2.IH"[OF _ cs']) (use n in auto)
  then show ?case using n cs unfolding rx_accepts.simps
    by (intro exI[of _ "take n s"] exI[of _ "drop n s"] exI[of _ cs']) simp
qed (auto split: list.splits if_splits)

lemma rx_match_complete: "rx_accepts rs s cs \<Longrightarrow> rx_match rs s \<noteq> None"
proof (induction rs s arbitrary: cs rule: rx_match.induct)
  case (2 cap p lo hi rs s)
  from "2.prems" obtain u v cs' where u: "s = u @ v" "lo \<le> length u" "length u \<le> hi"
    "list_all p u" and v: "rx_accepts rs v cs'" by auto
  have "rx_match rs (drop (length u) s) \<noteq> None"
    by (rule "2.IH") (use u v in auto)
  then show ?case using u
    by (auto simp: first_some_None simp del: upt_Suc intro!: bexI[of _ "length u"])
qed (auto split: list.splits if_splits)

text \<open>Where the language determines the captures, the matcher computes them.\<close>

lemma rx_match_unique:
  assumes "rx_accepts rs s cs" and "\<And>cs'. rx_accepts rs s cs' \<Longrightarrow> cs' = cs"
  shows "rx_match rs s = Some cs"
  using rx_match_complete[OF assms(1)] assms(2) rx_match_sound by fastforce

section \<open>Spans\<close>

text \<open>A maximal run of a class is determined by what follows it.\<close>

lemma span_unique:
  assumes "list_all p u" and "v = [] \<or> \<not> p (hd v)"
  shows "takeWhile p (u @ v) = u" and "dropWhile p (u @ v) = v"
  using assms by (induction u) (cases v; auto)+

lemma span_holds: "list_all p (takeWhile p s)"
  by (auto simp: list_all_iff dest: set_takeWhileD)

lemma span_stops: "dropWhile p s = [] \<or> \<not> p (hd (dropWhile p s))"
  using hd_dropWhile[of p s] by auto

end
