(* ===== verification/Part_Id.thy ===== *)
theory Part_Id
  imports Ascii_Text Pattern_Match Calendar
begin

text \<open>
  Part identifiers, \<^verbatim>\<open>src/traceability/part_id.rs\<close>: parsing and formatting of the raw part
  reference, creation of an identifier, and validation of one read from a machine.  The
  parameters are the Unicode decimal digits \<open>nd\<close> that the class \<^verbatim>\<open>\d\<close> of the \<^verbatim>\<open>regex\<close> crate
  stands for, and the dates \<open>J\<close> of the \<^verbatim>\<open>jiff\<close> crate.
\<close>

section \<open>Unicode decimal digits\<close>

locale digit_class =
  fixes nd :: "uchar \<Rightarrow> bool"
  assumes nd_ascii: "c < 128 \<Longrightarrow> nd c \<longleftrightarrow> ascii_digit c"
begin

lemma not_nd_P: "\<not> nd 80" and not_nd_dash: "\<not> nd 45"
  by (simp_all add: nd_ascii ascii_digit_def)

end

text \<open>
  The zeros of the decimal digit blocks of Unicode (general category Nd); each is followed by
  the other nine digits of its block, the mathematical digits being five blocks in a row.
\<close>

definition nd_zeros :: "uchar list" where
  "nd_zeros = [0x30, 0x660, 0x6F0, 0x7C0, 0x966, 0x9E6, 0xA66, 0xAE6, 0xB66, 0xBE6, 0xC66, 0xCE6,
     0xD66, 0xDE6, 0xE50, 0xED0, 0xF20, 0x1040, 0x1090, 0x17E0, 0x1810, 0x1946, 0x19D0, 0x1A80,
     0x1A90, 0x1B50, 0x1BB0, 0x1C40, 0x1C50, 0xA620, 0xA8D0, 0xA900, 0xA9D0, 0xA9F0, 0xAA50,
     0xABF0, 0xFF10, 0x104A0, 0x10D30, 0x11066, 0x110F0, 0x11136, 0x111D0, 0x112F0, 0x11450,
     0x114D0, 0x11650, 0x116C0, 0x11730, 0x118E0, 0x11950, 0x11C50, 0x11D50, 0x11DA0, 0x11F50,
     0x16A60, 0x16AC0, 0x16B50, 0x1D7CE, 0x1D7D8, 0x1D7E2, 0x1D7EC, 0x1D7F6, 0x1E140, 0x1E2F0,
     0x1E4F0, 0x1E950, 0x1FBF0]"

definition unicode_nd :: "uchar \<Rightarrow> bool" where
  "unicode_nd c \<longleftrightarrow> list_ex (\<lambda>z. z \<le> c \<and> c \<le> z + 9) nd_zeros"

interpretation uni: digit_class unicode_nd
  by unfold_locales (simp add: unicode_nd_def nd_zeros_def ascii_digit_def)

section \<open>The part reference\<close>

datatype part_id_error =
    PartReference str
  | SerialTooBig u32
  | InvalidYearAndDay jiff_error
  | InvalidSerial str

record part_reference =
  family :: str
  incremental :: str
  ref_size :: str

definition ascii_letter :: "uchar \<Rightarrow> bool" where
  "ascii_letter c \<longleftrightarrow> ascii_upper c \<or> ascii_lower c"

text \<open>\<^verbatim>\<open>^P?(\d{1,2})-(\d{3,4})[A-Za-z]{2,4}(\d{2,3})(?:\D|$)\<close>\<close>

definition part_ref_pattern :: "(uchar \<Rightarrow> bool) \<Rightarrow> rx list" where
  "part_ref_pattern nd =
     [Rep False (\<lambda>c. c = 80) 0 1, Rep True nd 1 2, Rep False (\<lambda>c. c = 45) 1 1, Rep True nd 3 4,
      Rep False ascii_letter 2 4, Rep True nd 2 3, Or_End (\<lambda>c. \<not> nd c)]"

definition part_reference_try_from :: "(uchar \<Rightarrow> bool) \<Rightarrow> str \<Rightarrow> part_id_error + part_reference" where
  "part_reference_try_from nd value =
     (case rx_match (part_ref_pattern nd) value of
        Some [f, i, s] \<Rightarrow> Inr \<lparr>family = f, incremental = i, ref_size = s\<rparr>
      | _ \<Rightarrow> Inl (PartReference value))"

definition part_reference_fmt :: "part_reference \<Rightarrow> str" where
  "part_reference_fmt r =
     pad_zero 2 (family r) @ pad_zero 4 (incremental r) @ pad_zero 3 (ref_size r)"

section \<open>Creation and validation\<close>

definition create_part_identifier ::
    "(uchar \<Rightarrow> bool) \<Rightarrow> 'd dates \<Rightarrow> str \<Rightarrow> ascii_text \<Rightarrow> ascii_text \<Rightarrow> 'd \<Rightarrow> u32 \<Rightarrow> part_id_error + str"
where
  "create_part_identifier nd J part_ref batch line_id today serial =
     (if serial > 99999 then Inl (SerialTooBig serial)
      else case part_reference_try_from nd part_ref of
        Inl e \<Rightarrow> Inl e
      | Inr r \<Rightarrow> Inr (part_reference_fmt r @ ascii_fmt batch @ ascii_fmt line_id
          @ strftime_yj J today @ pad_zero 5 (show_dec (unat serial))))"

definition validate_part_identifier :: "'d dates \<Rightarrow> ascii_text \<Rightarrow> part_id_error + unit" where
  "validate_part_identifier J part_id =
     (let part_ref = take 9 (as_array part_id) in
      if \<not> list_all is_ascii_digit part_ref then Inl (PartReference (map unat part_ref))
      else case strptime_yj J (take 5 (drop 13 (as_str part_id))) of
        Inl e \<Rightarrow> Inl (InvalidYearAndDay e)
      | Inr _ \<Rightarrow>
        (let serial = drop 18 (as_array part_id) in
         if \<not> list_all is_ascii_digit serial then Inl (InvalidSerial (map unat serial))
         else Inr ()))"

section \<open>What the pattern accepts\<close>

definition part_ref_shape :: "(uchar \<Rightarrow> bool) \<Rightarrow> str \<Rightarrow> part_reference \<Rightarrow> bool" where
  "part_ref_shape nd s r \<longleftrightarrow>
     (\<exists>prefix joint rest. s = prefix @ family r @ [45] @ incremental r @ joint @ ref_size r @ rest \<and>
       (prefix = [] \<or> prefix = [80]) \<and>
       1 \<le> length (family r) \<and> length (family r) \<le> 2 \<and> list_all nd (family r) \<and>
       3 \<le> length (incremental r) \<and> length (incremental r) \<le> 4 \<and> list_all nd (incremental r) \<and>
       2 \<le> length joint \<and> length joint \<le> 4 \<and> list_all ascii_letter joint \<and>
       2 \<le> length (ref_size r) \<and> length (ref_size r) \<le> 3 \<and> list_all nd (ref_size r) \<and>
       (rest = [] \<or> \<not> nd (hd rest)))"

lemma part_ref_shapeE:
  assumes "part_ref_shape nd s r"
  obtains prefix joint rest where
    "s = prefix @ family r @ [45] @ incremental r @ joint @ ref_size r @ rest"
    "prefix = [] \<or> prefix = [80]"
    "1 \<le> length (family r)" "length (family r) \<le> 2" "list_all nd (family r)"
    "3 \<le> length (incremental r)" "length (incremental r) \<le> 4" "list_all nd (incremental r)"
    "2 \<le> length joint" "length joint \<le> 4" "list_all ascii_letter joint"
    "2 \<le> length (ref_size r)" "length (ref_size r) \<le> 3" "list_all nd (ref_size r)"
    "rest = [] \<or> \<not> nd (hd rest)"
  by (insert assms, unfold part_ref_shape_def, elim exE conjE, (rule that; assumption))

definition strip_P :: "str \<Rightarrow> str" where
  "strip_P s = (if s \<noteq> [] \<and> hd s = 80 then tl s else s)"

lemma length_1_list_all: "length u = Suc 0 \<Longrightarrow> list_all (\<lambda>c. c = x) u \<Longrightarrow> u = [x]"
  by (cases u) auto

lemma at_most_one: "length u \<le> 1 \<Longrightarrow> list_all (\<lambda>c. c = x) u \<Longrightarrow> u = [] \<or> u = [x]"
  by (cases u) auto

lemma rx_accepts_RepE:
  assumes "rx_accepts (Rep cap p lo hi # rs) s cs"
  obtains u v cs' where "s = u @ v" "lo \<le> length u" "length u \<le> hi" "list_all p u"
    "rx_accepts rs v cs'" "cs = rx_capture cap u cs'"
  by (insert assms, unfold rx_accepts.simps, elim exE conjE, (rule that; assumption))

lemma accepts_shapeD:
  assumes "rx_accepts (part_ref_pattern nd) s cs"
  shows "\<exists>r. part_ref_shape nd s r \<and> cs = [family r, incremental r, ref_size r]"
proof -
  note a = assms[unfolded part_ref_pattern_def]
  obtain pre s1 c1 where 1: "s = pre @ s1" "length pre \<le> 1" "list_all (\<lambda>c. c = 80) pre"
    and a1: "rx_accepts [Rep True nd 1 2, Rep False (\<lambda>c. c = 45) 1 1, Rep True nd 3 4,
      Rep False ascii_letter 2 4, Rep True nd 2 3, Or_End (\<lambda>c. \<not> nd c)] s1 c1"
    and c1: "cs = rx_capture False pre c1" by (rule rx_accepts_RepE[OF a])
  obtain f s2 c2 where 2: "s1 = f @ s2" "1 \<le> length f" "length f \<le> 2" "list_all nd f"
    and a2: "rx_accepts [Rep False (\<lambda>c. c = 45) 1 1, Rep True nd 3 4,
      Rep False ascii_letter 2 4, Rep True nd 2 3, Or_End (\<lambda>c. \<not> nd c)] s2 c2"
    and c2: "c1 = rx_capture True f c2" by (rule rx_accepts_RepE[OF a1])
  obtain dash s3 c3 where 3: "s2 = dash @ s3" "1 \<le> length dash" "length dash \<le> 1"
    "list_all (\<lambda>c. c = 45) dash"
    and a3: "rx_accepts [Rep True nd 3 4, Rep False ascii_letter 2 4, Rep True nd 2 3,
      Or_End (\<lambda>c. \<not> nd c)] s3 c3"
    and c3: "c2 = rx_capture False dash c3" by (rule rx_accepts_RepE[OF a2])
  obtain i s4 c4 where 4: "s3 = i @ s4" "3 \<le> length i" "length i \<le> 4" "list_all nd i"
    and a4: "rx_accepts [Rep False ascii_letter 2 4, Rep True nd 2 3, Or_End (\<lambda>c. \<not> nd c)] s4 c4"
    and c4: "c3 = rx_capture True i c4" by (rule rx_accepts_RepE[OF a3])
  obtain j s5 c5 where 5: "s4 = j @ s5" "2 \<le> length j" "length j \<le> 4" "list_all ascii_letter j"
    and a5: "rx_accepts [Rep True nd 2 3, Or_End (\<lambda>c. \<not> nd c)] s5 c5"
    and c5: "c4 = rx_capture False j c5" by (rule rx_accepts_RepE[OF a4])
  obtain z s6 c6 where 6: "s5 = z @ s6" "2 \<le> length z" "length z \<le> 3" "list_all nd z"
    and a6: "rx_accepts [Or_End (\<lambda>c. \<not> nd c)] s6 c6"
    and c6: "c5 = rx_capture True z c6" by (rule rx_accepts_RepE[OF a5])
  have rest: "s6 = [] \<or> \<not> nd (hd s6)" and c7: "c6 = []"
    using a6 by (auto split: list.splits)
  have dash: "dash = [45]" using 3(2-4) at_most_one[of dash 45] by auto
  let ?r = "\<lparr>family = f, incremental = i, ref_size = z\<rparr>"
  have "part_ref_shape nd s ?r"
    unfolding part_ref_shape_def part_reference.select_convs
    by (rule exI[of _ pre], rule exI[of _ j], rule exI[of _ s6], intro conjI)
      (simp_all only: 1(1) 2 3(1) 4 5 6 dash rest at_most_one[OF 1(2,3)] append_assoc)
  moreover have "cs = [f, i, z]" by (simp add: c1 c2 c3 c4 c5 c6 c7 rx_capture_def)
  ultimately show ?thesis by (intro exI[of _ ?r]) simp
qed

lemma rx_accepts_RepI:
  "rx_accepts rs v cs \<Longrightarrow> lo \<le> length u \<Longrightarrow> length u \<le> hi \<Longrightarrow> list_all p u \<Longrightarrow>
     rx_accepts (Rep cap p lo hi # rs) (u @ v) (rx_capture cap u cs)"
  by auto

lemma shape_accepts:
  assumes "part_ref_shape nd s r"
  shows "rx_accepts (part_ref_pattern nd) s [family r, incremental r, ref_size r]"
proof -
  obtain pre joint rest where s: "s = pre @ family r @ [45] @ incremental r @ joint @ ref_size r @ rest"
    and pre: "pre = [] \<or> pre = [80]"
    and f: "1 \<le> length (family r)" "length (family r) \<le> 2" "list_all nd (family r)"
    and i: "3 \<le> length (incremental r)" "length (incremental r) \<le> 4" "list_all nd (incremental r)"
    and j: "2 \<le> length joint" "length joint \<le> 4" "list_all ascii_letter joint"
    and z: "2 \<le> length (ref_size r)" "length (ref_size r) \<le> 3" "list_all nd (ref_size r)"
    and rest: "rest = [] \<or> \<not> nd (hd rest)"
    by (rule part_ref_shapeE[OF assms])
  have "rx_accepts [Or_End (\<lambda>c. \<not> nd c)] rest []" using rest by (cases rest) auto
  note a = rx_accepts_RepI[OF this z, where cap = True]
  note a = rx_accepts_RepI[OF a j, where cap = False]
  note a = rx_accepts_RepI[OF a i, where cap = True]
  have "rx_accepts (Rep False (\<lambda>c. c = 45) 1 1 # rs) ([45] @ v) (rx_capture False [45] cs)"
    if "rx_accepts rs v cs" for rs v cs
    using that by (rule rx_accepts_RepI) simp_all
  note a = this[OF a]
  note a = rx_accepts_RepI[OF a f, where cap = True]
  have "rx_accepts (Rep False (\<lambda>c. c = 80) 0 1 # rs) (pre @ v) (rx_capture False pre cs)"
    if "rx_accepts rs v cs" for rs v cs
    using that by (rule rx_accepts_RepI) (use pre in auto)
  note a = this[OF a]
  then show ?thesis by (simp only: s part_ref_pattern_def rx_capture_def if_True if_False)
qed

context digit_class
begin

lemma letter_not_nd: "ascii_letter c \<Longrightarrow> \<not> nd c"
  using nd_ascii[of c]
  by (auto simp: ascii_letter_def ascii_upper_def ascii_lower_def ascii_digit_def)

text \<open>The captured pieces are maximal runs, so a string has at most one shape.\<close>

lemma shape_spans:
  assumes "part_ref_shape nd s r"
  defines "t \<equiv> tl (dropWhile nd (strip_P s))"
  shows "family r = takeWhile nd (strip_P s)" and "incremental r = takeWhile nd t"
    and "ref_size r = takeWhile nd (dropWhile ascii_letter (dropWhile nd t))"
proof -
  obtain pre joint rest where
    s: "s = pre @ family r @ [45] @ incremental r @ joint @ ref_size r @ rest"
    and pre: "pre = [] \<or> pre = [80]"
    and f: "1 \<le> length (family r)" "list_all nd (family r)" and i: "list_all nd (incremental r)"
    and j: "2 \<le> length joint" "list_all ascii_letter joint"
    and z: "2 \<le> length (ref_size r)" "list_all nd (ref_size r)" and rest: "rest = [] \<or> \<not> nd (hd rest)"
    by (rule part_ref_shapeE[OF assms(1)])
  have "hd (family r) \<noteq> 80" using f not_nd_P by (cases "family r") auto
  then have sp: "strip_P s = family r @ [45] @ incremental r @ joint @ ref_size r @ rest"
    using pre f(1) by (cases "family r") (auto simp: s strip_P_def)
  have 1: "[45] @ incremental r @ joint @ ref_size r @ rest = [] \<or>
      \<not> nd (hd ([45] @ incremental r @ joint @ ref_size r @ rest))"
    using not_nd_dash by simp
  show "family r = takeWhile nd (strip_P s)" unfolding sp by (rule span_unique(1)[OF f(2) 1, symmetric])
  have t: "t = incremental r @ joint @ ref_size r @ rest"
    unfolding t_def sp span_unique(2)[OF f(2) 1] by simp
  have 2: "joint @ ref_size r @ rest = [] \<or> \<not> nd (hd (joint @ ref_size r @ rest))"
    using j letter_not_nd by (cases joint) auto
  show "incremental r = takeWhile nd t" unfolding t by (rule span_unique(1)[OF i 2, symmetric])
  have "ref_size r @ rest = [] \<or> \<not> ascii_letter (hd (ref_size r @ rest))"
    using z letter_not_nd by (cases "ref_size r") auto
  then have "dropWhile ascii_letter (dropWhile nd t) = ref_size r @ rest"
    unfolding t span_unique(2)[OF i 2] by (rule span_unique(2)[OF j(2)])
  then show "ref_size r = takeWhile nd (dropWhile ascii_letter (dropWhile nd t))"
    using span_unique(1)[OF z(2) rest] by simp
qed

lemma shape_unique: "part_ref_shape nd s r \<Longrightarrow> part_ref_shape nd s r' \<Longrightarrow> r = r'"
  using shape_spans[of s r] shape_spans[of s r'] by (intro part_reference.equality) simp_all

lemma try_from_shape:
  "part_reference_try_from nd s = Inr r \<longleftrightarrow> part_ref_shape nd s r"
proof
  assume "part_ref_shape nd s r"
  then have "rx_match (part_ref_pattern nd) s = Some [family r, incremental r, ref_size r]"
    using shape_accepts accepts_shapeD shape_unique by (intro rx_match_unique) blast+
  then show "part_reference_try_from nd s = Inr r" by (simp add: part_reference_try_from_def)
next
  assume a: "part_reference_try_from nd s = Inr r"
  then obtain cs where cs: "rx_match (part_ref_pattern nd) s = Some cs"
    by (auto simp: part_reference_try_from_def split: option.splits)
  then obtain r' where "part_ref_shape nd s r'" "cs = [family r', incremental r', ref_size r']"
    using rx_match_sound accepts_shapeD by blast
  moreover from this cs a have "r = r'" by (auto simp: part_reference_try_from_def)
  ultimately show "part_ref_shape nd s r" by simp
qed

end

lemma try_from_Inr_shape: "part_reference_try_from nd s = Inr r \<Longrightarrow> part_ref_shape nd s r"
proof -
  assume a: "part_reference_try_from nd s = Inr r"
  then obtain cs where cs: "rx_match (part_ref_pattern nd) s = Some cs"
    by (auto simp: part_reference_try_from_def split: option.splits)
  then obtain r' where r': "part_ref_shape nd s r'" "cs = [family r', incremental r', ref_size r']"
    using rx_match_sound accepts_shapeD by blast
  with cs a have "r = r'" by (auto simp: part_reference_try_from_def)
  with r' show "part_ref_shape nd s r" by simp
qed

lemma try_from_Inl: "part_reference_try_from nd s = Inl e \<Longrightarrow> e = PartReference s"
  by (auto simp: part_reference_try_from_def split: option.splits list.splits)

lemma part_reference_fmt_length: "part_ref_shape nd s r \<Longrightarrow> length (part_reference_fmt r) = 9"
  by (erule part_ref_shapeE) (simp add: part_reference_fmt_def length_pad_zero)

lemma part_reference_fmt_nd:
  assumes "part_ref_shape nd s r" and "nd 48"
  shows "list_all nd (part_reference_fmt r)"
  using assms(1)
  by (rule part_ref_shapeE) (use assms(2) in \<open>auto simp: part_reference_fmt_def pad_zero_def list_all_iff\<close>)

lemma part_reference_fmt_chars:
  assumes "part_ref_shape nd s r" and "\<forall>c\<in>set s. c < 128"
  shows "\<forall>c\<in>set (part_reference_fmt r). c < 128"
  using assms(1)
  by (rule part_ref_shapeE) (use assms(2) in \<open>auto simp: part_reference_fmt_def pad_zero_def\<close>)

section \<open>The layout of a created identifier\<close>

definition serial_field :: "u32 \<Rightarrow> str" where
  "serial_field serial = pad_zero 5 (show_dec (unat serial))"

lemma serial_small:
  fixes serial :: u32
  assumes "\<not> serial > 99999"
  shows "unat serial < 10 ^ 5"
proof -
  have "unat serial \<le> unat (99999 :: u32)" using assms by (simp only: not_less word_le_nat_alt)
  also have "unat (99999 :: u32) < 10 ^ 5" by simp
  finally show ?thesis .
qed

lemma serial_field_length: "\<not> (serial > (99999 :: u32)) \<Longrightarrow> length (serial_field serial) = 5"
  unfolding serial_field_def by (rule pad_show_length[OF _ serial_small]) simp_all

lemma serial_field_digits: "list_all ascii_digit (serial_field serial)"
  unfolding serial_field_def by (rule pad_show_digits)

lemma create_InrD:
  assumes "create_part_identifier nd J part_ref batch line_id today serial = Inr s"
  obtains r where "part_ref_shape nd part_ref r" "\<not> serial > 99999"
    "s = part_reference_fmt r @ as_str batch @ as_str line_id @ strftime_yj J today @ serial_field serial"
proof -
  have ns: "\<not> serial > 99999" using assms by (auto simp: create_part_identifier_def)
  then obtain r where r: "part_reference_try_from nd part_ref = Inr r"
    using assms by (auto simp: create_part_identifier_def split: sum.splits)
  show ?thesis
    by (rule that[of r])
      (use assms r ns try_from_Inr_shape[OF r] in
        \<open>simp_all add: create_part_identifier_def serial_field_def ascii_fmt_def\<close>)
qed

context calendar
begin

lemma create_slices:
  assumes "create_part_identifier nd J part_ref batch line_id today serial = Inr s"
    and "ascii_wf 2 batch" and "ascii_wf 2 line_id" and "valid today"
  shows "length s = 23"
    and "\<exists>r. part_ref_shape nd part_ref r \<and> take 9 s = part_reference_fmt r"
    and "take 2 (drop 9 s) = as_str batch" and "take 2 (drop 11 s) = as_str line_id"
    and "take 5 (drop 13 s) = strftime_yj J today" and "drop 18 s = serial_field serial"
proof -
  obtain r where r: "part_ref_shape nd part_ref r" "\<not> serial > 99999" and
    s: "s = part_reference_fmt r @ as_str batch @ as_str line_id @ strftime_yj J today @ serial_field serial"
    by (rule create_InrD[OF assms(1)])
  have l: "length (part_reference_fmt r) = 9" "length (as_str batch) = 2" "length (as_str line_id) = 2"
    "length (strftime_yj J today) = 5" "length (serial_field serial) = 5"
    using part_reference_fmt_length[OF r(1)] assms(2-4) serial_field_length[OF r(2)]
    by (simp_all add: ascii_wf_length yj_length)
  show "length s = 23" "take 2 (drop 9 s) = as_str batch" "take 2 (drop 11 s) = as_str line_id"
    "take 5 (drop 13 s) = strftime_yj J today" "drop 18 s = serial_field serial"
    using l by (simp_all add: s)
  show "\<exists>r. part_ref_shape nd part_ref r \<and> take 9 s = part_reference_fmt r"
    using l r by (auto simp: s)
qed

end

section \<open>Identifiers the gateway creates are the ones it accepts\<close>

lemma is_ascii_digit_of_nat: "c < 256 \<Longrightarrow> is_ascii_digit (of_nat c) \<longleftrightarrow> ascii_digit c"
  by (simp add: is_ascii_digit_def unat_of_nat take_bit_nat_eq_self)

lemma list_all_digit_of_nat:
  "list_all ascii_digit s \<Longrightarrow> list_all is_ascii_digit (map of_nat s)"
  by (auto simp: list_all_iff is_ascii_digit_of_nat ascii_digit_def)

lemma created_chars:
  assumes "digit_class nd" and "calendar J valid" and "valid today"
    and "ascii_wf 2 batch" and "ascii_wf 2 line_id" and "\<forall>c\<in>set part_ref. c < 128"
    and "create_part_identifier nd J part_ref batch line_id today serial = Inr s"
  shows "ascii_chars s" and "list_all ascii_digit (take 9 s)"
proof -
  obtain r where r: "part_ref_shape nd part_ref r" "\<not> serial > 99999" and
    s: "s = part_reference_fmt r @ as_str batch @ as_str line_id @ strftime_yj J today @ serial_field serial"
    by (rule create_InrD[OF assms(7)])
  have "nd 48" by (simp add: digit_class.nd_ascii[OF assms(1)] ascii_digit_def)
  then have d: "list_all ascii_digit (part_reference_fmt r)"
    using part_reference_fmt_nd[OF r(1)] part_reference_fmt_chars[OF r(1) assms(6)]
      digit_class.nd_ascii[OF assms(1)] by (auto simp: list_all_iff)
  show "ascii_chars s"
    unfolding s ascii_chars_def list_all_append
    using d calendar.yj_digits[OF assms(2,3)] serial_field_digits ascii_wf_chars[OF assms(4)]
      ascii_wf_chars[OF assms(5)]
    by (auto simp: list_all_iff)
  show "list_all ascii_digit (take 9 s)"
    using d part_reference_fmt_length[OF r(1)] by (simp add: s)
qed

lemma created_parses:
  assumes "digit_class nd" and "calendar J valid" and "valid today"
    and "ascii_wf 2 batch" and "ascii_wf 2 line_id" and "\<forall>c\<in>set part_ref. c < 128"
    and "create_part_identifier nd J part_ref batch line_id today serial = Inr s"
  shows "from_str 23 s = Inr (AsciiDigitsOrUpper (map of_nat s))"
    and "as_str (AsciiDigitsOrUpper (map of_nat s)) = s"
    and "validate_part_identifier J (AsciiDigitsOrUpper (map of_nat s)) = Inr ()"
proof -
  let ?a = "AsciiDigitsOrUpper (map of_nat s)"
  note sl = calendar.create_slices[OF assms(2,7,4,5,3)]
  note ch = created_chars[OF assms]
  show "from_str 23 s = Inr ?a" using ch(1) sl(1) by (rule from_str_ascii_chars)
  show as: "as_str ?a = s" using ascii_chars_unat[OF ch(1)] by (simp add: as_str_def)
  obtain d where "strptime_yj J (strftime_yj J today) = Inr d"
    using calendar.yj_parses[OF assms(2,3)] by blast
  then show "validate_part_identifier J ?a = Inr ()"
    using list_all_digit_of_nat[OF ch(2)] list_all_digit_of_nat[OF serial_field_digits, of serial] sl
    by (simp add: validate_part_identifier_def as Let_def take_map drop_map)
qed

lemma created_identifiers_differ:
  assumes "calendar J valid" and "valid d" and "valid d'"
    and "ascii_wf 2 batch" and "ascii_wf 2 line_id" and "ascii_wf 2 batch'" and "ascii_wf 2 line_id'"
    and "create_part_identifier nd J part_ref batch line_id d serial = Inr s"
    and "create_part_identifier nd J part_ref' batch' line_id' d' serial' = Inr s'"
    and "serial \<noteq> serial' \<or> batch \<noteq> batch' \<or> line_id \<noteq> line_id' \<or>
      strftime_yj J d \<noteq> strftime_yj J d'"
  shows "s \<noteq> s'"
proof
  assume s: "s = s'"
  note a = calendar.create_slices[OF assms(1,8,4,5,2)]
  note b = calendar.create_slices[OF assms(1,9,6,7,3)]
  have "unat serial = unat serial'"
    using a(6) b(6) s pad_show_inj[of 5 "unat serial" "unat serial'"] by (simp add: serial_field_def)
  then have "serial = serial'" by (simp add: word_unat_eq_iff)
  moreover have "batch = batch'" "line_id = line_id'" using a(3,4) b(3,4) s as_str_inject by metis+
  moreover have "strftime_yj J d = strftime_yj J d'" using a(5) b(5) s by simp
  ultimately show False using assms(10) by blast
qed

text \<open>A concrete request, that of the integration test, for the witnesses below.\<close>

lemma example_try_from:
  "part_reference_try_from unicode_nd (lit ''1-498GR13'')
     = Inr \<lparr>family = lit ''1'', incremental = lit ''498'', ref_size = lit ''13''\<rparr>"
  by (simp add: part_reference_try_from_def part_ref_pattern_def rx_capture_def uni.nd_ascii
      ascii_digit_def ascii_letter_def ascii_upper_def ascii_lower_def upt_rec)

definition example_day :: civil where
  "example_day = \<lparr>cyear = 3044, cmonth = 11, cday = 12\<rparr>"

lemma example_day_ok: "civil_ok example_day"
  by (simp add: example_day_def civil_ok_def month_lengths_def)

lemma example_day_yj: "strftime_yj gregorian example_day = lit ''44317''"
  by (simp add: gregorian_simps example_day_def ordinal_def month_lengths_def leap_def show_dec_unfold
      pad_zero_def)

lemma example_serial: "pad_zero 5 (show_dec (unat (1 :: u32))) = lit ''00001''"
  by (simp add: show_dec_unfold pad_zero_def)

lemma example_ref:
  "part_reference_fmt \<lparr>family = lit ''1'', incremental = lit ''498'', ref_size = lit ''13''\<rparr>
     = lit ''010498013''"
  unfolding part_reference_fmt_def by (simp add: pad_zero_def)

lemma example_id:
  "create_part_identifier unicode_nd gregorian (lit ''1-498GR13'')
     (AsciiDigitsOrUpper [65, 65]) (AsciiDigitsOrUpper [65, 66]) example_day 1
     = Inr (lit ''010498013AAAB4431700001'')"
  unfolding create_part_identifier_def example_try_from sum.case example_day_yj example_serial example_ref
  by (simp add: ascii_fmt_def as_str_def)

lemma example_batch: "ascii_wf 2 (AsciiDigitsOrUpper [65, 65])" "ascii_wf 2 (AsciiDigitsOrUpper [65, 66])"
  by (simp_all add: ascii_wf_def ascii_byte_def is_ascii_digit_def is_ascii_uppercase_def ascii_upper_def)



text \<open>A created identifier has 23 characters laid out as documented: part reference (9),
  batch (2), line (2), year and day (5), serial number (5), the last field being the decimal
  reading of the serial.\<close>

theorem create_layout:
  assumes "calendar J valid" and "valid today" and "ascii_wf 2 batch" and "ascii_wf 2 line_id"
    and "create_part_identifier nd J part_ref batch line_id today serial = Inr s"
  shows "length s = 23 \<and> (\<exists>r. part_ref_shape nd part_ref r \<and> take 9 s = part_reference_fmt r) \<and>
     take 2 (drop 9 s) = as_str batch \<and> take 2 (drop 11 s) = as_str line_id \<and>
     take 5 (drop 13 s) = strftime_yj J today \<and> read_dec (drop 18 s) = unat serial"
  using calendar.create_slices[OF assms(1,5,3,4,2)]
  by (simp add: serial_field_def read_pad_zero read_show_dec)

theorem create_layout_witness:
  "read_dec (drop 18 (lit ''010498013AAAB4431700001'')) = 1 \<and>
   take 5 (drop 13 (lit ''010498013AAAB4431700001'')) = lit ''44317''"
  using create_layout[OF greg.calendar_axioms example_day_ok example_batch example_id] example_day_yj
  by simp

text \<open>C28. An identifier created from an ASCII part reference is accepted by the other requests:
  it parses as 23 ASCII digits and uppercase letters, passes validation, and is unchanged by
  the parse.\<close>

theorem created_identifier_accepted:
  assumes "digit_class nd" and "calendar J valid" and "valid today"
    and "ascii_wf 2 batch" and "ascii_wf 2 line_id" and "\<forall>c\<in>set part_ref. c < 128"
    and "create_part_identifier nd J part_ref batch line_id today serial = Inr s"
  shows "\<exists>a. from_str 23 s = Inr a \<and> as_str a = s \<and> validate_part_identifier J a = Inr ()"
  using created_parses[OF assms] by blast

theorem created_identifier_accepted_witness:
  "\<exists>a. from_str 23 (lit ''010498013AAAB4431700001'') = Inr a \<and>
     as_str a = lit ''010498013AAAB4431700001'' \<and> validate_part_identifier gregorian a = Inr ()"
  by (rule created_identifier_accepted[OF uni.digit_class_axioms greg.calendar_axioms example_day_ok
        example_batch _ example_id]) simp

text \<open>C29. Identifiers created with different serial numbers, batches, lines or year-day fields are
  different: no two successful creations with distinct serials on the same day collide.\<close>

theorem created_identifiers_distinct:
  assumes "calendar J valid" and "valid d" and "valid d'"
    and "ascii_wf 2 batch" and "ascii_wf 2 line_id" and "ascii_wf 2 batch'" and "ascii_wf 2 line_id'"
    and "create_part_identifier nd J part_ref batch line_id d serial = Inr s"
    and "create_part_identifier nd J part_ref' batch' line_id' d' serial' = Inr s'"
    and "serial \<noteq> serial' \<or> batch \<noteq> batch' \<or> line_id \<noteq> line_id' \<or>
      strftime_yj J d \<noteq> strftime_yj J d'"
  shows "s \<noteq> s'"
  using created_identifiers_differ[OF assms(1-9)] assms(10) by blast

lemma example_id_2:
  "create_part_identifier unicode_nd gregorian (lit ''1-498GR13'')
     (AsciiDigitsOrUpper [65, 65]) (AsciiDigitsOrUpper [65, 66]) example_day 2
     = Inr (lit ''010498013AAAB4431700002'')"
  unfolding create_part_identifier_def example_try_from sum.case example_day_yj example_ref
  by (simp add: ascii_fmt_def as_str_def show_dec_unfold pad_zero_def)

theorem created_identifiers_distinct_witness:
  "lit ''010498013AAAB4431700001'' \<noteq> lit ''010498013AAAB4431700002''"
  by (rule created_identifiers_distinct[OF greg.calendar_axioms example_day_ok example_day_ok
      example_batch example_batch example_id example_id_2]) simp



text \<open>Validation accepts exactly the identifiers whose first nine and last five characters are
  digits and whose characters 14 to 18 read as a year and day of the year.\<close>

theorem validate_accepts_iff:
  "validate_part_identifier J a = Inr () \<longleftrightarrow>
     list_all is_ascii_digit (take 9 (as_array a)) \<and>
     (\<exists>d. strptime_yj J (take 5 (drop 13 (as_str a))) = Inr d) \<and>
     list_all is_ascii_digit (drop 18 (as_array a))"
  by (auto simp: validate_part_identifier_def Let_def split: sum.splits)


end
