(* ===== verification/Cache_Claims.thy ===== *)
theory Cache_Claims
  imports Cache_Runs Part_Id
begin

text \<open>
  The properties of the traceability cache, for every store that satisfies the laws of \<open>Redb\<close>,
  and their instances on the in-memory store.
\<close>

section \<open>Cached part sheets and rows along a run\<close>

definition saves_part :: "str \<Rightarrow> ('d, 'c, 't) cache_call \<Rightarrow> bool" where
  "saves_part k c \<longleftrightarrow> (\<exists>ts machine pid general operation ctx.
     c = SaveSheets ts machine pid general operation ctx \<and> as_str pid = k)"

lemma sheets_step:
  assumes "atomic_step L h c x t t'" and "\<not> saves_part k c"
  shows "opened (sheets t') k = opened (sheets t) k"
proof -
  have "opened (sheets (effect L c t)) k = opened (sheets t) k"
    using assms(2) by (cases c)
      (auto simp: saves_part_def spec_save_def spec_serial_step_def spec_remove_def set_rows_def
        split: sum.splits queue_table.splits)
  then show ?thesis using atomic_step_cases[OF assms(1)] by auto
qed

lemma sheets_run:
  "tsteps L h cs os t t' \<Longrightarrow> list_all (\<lambda>c. \<not> saves_part k c) cs \<Longrightarrow>
     opened (sheets t') k = opened (sheets t) k"
  by (induction L h cs os t t' rule: tsteps.induct) (auto dest: sheets_step)

definition lines_ok :: "tables \<Rightarrow> bool" where
  "lines_ok t \<longleftrightarrow> (\<forall>q k v. opened (rows q t) k = Some v \<longrightarrow> 10 \<notin> set v)"

lemma encode_sheets_lines:
  assumes "json_lines (json_lib_of (lib_row L))"
    and "encode_sheets K ua (lib_row L) ts machine pid general operation ctx = Inr (bytes, jg, jo)"
  shows "10 \<notin> set jg \<and> 10 \<notin> set jo"
  using assms(2) encode_for_db_line[OF assms(1)]
  by (auto simp: encode_sheets_def res_bind_eq_Inr of_sum_eq_Inr)

lemma lines_ok_step:
  assumes "json_lines (json_lib_of (lib_row L))" and "atomic_step L h c x t t'" and "lines_ok t"
  shows "lines_ok t'"
proof -
  have "lines_ok (effect L c t)"
  proof (cases c)
    case (SaveSheets ts machine pid general operation ctx)
    then show ?thesis
      using assms(3) encode_sheets_lines[OF assms(1), of "lib_codec L" "lib_ua L" ts machine pid general operation ctx]
      unfolding lines_ok_def queue_table_all
      by (auto simp: spec_save_def split: sum.splits if_splits)
  next
    case (RemoveEntries q keys)
    then show ?thesis using assms(3)
      by (auto simp: lines_ok_def rows_spec_remove restrict_map_def split: if_splits)
  qed (use assms(3) in \<open>simp_all add: lines_ok_def\<close>)
  then show ?thesis using atomic_step_cases[OF assms(2)] assms(3) by auto
qed

lemma lines_ok_run:
  "tsteps L h cs os t t' \<Longrightarrow> json_lines (json_lib_of (lib_row L)) \<Longrightarrow> lines_ok t \<Longrightarrow> lines_ok t'"
  by (induction L h cs os t t' rule: tsteps.induct) (auto dest: lines_ok_step)

text \<open>Reading a text line by line, as \<^verbatim>\<open>str::lines\<close>: every line ends with a newline.\<close>

fun text_lines :: "str \<Rightarrow> str \<Rightarrow> str list" where
  "text_lines acc [] = (if acc = [] then [] else [acc])"
| "text_lines acc (c # s) = (if c = 10 then acc # text_lines [] s else text_lines (acc @ [c]) s)"

lemma text_lines_line: "10 \<notin> set v \<Longrightarrow> text_lines acc (v @ 10 # s) = (acc @ v) # text_lines [] s"
  by (induction v arbitrary: acc) auto

lemma text_lines_body:
  "\<forall>v\<in>snd ` set kvs. 10 \<notin> set v \<Longrightarrow> text_lines [] (json_lines_body kvs) = map snd kvs"
  by (induction kvs) (auto simp: json_lines_body_def text_lines_line)

lemma batch_rows_lines:
  assumes "batch_rows q t kvs" and "lines_ok t"
  shows "text_lines [] (json_lines_body kvs) = map snd kvs"
proof (rule text_lines_body)
  have d: "distinct (map fst kvs)"
    using assms(1) strict_sorted_iff by (auto simp: batch_rows_def)
  have "10 \<notin> set v" if "(k, v) \<in> set kvs" for k v
    using map_of_is_SomeI[OF d that] assms by (simp add: batch_rows_def lines_ok_def)
  then show "\<forall>v\<in>snd ` set kvs. 10 \<notin> set v" by auto
qed

lemma batch_rows_keys: "batch_rows q t kvs \<Longrightarrow> fst ` set kvs = dom (opened (rows q t))"
  by (auto simp: batch_rows_def dom_map_of_conv_image_fst[symmetric])

section \<open>An example\<close>

definition ex_ua :: ua_types where
  "ex_ua = \<lparr>is_good = (\<lambda>s. s = 0), type_id_debug = (\<lambda>_. lit ''Type'')\<rparr>"

definition ex_row :: "unit row_lib" where
  "ex_row = \<lparr>strftime_ms = (\<lambda>_. lit ''1984-12-09 04:30:00.000''), json_lib_of = compact_json\<rparr>"

definition ex_libs :: "(civil, unit, unit) libs" where
  "ex_libs = \<lparr>lib_dates = gregorian, lib_codec = le_codec, lib_ua = ex_ua, lib_row = ex_row\<rparr>"

definition ex_cache :: "(mem_db, mem_write, mem_read) trace_cache" where
  "ex_cache = \<lparr>cache_redb = mem_redb, queues_threshold = 3\<rparr>"

definition ex_mem :: mem where
  "ex_mem = \<lparr>m_serials = None, m_sheets = None, m_seqs = None, m_general = None, m_operation = None\<rparr>"

definition ex_pid :: ascii_text where
  "ex_pid = AsciiDigitsOrUpper (replicate 23 48)"

lemma ex_libs_simps [simp]:
  "lib_dates ex_libs = gregorian" "lib_codec ex_libs = le_codec" "lib_ua ex_libs = ex_ua"
  "lib_row ex_libs = ex_row" "json_lib_of ex_row = compact_json"
  "cache_redb ex_cache = mem_redb" "queues_threshold ex_cache = 3"
  by (simp_all add: ex_libs_def ex_cache_def ex_row_def)

lemmas mem_run =
  write_txn_def read_txn_def mem_redb_def mem_ops_def act_bind_def act_call_def act_lift_def Let_def
  table_or_empty_def

text \<open>A save in memory that meets no fault.\<close>

definition mem_saved :: "str \<Rightarrow> u8 list \<Rightarrow> str \<Rightarrow> str \<Rightarrow> mem \<Rightarrow> mem" where
  "mem_saved pid bytes jg jo m =
     (let n = (case RBT.lookup (table_or_empty (m_seqs m)) () of Some v \<Rightarrow> v + 2 | None \<Rightarrow> 0) in
      m\<lparr>m_seqs := Some (RBT.insert () n (table_or_empty (m_seqs m))),
        m_sheets := Some (RBT.insert pid bytes (table_or_empty (m_sheets m))),
        m_general := Some (RBT.insert n jg (table_or_empty (m_general m))),
        m_operation := Some (RBT.insert (n + 1) jo (table_or_empty (m_operation m)))\<rparr>)"

lemma mem_save:
  assumes "encode_sheets K ua L ts machine pid general operation ctx = Inr (bytes, jg, jo)"
  shows "save_part_sheets K ua L ex_cache ts machine pid general operation ctx (MemDb m [])
    = (Inr (), MemDb (mem_saved (as_str pid) bytes jg jo m) [])"
  by (simp add: save_part_sheets_def assms save_block_def mem_run mem_saved_def split: option.splits)

lemma ex_items_encode:
  "\<exists>bytes jg jo. encode_sheets le_codec ex_ua ex_row () [] ex_pid [(1, [], VBoolean True)] [] () =
     Inr (bytes, jg, jo)"
  by (simp add: encode_sheets_def encode_part_sheet_for_cache_def count_u16_def written_def
      encode_item_def le_codec_def of_enc_def encode_part_sheet_for_db_def json_of_def serialize_row_def
      serialize_part_sheet_def serialize_timestamp_def compact_json_def)

lemma ex_nothing_encodes:
  "\<exists>bytes jg jo. encode_sheets le_codec ex_ua ex_row () [] ex_pid [] [] () = Inr (bytes, jg, jo)"
  by (simp add: encode_sheets_def encode_part_sheet_for_cache_def count_u16_def written_def
      le_codec_def encode_part_sheet_for_db_def json_of_def serialize_row_def
      serialize_part_sheet_def serialize_timestamp_def compact_json_def)

section \<open>Properties\<close>

text \<open>C8. Every call to the cache is one atomic step: it returns what the specification returns on
  the contents it finds, and either changes them as specified or leaves them unchanged.  A call
  that fails leaves them unchanged, except that a failed commit may have applied all of it.\<close>

theorem cache_call_refines:
  assumes "redb_store R view wview wbase rview" and "cache_redb C = R"
    and "exec_call L C c db = (x, db')"
  shows "atomic_step L (queues_threshold C) c x (view db) (view db')"
  by (rule redb_store.exec_call_atomic[OF assms(1,3,2)])

theorem cache_call_refines_witness:
  "atomic_step ex_libs 3 (NextSerial example_day)
     (Serial (Inl (Err (ECommit (CommitError []))))) (mem_view ex_mem) (mem_view ex_mem)"
  using cache_call_refines[OF memdb.redb_store_axioms, where C = ex_cache and L = ex_libs
      and c = "NextSerial example_day" and db = "MemDb ex_mem [False, False, False, False, True]"
      and x = "Serial (Inl (Err (ECommit (CommitError []))))" and db' = "MemDb ex_mem []"]
  by (simp add: next_serial_def mem_run ex_mem_def)

text \<open>C22. The serial numbers given for one day along any sequence of calls, by any machines and with
  any failures in between, are strictly increasing, so none is given twice, as long as the
  calls are fewer than the serials left.\<close>

theorem serials_increase:
  assumes "redb_store R view wview wbase rview" and "cache_redb C = R"
    and "run_calls L C cs db = (os, db')" and "last_serial k (view db) + length cs < 2 ^ 32"
  shows "sorted_wrt (<) (issued L k cs os) \<and> (\<forall>n\<in>set (issued L k cs os). last_serial k (view db) < n)"
  by (rule issued_sorted[OF redb_store.run_calls_tsteps[OF assms(1,3,2)] assms(4)])

theorem serials_increase_witness:
  "sorted_wrt (<) (issued ex_libs (lit ''30441112'')
     [NextSerial example_day, CheckEnqueuing, NextSerial example_day]
     (fst (run_calls ex_libs ex_cache [NextSerial example_day, CheckEnqueuing, NextSerial example_day]
       (MemDb ex_mem []))))"
  by (rule conjunct1[OF serials_increase[OF memdb.redb_store_axioms, where db' =
        "snd (run_calls ex_libs ex_cache [NextSerial example_day, CheckEnqueuing, NextSerial example_day]
          (MemDb ex_mem []))" and db = "MemDb ex_mem []"]])
    (simp_all add: last_serial_def mem_view_def ex_mem_def)

text \<open>C21. The part sheet read back is the one last saved: after a successful save, and any calls
  that do not save the same part, a successful read returns the node identifiers and values
  that were saved, in order, and never reports the part as missing.\<close>

theorem saved_sheet_read_back:
  assumes "redb_store R view wview wbase rview" and "cache_redb C = R"
    and "binary_codec (lib_codec L) portable" and "list_all (\<lambda>i. portable (item_value i)) general"
    and "exec_call L C (SaveSheets ts machine pid general operation ctx) db = (Saved (Inr u), db1)"
    and "run_calls L C cs db1 = (os, db2)" and "list_all (\<lambda>c. \<not> saves_part (as_str pid) c) cs"
    and "exec_call L C (GetSheet (as_str pid) ctx') db2 = (Sheet (Inr r), db3)"
  shows "r = Some (map cached_item general)"
proof -
  note st = redb_store.exec_call_atomic[OF assms(1) _ assms(2)]
  obtain bytes jg jo where
    e: "encode_sheets (lib_codec L) (lib_ua L) (lib_row L) ts machine pid general operation ctx = Inr (bytes, jg, jo)"
    and v: "view db1 = spec_save (as_str pid) bytes jg jo (view db)"
    using st[OF assms(5)] by (auto simp: atomic_step_def)
  have c: "encode_part_sheet_for_cache (lib_codec L) ctx general = Inr bytes"
    using e by (auto simp: encode_sheets_def res_bind_eq_Inr map_err_eq_Inr)
  have "opened (sheets (view db2)) (as_str pid) = opened (sheets (view db1)) (as_str pid)"
    by (rule sheets_run[OF redb_store.run_calls_tsteps[OF assms(1,6,2)] assms(7)])
  then have "opened (sheets (view db2)) (as_str pid) = Some bytes" by (simp add: v spec_save_def)
  then obtain ps where "decode_cached_part_sheet (lib_codec L) ctx' bytes = Inr ps" "r = Some ps"
    using st[OF assms(8)] by (auto simp: atomic_step_def)
  then show ?thesis using binary_codec.decode_encoded_sheet[OF assms(3) c assms(4)] by simp
qed

theorem saved_sheet_read_back_witness:
  "fst (exec_call ex_libs ex_cache (GetSheet (as_str ex_pid) ())
     (snd (exec_call ex_libs ex_cache (SaveSheets () [] ex_pid [(1, [], VBoolean True)] [] ()) (MemDb ex_mem []))))
   = Sheet (Inr (Some [(1, VBoolean True)]))"
proof -
  let ?g = "[(1 :: u32, [], VBoolean True)]"
  obtain bytes jg jo where e: "encode_sheets le_codec ex_ua ex_row () [] ex_pid ?g [] () = Inr (bytes, jg, jo)"
    using ex_items_encode by blast
  let ?m = "mem_saved (as_str ex_pid) bytes jg jo ex_mem"
  have s: "exec_call ex_libs ex_cache (SaveSheets () [] ex_pid ?g [] ()) (MemDb ex_mem []) = (Saved (Inr ()), MemDb ?m [])"
    by (simp add: mem_save[OF e])
  have b: "encode_part_sheet_for_cache le_codec () ?g = Inr bytes"
    using e by (auto simp: encode_sheets_def res_bind_eq_Inr map_err_eq_Inr)
  have d: "decode_cached_part_sheet le_codec () bytes = Inr (map cached_item ?g)"
    by (rule lec.decode_encoded_sheet[OF b]) simp
  obtain r where g: "exec_call ex_libs ex_cache (GetSheet (as_str ex_pid) ()) (MemDb ?m [])
      = (Sheet (Inr r), MemDb ?m [])"
    by (simp add: get_general_part_sheet_def mem_run mem_saved_def d)
  have "r = Some (map cached_item ?g)"
    by (rule saved_sheet_read_back[OF memdb.redb_store_axioms _ _ _ s _ _ g, where cs = "[]" and portable = value_ok])
      (simp_all add: lec.binary_codec_axioms)
  then show ?thesis by (simp only: s g snd_conv fst_conv) (simp add: cached_item_def)
qed

text \<open>C23. A successful save appends exactly one row to each queue, under keys greater than every key
  in use, and changes nothing else but the cached sheet and the sequence number; this holds
  after any sequence of calls, so drained keys are never used again.\<close>

theorem save_appends_fresh_rows:
  assumes "redb_store R view wview wbase rview" and "cache_redb C = R"
    and "queue_inv (view db0)" and "next_seq (view db0) + 2 * length cs + 2 \<le> 2 ^ 64"
    and "run_calls L C cs db0 = (os, db)"
    and "exec_call L C (SaveSheets ts machine pid general operation ctx) db = (Saved (Inr u), db')"
  shows "\<exists>k jg jo bytes.
     encode_sheets (lib_codec L) (lib_ua L) (lib_row L) ts machine pid general operation ctx = Inr (bytes, jg, jo) \<and>
     next_seq (view db0) \<le> unat k \<and> k < k + 1 \<and>
     (\<forall>q. \<forall>j\<in>dom (opened (rows q (view db))). j < k) \<and>
     opened (rows General (view db')) = (opened (rows General (view db)))(k \<mapsto> jg) \<and>
     opened (rows Operation (view db')) = (opened (rows Operation (view db)))(k + 1 \<mapsto> jo) \<and>
     serials (view db') = serials (view db)"
proof -
  have run: "queue_inv (view db) \<and> next_seq (view db) \<le> next_seq (view db0) + 2 * length cs \<and>
      next_seq (view db0) \<le> next_seq (view db)"
    by (rule queue_inv_run[OF redb_store.run_calls_tsteps[OF assms(1,5,2)] assms(3)]) (use assms(4) in simp)
  then have b: "next_seq (view db) + 2 \<le> 2 ^ 64" using assms(4) by simp
  obtain bytes jg jo where
    e: "encode_sheets (lib_codec L) (lib_ua L) (lib_row L) ts machine pid general operation ctx = Inr (bytes, jg, jo)"
    and v: "view db' = spec_save (as_str pid) bytes jg jo (view db)"
    using redb_store.exec_call_atomic[OF assms(1,6,2)] by (auto simp: atomic_step_def)
  show ?thesis
    using e run save_fresh[OF _ b] spec_seq_unat(1)[OF b] rows_spec_save[of "as_str pid" bytes jg jo "view db"]
    by (intro exI[of _ "spec_seq (view db)"] exI[of _ jg] exI[of _ jo] exI[of _ bytes])
      (simp add: v, simp add: spec_save_def)
qed

lemma ex_queue_inv: "queue_inv (mem_view ex_mem)" "next_seq (mem_view ex_mem) = 0"
  by (simp_all add: queue_inv_def next_seq_def mem_view_def ex_mem_def)

theorem save_appends_fresh_rows_witness:
  "\<exists>db' k row. save_part_sheets le_codec ex_ua ex_row ex_cache () [] ex_pid [] [] () (MemDb ex_mem []) = (Inr (), db') \<and>
     opened (rows General (mem_view (db_tables db'))) = [k \<mapsto> row]"
proof -
  obtain bytes jg jo where e: "encode_sheets le_codec ex_ua ex_row () [] ex_pid [] [] () = Inr (bytes, jg, jo)"
    using ex_nothing_encodes by blast
  let ?m = "mem_saved (as_str ex_pid) bytes jg jo ex_mem"
  have s: "exec_call ex_libs ex_cache (SaveSheets () [] ex_pid [] [] ()) (MemDb ex_mem []) = (Saved (Inr ()), MemDb ?m [])"
    by (simp add: mem_save[OF e])
  have "run_calls ex_libs ex_cache [] (MemDb ex_mem []) = ([], MemDb ex_mem [])" by simp
  from save_appends_fresh_rows[OF memdb.redb_store_axioms _ _ _ this s] ex_queue_inv
  obtain k row where "opened (rows General (mem_view ?m)) = (opened (rows General (mem_view ex_mem)))(k \<mapsto> row)"
    by auto
  then show ?thesis using mem_save[OF e]
    by (intro exI[of _ "MemDb ?m []"] exI[of _ k] exI[of _ row]) (simp add: mem_view_def ex_mem_def)
qed

text \<open>C25. A batch is the whole queue at that moment: its keys are the keys of the queue in increasing
  order, and its body read line by line is the queued rows in the same order.\<close>

theorem batch_is_queue_as_lines:
  assumes "redb_store R view wview wbase rview" and "cache_redb C = R"
    and "json_lines (json_lib_of (lib_row L))" and "lines_ok (view db0)"
    and "run_calls L C cs db0 = (os, db)"
    and "exec_call L C (GetBatch q) db = (Batch (Inr (keys, body)), db')"
  shows "sorted_wrt (<) keys \<and> set keys = dom (opened (rows q (view db))) \<and>
     map Some (text_lines [] body) = map (opened (rows q (view db))) keys"
proof -
  have l: "lines_ok (view db)"
    by (rule lines_ok_run[OF redb_store.run_calls_tsteps[OF assms(1,5,2)] assms(3,4)])
  obtain kvs where kvs: "batch_rows q (view db) kvs" "keys = map fst kvs" "body = json_lines_body kvs"
    using redb_store.exec_call_atomic[OF assms(1,6,2)] by (auto simp: atomic_step_def)
  have d: "distinct (map fst kvs)" using kvs(1) strict_sorted_iff by (auto simp: batch_rows_def)
  have "map (Some \<circ> snd) kvs = map (opened (rows q (view db)) \<circ> fst) kvs"
    using kvs(1) map_of_is_SomeI[OF d] by (auto simp: batch_rows_def)
  then show ?thesis
    using kvs batch_rows_lines[OF kvs(1) l] batch_rows_keys[OF kvs(1)] by (simp add: batch_rows_def)
qed

theorem batch_is_queue_as_lines_witness:
  "fst (exec_call ex_libs ex_cache (GetBatch Operation) (MemDb ex_mem [])) = Batch (Inr ([], [])) \<and>
   dom (opened (rows Operation (mem_view ex_mem))) = {}"
proof -
  have b: "exec_call ex_libs ex_cache (GetBatch Operation) (MemDb ex_mem []) = (Batch (Inr ([], [])), MemDb ex_mem [])"
    by (simp add: get_queue_batch_def table_definition_def mem_run ex_mem_def)
  have r: "run_calls ex_libs ex_cache [] (MemDb ex_mem []) = ([], MemDb ex_mem [])" by simp
  have l: "lines_ok (mem_view ex_mem)"
    by (simp add: lines_ok_def queue_table_all mem_view_def ex_mem_def)
  have "set ([] :: u64 list) = dom (opened (rows Operation (mem_view ex_mem)))"
    using batch_is_queue_as_lines[OF memdb.redb_store_axioms _ _ _ r b] l cjson.json_lines_axioms by simp
  then show ?thesis using b by simp
qed

text \<open>C24. Removing the keys of a batch loses no row queued since the batch was taken: whatever was
  called in between, other than removals, the rows left are exactly those that were not in the
  batch, and every removed row was in the batch.  The other queue is untouched.\<close>

theorem removing_batch_keeps_new_rows:
  assumes "redb_store R view wview wbase rview" and "cache_redb C = R"
    and "queue_inv (view db0)" and "next_seq (view db0) + 2 * length cs \<le> 2 ^ 64"
    and "exec_call L C (GetBatch q) db0 = (Batch (Inr (keys, body)), db1)"
    and "run_calls L C cs db1 = (os, db2)" and "list_all saves_only cs"
    and "exec_call L C (RemoveEntries q keys) db2 = (Removed (Inr u), db3)"
  shows "opened (rows q (view db3)) = (opened (rows q (view db2))) |` (- dom (opened (rows q (view db0)))) \<and>
     opened (rows q (view db0)) \<subseteq>\<^sub>m opened (rows q (view db2)) \<and>
     (\<forall>q'. q' \<noteq> q \<longrightarrow> opened (rows q' (view db3)) = opened (rows q' (view db2)))"
proof -
  note st = redb_store.exec_call_atomic[OF assms(1) _ assms(2)]
  have v1: "view db1 = view db0" using st[OF assms(5)] by (simp add: atomic_step_def)
  obtain kvs where kvs: "batch_rows q (view db0) kvs" "keys = map fst kvs"
    using st[OF assms(5)] by (auto simp: atomic_step_def)
  have k: "set keys = dom (opened (rows q (view db0)))" using batch_rows_keys[OF kvs(1)] kvs(2) by simp
  have "opened (rows q (view db1)) \<subseteq>\<^sub>m opened (rows q (view db2))"
    by (rule rows_grow_run[OF redb_store.run_calls_tsteps[OF assms(1,6,2)]]) (use assms(3,4,7) v1 in simp_all)
  moreover have "view db3 = spec_remove q keys (view db2)" using st[OF assms(8)] by (simp add: atomic_step_def)
  ultimately show ?thesis using v1 k by (simp add: rows_spec_remove)
qed

theorem removing_batch_keeps_new_rows_witness:
  "\<exists>m0 m1 m2. run_calls ex_libs ex_cache
       [GetBatch General, SaveSheets () [] ex_pid [] [] (), RemoveEntries General [0]] (MemDb m0 [])
     = ([Batch (Inr ([0], [10])), Saved (Inr ()), Removed (Inr ())], MemDb m2 []) \<and>
     dom (opened (rows General (mem_view m0))) = {0} \<and>
     opened (rows General (mem_view m2)) = (opened (rows General (mem_view m1))) |` (- {0})"
proof -
  obtain bytes jg jo where e: "encode_sheets le_codec ex_ua ex_row () [] ex_pid [] [] () = Inr (bytes, jg, jo)"
    using ex_nothing_encodes by blast
  let ?m0 = "ex_mem\<lparr>m_seqs := Some (RBT.insert () 0 RBT.empty), m_general := Some (RBT.insert 0 [] RBT.empty)\<rparr>"
  let ?m1 = "mem_saved (as_str ex_pid) bytes jg jo ?m0"
  let ?m2 = "?m1\<lparr>m_general := Some (RBT.delete 0 (the (m_general ?m1)))\<rparr>"
  have b: "exec_call ex_libs ex_cache (GetBatch General) (MemDb ?m0 []) = (Batch (Inr ([0], [10])), MemDb ?m0 [])"
    by (simp add: get_queue_batch_def table_definition_def mem_run batch_of_def entries_single)
  have s: "run_calls ex_libs ex_cache [SaveSheets () [] ex_pid [] [] ()] (MemDb ?m0 []) = ([Saved (Inr ())], MemDb ?m1 [])"
    by (simp add: mem_save[OF e])
  have r: "exec_call ex_libs ex_cache (RemoveEntries General [0]) (MemDb ?m1 []) = (Removed (Inr ()), MemDb ?m2 [])"
    by (simp add: remove_entries_def table_definition_def mem_run mem_saved_def)
  have q: "queue_inv (mem_view ?m0)" "next_seq (mem_view ?m0) = 2"
    by (simp_all add: queue_inv_def next_seq_def mem_view_def ex_mem_def)
  have d: "dom (opened (rows General (mem_view ?m0))) = {0}"
    by (simp add: mem_view_def)
  have "opened (rows General (mem_view ?m2)) =
      (opened (rows General (mem_view ?m1))) |` (- dom (opened (rows General (mem_view ?m0))))"
    using removing_batch_keeps_new_rows[OF memdb.redb_store_axioms _ _ _ b s _ r] q by (simp add: saves_only_def)
  moreover have "run_calls ex_libs ex_cache
       [GetBatch General, SaveSheets () [] ex_pid [] [] (), RemoveEntries General [0]] (MemDb ?m0 [])
     = ([Batch (Inr ([0], [10])), Saved (Inr ()), Removed (Inr ())], MemDb ?m2 [])"
    using b s r unfolding run_calls_Cons by auto
  ultimately show ?thesis using d by metis
qed

text \<open>C26. Enqueuing is allowed exactly while the two queues together hold fewer rows than the
  threshold: a successful check means fewer, and a refusal reports their number and the
  threshold, which it has reached.\<close>

theorem enqueuing_threshold:
  assumes "redb_store R view wview wbase rview" and "cache_redb C = R"
    and "queued (view db) < 2 ^ 64" and "check_enqueuing_allowed C db = (x, db')"
  shows "view db' = view db \<and>
     (\<forall>u. x = Inr u \<longrightarrow> queued (view db) < unat (queues_threshold C)) \<and>
     (\<forall>n m. x = Inl (Err (TooMuchEnqueued n m)) \<longrightarrow>
        unat n = queued (view db) \<and> m = queues_threshold C \<and> unat m \<le> queued (view db))"
proof -
  have w: "unat (of_nat (queued (view db)) :: u64) = queued (view db)"
    using assms(3) by (simp add: unat_of_nat take_bit_nat_eq_self)
  show ?thesis
    using redb_store.check_view[OF assms(1,4,2)] redb_store.check_enqueuing_Inr[OF assms(1) _ assms(2)]
      redb_store.check_enqueuing_TooMuch[OF assms(1) _ assms(2)] assms(4) w
    by (auto simp: word_less_nat_alt word_le_nat_alt) metis+
qed

theorem enqueuing_threshold_witness:
  "\<exists>x. fst (check_enqueuing_allowed ex_cache (MemDb ex_mem [])) = Inr x \<and>
     queued (mem_view ex_mem) < unat (queues_threshold ex_cache)"
proof -
  have q: "queued (mem_view ex_mem) = 0"
    by (simp add: queued_def queue_tables_def mem_view_def ex_mem_def)
  have "check_enqueuing_allowed ex_cache (MemDb ex_mem []) = (Inr (), MemDb ex_mem [])"
    by (simp add: check_enqueuing_allowed_def queue_tables_def table_definition_def mem_run ex_mem_def)
  then show ?thesis using enqueuing_threshold[OF memdb.redb_store_axioms, where C = ex_cache
        and db = "MemDb ex_mem []"] q by auto
qed

end
