(* ===== verification/Gw_Config.thy ===== *)
theory Gw_Config
  imports Ascii_Text
begin

text \<open>
  Configuration and credentials, \<^verbatim>\<open>crates/config/src\<close>.  The TOML parser and the file system are
  parameters; a \<^verbatim>\<open>BTreeMap\<close> is an association list in key order; durations are in nanoseconds.
\<close>

type_synonym duration = nat

definition seconds :: "nat \<Rightarrow> duration" where
  "seconds n = n * 1000000000"

datatype security_policy =
    Unknown | NoPolicy | Aes128Sha256RsaOaep | Basic256Sha256 | Aes256Sha256RsaPss | Basic128Rsa15 | Basic256

datatype security_mode = InvalidMode | NoMode | Sign | SignAndEncrypt

datatype cfg_io_error = CfgIoError str
datatype toml_error = TomlError str

datatype config_error =
    ReadFile cfg_io_error
  | ParseToml toml_error
  | DbPassFileMeta cfg_io_error
  | DbPassFilePermissions u32
  | EmptyServers
  | MissingUsername str
  | MissingPassword str

record common_opc_ua_config =
  namespace_url :: str
  request_nid :: u32
  response_nid :: u32
  heartbeat_nid :: u32
  general_part_sheet_nid :: u32
  part_id_nid :: u32
  raw_part_ref_nid :: u32
  raw_batch_nid :: u32
  excluded_read_nids :: "u32 list"

record database_config =
  db_url :: str
  default_database :: str
  part_sheets_drain_period :: duration
  general_part_sheet_table :: str
  operation_part_sheet_table :: str

record common_config =
  redb_file :: str
  queues_not_draining_threshold :: u64
  common_opc_ua :: common_opc_ua_config
  database :: database_config

record opc_ua_server_config =
  server_url :: str
  security_policy_of :: security_policy
  security_mode_of :: security_mode

record machine_opc_ua_config =
  operation_namespace_url :: str
  operation_part_sheet_nid :: u32

record machine_traceability_config =
  publish_interval :: duration
  line_id_of :: "ascii_text option"
  machine_opc_ua :: machine_opc_ua_config

record machine_config =
  opc_ua_server :: opc_ua_server_config
  machine_traceability :: machine_traceability_config

record gateway_config =
  application_uri :: str
  pki_dir :: str
  traceability :: common_config
  machines :: "(str \<times> machine_config) list"

definition from_toml_file ::
    "(str \<Rightarrow> cfg_io_error + str) \<Rightarrow> (str \<Rightarrow> toml_error + gateway_config) \<Rightarrow> str \<Rightarrow> config_error + gateway_config"
where
  "from_toml_file read_to_string toml_from_str path =
     (case read_to_string path of
        Inl e \<Rightarrow> Inl (ReadFile e)
      | Inr raw \<Rightarrow> (case toml_from_str raw of
          Inl e \<Rightarrow> Inl (ParseToml e)
        | Inr config \<Rightarrow> (if machines config = [] then Inl EmptyServers else Inr config)))"

section \<open>Credentials\<close>

datatype credentials_error = EnvVar | FileRead cfg_io_error str | CredToml toml_error

record credential =
  user :: str
  password :: str

record credentials =
  cred_database :: credential
  cred_opc_ua :: "(str \<times> credential) list"

definition credentials_from_toml_file ::
    "(str \<Rightarrow> cfg_io_error + str) \<Rightarrow> (str \<Rightarrow> toml_error + credentials) \<Rightarrow> str \<Rightarrow> credentials_error + credentials"
where
  "credentials_from_toml_file read_to_string toml_from_str path =
     (case read_to_string path of
        Inl e \<Rightarrow> Inl (FileRead e path)
      | Inr contents \<Rightarrow> (case toml_from_str contents of Inl e \<Rightarrow> Inl (CredToml e) | Inr c \<Rightarrow> Inr c))"

definition cred_dir_env_var :: str where
  "cred_dir_env_var = lit ''CREDENTIALS_DIRECTORY''"

text \<open>The extension that \<^verbatim>\<open>with_extension\<close> sets is the one already there.\<close>

definition from_credentials_file ::
    "(str \<Rightarrow> str option) \<Rightarrow> (str \<Rightarrow> cfg_io_error + str) \<Rightarrow> (str \<Rightarrow> toml_error + credentials)
      \<Rightarrow> credentials_error + credentials"
where
  "from_credentials_file var_os read_to_string toml_from_str =
     (case var_os cred_dir_env_var of
        None \<Rightarrow> Inl EnvVar
      | Some dir \<Rightarrow>
          credentials_from_toml_file read_to_string toml_from_str (path_join dir (lit ''credentials.toml'')))"

text \<open>Looking up a \<^verbatim>\<open>BTreeMap\<close>.\<close>

definition btree_get :: "(str \<times> 'a) list \<Rightarrow> str \<Rightarrow> 'a option" where
  "btree_get m k = map_of m k"

text \<open>A configuration that loads was read and parsed, and has at least one machine; a file that
  cannot be read, parsed, or configures no machine is refused with the matching error.\<close>

theorem from_toml_file_accepts:
  "from_toml_file rd parse path = r \<longleftrightarrow>
     (case r of
        Inr config \<Rightarrow> (\<exists>raw. rd path = Inr raw \<and> parse raw = Inr config) \<and> machines config \<noteq> []
      | Inl (ReadFile e) \<Rightarrow> rd path = Inl e
      | Inl (ParseToml e) \<Rightarrow> (\<exists>raw. rd path = Inr raw \<and> parse raw = Inl e)
      | Inl EmptyServers \<Rightarrow> (\<exists>raw config. rd path = Inr raw \<and> parse raw = Inr config \<and> machines config = [])
      | Inl _ \<Rightarrow> False)"
  by (auto simp: from_toml_file_def split: sum.splits config_error.splits)

end
