(* ===== verification/Async_World.thy ===== *)
theory Async_World
  imports Gw_Prelude
begin

text \<open>
  Asynchronous code acts on a world: the surroundings (servers, clocks, the archive) and the
  store of the cache.  Other tasks run while a task waits, so every awaited call may change
  both; blocking closures run on the store between two waits.
\<close>

section \<open>The world\<close>

datatype ('s, 'db) world = World (surroundings: 's) (store: 'db)

datatype join_error = Cancelled | JoinPanic str

text \<open>
  The pool of blocking threads: what happens until the closure is run, or the error of
  a task that is cancelled.  The closure acts on the store, and may read the surroundings.
\<close>

record ('s, 'db) runtime =
  until_run :: "('s, 'db) world \<Rightarrow> join_error option \<times> ('s, 'db) world"

text \<open>\<open>spawn_blocking(f).await.map_err(j)?.map_err(e)?\<close>\<close>

definition blocking ::
    "('s, 'db) runtime \<Rightarrow> (join_error \<Rightarrow> 'f) \<Rightarrow> ('e \<Rightarrow> 'f) \<Rightarrow> (('s, 'db) world \<Rightarrow> ('db, 'e, 'a) act)
      \<Rightarrow> (('s, 'db) world, 'f, 'a) act"
where
  "blocking rt j e f w =
     (case until_run rt w of
        (Some err, w') \<Rightarrow> (Inl (Err (j err)), w')
      | (None, w') \<Rightarrow> (case f w' (store w') of (r, db') \<Rightarrow>
          (case r of
             Inl (Panic m) \<Rightarrow> Inl (Err (j (JoinPanic m)))
           | Inl (Err x) \<Rightarrow> Inl (Err (e x))
           | Inr x \<Rightarrow> Inr x,
           World (surroundings w') db')))"

end
