(* ===== verification/Drain.thy ===== *)
theory Drain
  imports Cache_Claims Gw_Config Async_World
begin

text \<open>
  Draining the row queues into the archive database, \<^verbatim>\<open>src/traceability/database.rs\<close>.  Code that
  awaits acts on a world: the surroundings and the store of the cache.  Other tasks run while
  it waits, so every awaited call may change both.
\<close>

section \<open>The archive database\<close>

datatype ch_error = ClickhouseError str

record ch_client =
  ch_url :: str
  ch_user :: str
  ch_password :: str
  ch_database :: str
  ch_compression :: bool

record inserter =
  ins_client :: ch_client
  ins_query :: str
  ins_send_timeout :: "duration option"
  ins_end_timeout :: "duration option"
  ins_sent :: str

record ('s, 'db) clickhouse =
  ch_default :: ch_client
  ch_send :: "inserter \<Rightarrow> str \<Rightarrow> ('s, 'db) world \<Rightarrow> (ch_error + inserter) \<times> ('s, 'db) world"
  ch_end :: "inserter \<Rightarrow> ('s, 'db) world \<Rightarrow> (ch_error + unit) \<times> ('s, 'db) world"

datatype drain_error =
    GetBatchTask join_error
  | GetBatchFailed redb_error
  | Insert ch_error
  | RemoveQueuedTask join_error
  | RemoveQueued redb_error

record ('db, 'w, 'r) trace_database =
  client :: ch_client
  db_cache :: "('db, 'w, 'r) trace_cache"
  general_table :: str
  operation_table :: str

definition trace_database_new ::
    "('s, 'db) clickhouse \<Rightarrow> database_config \<Rightarrow> credential \<Rightarrow> ('db, 'w, 'r) trace_cache \<Rightarrow> ('db, 'w, 'r) trace_database"
where
  "trace_database_new CH config cred cache =
     \<lparr>client = (ch_default CH)\<lparr>ch_url := db_url config, ch_user := user cred,
         ch_password := password cred, ch_database := default_database config\<rparr>,
      db_cache = cache,
      general_table = general_part_sheet_table config,
      operation_table = operation_part_sheet_table config\<rparr>"

definition part_sheet_table :: "('db, 'w, 'r) trace_database \<Rightarrow> queue_table \<Rightarrow> str" where
  "part_sheet_table D q = (case q of General \<Rightarrow> general_table D | Operation \<Rightarrow> operation_table D)"

definition insert_query :: "('db, 'w, 'r) trace_database \<Rightarrow> queue_table \<Rightarrow> str" where
  "insert_query D q = lit ''INSERT INTO '' @ part_sheet_table D q @ lit '' FORMAT JSONEachRow''"

definition new_inserter :: "('db, 'w, 'r) trace_database \<Rightarrow> queue_table \<Rightarrow> str \<Rightarrow> inserter" where
  "new_inserter D q body =
     \<lparr>ins_client = (if body \<noteq> [] then client D else (client D)\<lparr>ch_compression := False\<rparr>),
      ins_query = insert_query D q,
      ins_send_timeout = Some (seconds 2), ins_end_timeout = Some (seconds 5), ins_sent = []\<rparr>"

definition drain_part_sheet_queue ::
    "('s, 'db) runtime \<Rightarrow> ('s, 'db) clickhouse \<Rightarrow> ('db, 'w, 'r) trace_database \<Rightarrow> queue_table \<Rightarrow> bool
      \<Rightarrow> (('s, 'db) world, drain_error, unit) act"
where
  "drain_part_sheet_queue rt CH D q skip_if_empty =
     act_bind (blocking rt GetBatchTask GetBatchFailed (\<lambda>_. get_queue_batch (db_cache D) q)) (\<lambda>(keys, body).
       if skip_if_empty \<and> keys = [] then act_lift (Inr ())
       else
         act_bind (act_call Insert (ch_send CH (new_inserter D q body) body)) (\<lambda>ins.
         act_bind (act_call Insert (ch_end CH ins)) (\<lambda>_.
         blocking rt RemoveQueuedTask RemoveQueued (\<lambda>_. remove_entries (db_cache D) q keys))))"

section \<open>The draining task\<close>

text \<open>
  \<open>report\<close> sends the status of the first run; it gives false when the receiver is gone, which
  makes the task panic.  The two drains of a tick are joined; the model runs the general one
  first, interleavings with the other being steps of other tasks.
\<close>

definition drain_tick ::
    "('s, 'db) runtime \<Rightarrow> ('s, 'db) clickhouse \<Rightarrow> ('db, 'w, 'r) trace_database \<Rightarrow> bool
      \<Rightarrow> ('s, 'db) world \<Rightarrow> ((drain_error, unit) res \<times> (drain_error, unit) res) \<times> ('s, 'db) world"
where
  "drain_tick rt CH D skip_if_empty w =
     (case drain_part_sheet_queue rt CH D General skip_if_empty w of (g, w1) \<Rightarrow>
      case drain_part_sheet_queue rt CH D Operation skip_if_empty w1 of (p, w2) \<Rightarrow> ((g, p), w2))"

definition first_status :: "(drain_error, unit) res \<times> (drain_error, unit) res \<Rightarrow> bool" where
  "first_status gp = (\<not> isl (fst gp) \<and> \<not> isl (snd gp))"

text \<open>\<open>n\<close> is the number of ticks before the shutdown.\<close>

fun drain_part_sheets_task ::
    "('s, 'db) runtime \<Rightarrow> ('s, 'db) clickhouse \<Rightarrow> ('db, 'w, 'r) trace_database
      \<Rightarrow> (bool \<Rightarrow> ('s, 'db) world \<Rightarrow> bool \<times> ('s, 'db) world) \<Rightarrow> bool \<Rightarrow> nat
      \<Rightarrow> (('s, 'db) world, unit, unit) act"
where
  "drain_part_sheets_task rt CH D report first_run 0 w = (Inr (), w)"
| "drain_part_sheets_task rt CH D report first_run (Suc n) w =
     (case drain_tick rt CH D (\<not> first_run) w of (gp, w1) \<Rightarrow>
        if first_run then
          (case report (first_status gp) w1 of
             (False, w2) \<Rightarrow> (Inl (Panic (lit ''sending the first run outcome should not fail'')), w2)
           | (True, w2) \<Rightarrow> drain_part_sheets_task rt CH D report False n w2)
        else drain_part_sheets_task rt CH D report False n w1)"

section \<open>What other tasks may do\<close>

text \<open>
  The queues are well formed when the keys of their rows are below the next sequence number, and
  the rows are one line each.  From such contents other tasks never remove a row of the queue
  \<open>q\<close>, and they leave such contents.  Every call other than a removal from \<open>q\<close> is such a step,
  by \<open>others_step\<close>.
\<close>

definition queues_ok :: "tables \<Rightarrow> bool" where
  "queues_ok t \<longleftrightarrow> queue_inv t \<and> lines_ok t"

definition others :: "queue_table \<Rightarrow> tables \<Rightarrow> tables \<Rightarrow> bool" where
  "others q t t' \<longleftrightarrow> (queues_ok t \<longrightarrow> queues_ok t' \<and> opened (rows q t) \<subseteq>\<^sub>m opened (rows q t'))"

lemma others_refl [simp]: "others q t t"
  by (simp add: others_def)

lemma others_trans: "others q t t1 \<Longrightarrow> others q t1 t2 \<Longrightarrow> others q t t2"
  unfolding others_def by (meson map_le_trans)

lemma others_ok: "others q t t' \<Longrightarrow> queues_ok t \<Longrightarrow> queues_ok t'"
  by (simp add: others_def)

lemma others_row: "others q t t' \<Longrightarrow> queues_ok t \<Longrightarrow> opened (rows q t) k = Some v \<Longrightarrow> opened (rows q t') k = Some v"
  unfolding others_def map_le_def by (metis domI)

lemma others_step:
  assumes "atomic_step L h c x t t'" and "json_lines (json_lib_of (lib_row L))"
    and "numbers_left L c t" and "\<forall>keys. c \<noteq> RemoveEntries q keys"
  shows "others q t t'"
  unfolding others_def queues_ok_def
  using queue_inv_left[OF assms(1) _ assms(3)] lines_ok_step[OF assms(2,1)] rows_grow_left[OF assms(1) _ assms(3,4)]
  by blast

lemma queues_ok_remove: "queues_ok t \<Longrightarrow> queues_ok (spec_remove q keys t)"
  by (auto simp: queues_ok_def lines_ok_def rows_spec_remove restrict_map_def split: if_splits)

lemma others_remove: "q' \<noteq> q \<Longrightarrow> others q' t (spec_remove q keys t)"
  using queues_ok_remove by (auto simp: others_def rows_spec_remove)

lemma queues_ok_lines: "queues_ok t \<Longrightarrow> lines_ok t"
  by (simp add: queues_ok_def)

text \<open>
  \<open>archive\<close> is the set of bodies inserted, each with its query.  A row is settled when it is
  in the body of an inserted batch of its queue, and no row is lost when each stays queued or
  is settled.
\<close>

definition settled :: "('x \<Rightarrow> (str \<times> str) set) \<Rightarrow> str \<Rightarrow> str \<Rightarrow> 'x \<Rightarrow> bool" where
  "settled archive query row w \<longleftrightarrow> (\<exists>b. (query, b) \<in> archive w \<and> row \<in> set (text_lines [] b))"

definition kept :: "('db \<Rightarrow> tables) \<Rightarrow> (('s, 'db) world \<Rightarrow> (str \<times> str) set) \<Rightarrow> ('db, 'w, 'r) trace_database
    \<Rightarrow> ('s, 'db) world \<Rightarrow> ('s, 'db) world \<Rightarrow> bool" where
  "kept view archive D w w' \<longleftrightarrow> (\<forall>q k row. opened (rows q (view (store w))) k = Some row \<longrightarrow>
     opened (rows q (view (store w'))) k = Some row \<or> settled archive (insert_query D q) row w')"

text \<open>
  The laws of the surroundings: the waits are steps of others on the queues \<open>Q\<close>, the archive
  never forgets, and an insertion that ends successfully is in the archive (one that fails may
  or may not be in it).
\<close>

locale drain_world = redb_store R view wview wbase rview
  for R :: "('db, 'w, 'r) redb" and view :: "'db \<Rightarrow> tables"
    and wview wbase :: "'w \<Rightarrow> tables" and rview :: "'r \<Rightarrow> tables" +
  fixes rt :: "('s, 'db) runtime" and CH :: "('s, 'db) clickhouse"
    and archive :: "('s, 'db) world \<Rightarrow> (str \<times> str) set" and Q :: "queue_table set"
  assumes until_run_others: "until_run rt w = (j, w') \<Longrightarrow> q \<in> Q \<Longrightarrow> others q (view (store w)) (view (store w'))"
    and send_others: "ch_send CH i b w = (r1, w') \<Longrightarrow> q \<in> Q \<Longrightarrow> others q (view (store w)) (view (store w'))"
    and end_others: "ch_end CH i w = (r2, w') \<Longrightarrow> q \<in> Q \<Longrightarrow> others q (view (store w)) (view (store w'))"
    and until_run_archive: "until_run rt w = (j, w') \<Longrightarrow> archive w \<subseteq> archive w'"
    and send_archive: "ch_send CH i b w = (r1, w') \<Longrightarrow> archive w \<subseteq> archive w'"
    and end_archive: "ch_end CH i w = (r2, w') \<Longrightarrow> archive w \<subseteq> archive w'"
    and send_ok: "ch_send CH i b w = (Inr i', w') \<Longrightarrow> ins_query i' = ins_query i \<and> ins_sent i' = ins_sent i @ b"
    and end_ok: "ch_end CH i w = (Inr u, w') \<Longrightarrow> (ins_query i, ins_sent i) \<in> archive w'"
    and archive_surroundings: "surroundings w = surroundings w' \<Longrightarrow> archive w = archive w'"
begin

lemma blocking_run:
  assumes "blocking rt j e f w = (x, w')"
  shows "(\<exists>err. x = Inl (Err (j err)) \<and> until_run rt w = (Some err, w')) \<or>
    (\<exists>w1 r. until_run rt w = (None, w1) \<and> f w1 (store w1) = (r, store w') \<and> surroundings w' = surroundings w1 \<and>
      (\<forall>u. x = Inr u \<longrightarrow> r = Inr u) \<and> (\<forall>fl. x = Inl fl \<longrightarrow> (\<exists>fl'. r = Inl fl')))"
  using assms
  by (auto simp: blocking_def split: prod.splits option.splits sum.splits fault.splits)

lemma blocking_archive:
  assumes "blocking rt j e f w = (x, w')"
  shows "archive w \<subseteq> archive w'"
  using blocking_run[OF assms] until_run_archive archive_surroundings by metis

lemma blocking_read_others:
  assumes "blocking rt j e f w = (x, w')" and "q \<in> Q" and "\<And>v d r d'. f v d = (r, d') \<Longrightarrow> view d' = view d"
  shows "others q (view (store w)) (view (store w'))"
  using blocking_run[OF assms(1)] until_run_others[OF _ assms(2)] assms(3) by metis

lemma settled_mono: "settled archive query row w \<Longrightarrow> archive w \<subseteq> archive w' \<Longrightarrow> settled archive query row w'"
  by (auto simp: settled_def)

lemma batch_blocking:
  assumes "blocking rt j e (\<lambda>_. get_queue_batch C q) w = (Inr (keys, body), w')" and "cache_redb C = R"
    and "queues_ok (view (store w'))"
  shows "set keys = dom (opened (rows q (view (store w'))))"
    and "\<forall>k row. opened (rows q (view (store w'))) k = Some row \<longrightarrow> row \<in> set (text_lines [] body)"
proof -
  obtain w1 where "until_run rt w = (None, w1)"
    and r: "get_queue_batch C q (store w1) = (Inr (keys, body), store w')"
    using blocking_run[OF assms(1)] by auto
  have v: "view (store w') = view (store w1)" by (rule get_queue_batch_view[OF r assms(2)])
  obtain kvs where b: "batch_rows q (view (store w')) kvs" "keys = map fst kvs" "body = json_lines_body kvs"
    using get_queue_batch_Inr[OF r assms(2)] v by (metis batch_rows_def json_lines_body_def)
  show "set keys = dom (opened (rows q (view (store w'))))" using batch_rows_keys[OF b(1)] b(2) by simp
  show "\<forall>k row. opened (rows q (view (store w'))) k = Some row \<longrightarrow> row \<in> set (text_lines [] body)"
  proof (intro allI impI)
    fix k row
    assume "opened (rows q (view (store w'))) k = Some row"
    then have "map_of kvs k = Some row" using b(1) by (simp add: batch_rows_def)
    then have "row \<in> set (map snd kvs)" by (force dest: map_of_SomeD)
    then show "row \<in> set (text_lines [] body)" using batch_rows_lines[OF b(1) queues_ok_lines[OF assms(3)]] b(3) by simp
  qed
qed

text \<open>The removal that ends a drain.\<close>

lemma remove_blocking:
  assumes "blocking rt j e (\<lambda>_. remove_entries C q keys) w = (x, w')" and "cache_redb C = R"
  shows "\<exists>t. (\<forall>q'\<in>Q. others q' (view (store w)) t) \<and>
    (view (store w') = t \<or> view (store w') = spec_remove q keys t) \<and>
    (\<not> isl x \<longrightarrow> view (store w') = spec_remove q keys t)"
proof -
  consider (no) err where "x = Inl (Err (j err))" "until_run rt w = (Some err, w')"
    | (run) w1 r where "until_run rt w = (None, w1)" "remove_entries C q keys (store w1) = (r, store w')"
        "\<forall>u. x = Inr u \<longrightarrow> r = Inr u"
    using blocking_run[OF assms(1)] by (elim disjE exE conjE)
  then show ?thesis
  proof cases
    case no
    then show ?thesis using until_run_others by (intro exI[of _ "view (store w')"]) auto
  next
    case run
    have "view (store w') = view (store w1) \<or> view (store w') = spec_remove q keys (view (store w1))"
      using remove_entries_Inr[OF _ assms(2)] remove_entries_Inl[OF _ assms(2)] run(2) by (cases r) blast+
    moreover have "view (store w') = spec_remove q keys (view (store w1))" if "\<not> isl x"
      using remove_entries_Inr[OF _ assms(2)] run(2,3) that by (cases x) auto
    ultimately show ?thesis using until_run_others[OF run(1)] by blast
  qed
qed

text \<open>The second half of a drain, from the contents \<open>w1\<close> that the batch was taken from.\<close>

lemma insert_and_remove:
  assumes "act_bind (act_call Insert (ch_send CH (new_inserter D q body) body)) (\<lambda>ins.
         act_bind (act_call Insert (ch_end CH ins)) (\<lambda>_.
         blocking rt RemoveQueuedTask RemoveQueued (\<lambda>_. remove_entries (db_cache D) q keys))) w1 = (x, w')"
    and C: "cache_redb (db_cache D) = R" and q: "q \<in> Q" and l1: "queues_ok (view (store w1))"
    and keys: "set keys = dom (opened (rows q (view (store w1))))"
    and body: "\<forall>k row. opened (rows q (view (store w1))) k = Some row \<longrightarrow> row \<in> set (text_lines [] body)"
  shows "archive w1 \<subseteq> archive w' \<and> queues_ok (view (store w')) \<and>
     (\<forall>q'\<in>Q - {q}. others q' (view (store w1)) (view (store w'))) \<and>
     (\<forall>k row. opened (rows q (view (store w1))) k = Some row \<longrightarrow>
        (if isl x then opened (rows q (view (store w'))) k = Some row \<or> settled archive (insert_query D q) row w'
         else opened (rows q (view (store w'))) k = None \<and> settled archive (insert_query D q) row w'))"
proof -
  let ?V = "\<lambda>w. view (store w)"
  obtain s w2 where s: "ch_send CH (new_inserter D q body) body w1 = (s, w2)" by fastforce
  note oth2 = send_others[OF s] and arch2 = send_archive[OF s]
  have l2: "queues_ok (?V w2)" using others_ok[OF oth2[OF q] l1] .
  show ?thesis
  proof (cases s)
    case (Inl f)
    then show ?thesis using assms(1) s oth2 arch2 l2 others_row[OF oth2[OF q] l1]
      by (auto simp: act_bind_def act_call_def)
  next
    case (Inr ins)
    have ins: "ins_query ins = insert_query D q" "ins_sent ins = body"
      using send_ok s Inr by (auto simp: new_inserter_def)
    obtain e w3 where e: "ch_end CH ins w2 = (e, w3)" by fastforce
    note oth3 = others_trans[OF oth2 end_others[OF e]] and arch3 = subset_trans[OF arch2 end_archive[OF e]]
    have l3: "queues_ok (?V w3)" using others_ok[OF oth3[OF q q] l1] .
    show ?thesis
    proof (cases e)
      case E: (Inl f)
      then show ?thesis using assms(1) s Inr e oth3 arch3 l3 others_row[OF oth3[OF q q] l1]
        by (auto simp: act_bind_def act_call_def)
    next
      case E: (Inr u)
      have r: "blocking rt RemoveQueuedTask RemoveQueued (\<lambda>_. remove_entries (db_cache D) q keys) w3 = (x, w')"
        using assms(1) s Inr e E by (simp add: act_bind_def act_call_def)
      have st: "settled archive (insert_query D q) row w'" if "opened (rows q (?V w1)) k = Some row" for k row
        using end_ok[of ins w2 u w3] e E ins body that blocking_archive[OF r] by (auto simp: settled_def)
      obtain t where t: "\<forall>q'\<in>Q. others q' (?V w3) t"
        "?V w' = t \<or> ?V w' = spec_remove q keys t" "\<not> isl x \<longrightarrow> ?V w' = spec_remove q keys t"
        using remove_blocking[OF r C] by (elim exE conjE)
      have lt: "queues_ok t" using t(1) q l3 others_ok by blast
      have l': "queues_ok (?V w')" using t(2) lt queues_ok_remove by auto
      have o': "others q' (?V w1) (?V w')" if "q' \<in> Q - {q}" for q'
        using t(1,2) that others_trans[OF oth3] others_trans others_remove by (metis DiffE singletonI)
      have gone: "opened (rows q (?V w')) k = None" if "opened (rows q (?V w1)) k = Some row" "\<not> isl x" for k row
        using t(3) that keys by (auto simp: rows_spec_remove restrict_map_def)
      show ?thesis using st l' o' gone arch3 blocking_archive[OF r] by auto
    qed
  qed
qed

text \<open>A drain, with what it found and what it left.\<close>

lemma drain_run:
  assumes "drain_part_sheet_queue rt CH D q skip w = (x, w')" and C: "cache_redb (db_cache D) = R"
    and q: "q \<in> Q" and lines: "queues_ok (view (store w))"
  shows "archive w \<subseteq> archive w' \<and> queues_ok (view (store w')) \<and>
     (\<forall>q'\<in>Q - {q}. others q' (view (store w)) (view (store w'))) \<and>
     (\<forall>k row. opened (rows q (view (store w))) k = Some row \<longrightarrow>
        (if isl x then opened (rows q (view (store w'))) k = Some row \<or> settled archive (insert_query D q) row w'
         else opened (rows q (view (store w'))) k = None \<and> settled archive (insert_query D q) row w'))"
proof -
  let ?V = "\<lambda>w. view (store w)"
  obtain b w1 where b: "blocking rt GetBatchTask GetBatchFailed (\<lambda>_. get_queue_batch (db_cache D) q) w = (b, w1)"
    by fastforce
  have oth1: "others q' (?V w) (?V w1)" if "q' \<in> Q" for q'
    by (rule blocking_read_others[OF b that]) (rule get_queue_batch_view[OF _ C])
  note arch1 = blocking_archive[OF b]
  have l1: "queues_ok (?V w1)" using others_ok[OF oth1[OF q] lines] .
  show ?thesis
  proof (cases b)
    case (Inl f)
    then show ?thesis using assms(1) b oth1 arch1 l1 others_row[OF oth1[OF q] lines]
      by (auto simp: drain_part_sheet_queue_def act_bind_def)
  next
    case (Inr kb)
    obtain keys body where kb: "kb = (keys, body)" by (cases kb)
    note batch = batch_blocking[OF b[unfolded Inr kb] C l1]
    show ?thesis
    proof (cases "skip \<and> keys = []")
      case True
      then have "x = Inr ()" "w' = w1" using assms(1) b Inr kb
        by (auto simp: drain_part_sheet_queue_def act_bind_def)
      moreover have "opened (rows q (?V w)) k = None" for k
        using True batch(1) others_row[OF oth1[OF q] lines, where k = k] by (cases "opened (rows q (?V w)) k") auto
      ultimately show ?thesis using oth1 arch1 l1 by auto
    next
      case False
      then have rest: "act_bind (act_call Insert (ch_send CH (new_inserter D q body) body)) (\<lambda>ins.
         act_bind (act_call Insert (ch_end CH ins)) (\<lambda>_.
         blocking rt RemoveQueuedTask RemoveQueued (\<lambda>_. remove_entries (db_cache D) q keys))) w1 = (x, w')"
        using assms(1) b Inr kb unfolding drain_part_sheet_queue_def
        by (simp only: act_bind_step prod.case if_False)
      note ir = insert_and_remove[OF rest C q l1 batch]
      have "others q' (?V w) (?V w')" if "q' \<in> Q - {q}" for q'
        using that oth1 ir others_trans by blast
      moreover have "if isl x then opened (rows q (?V w')) k = Some row \<or> settled archive (insert_query D q) row w'
           else opened (rows q (?V w')) k = None \<and> settled archive (insert_query D q) row w'"
        if "opened (rows q (?V w)) k = Some row" for k row
        using ir others_row[OF oth1[OF q] lines that] by blast
      ultimately show ?thesis using ir subset_trans[OF arch1] by blast
    qed
  qed
qed

lemma kept_refl [simp]: "kept view archive D w w"
  by (simp add: kept_def)

lemma kept_trans: "kept view archive D w w1 \<Longrightarrow> kept view archive D w1 w2 \<Longrightarrow> archive w1 \<subseteq> archive w2 \<Longrightarrow> kept view archive D w w2"
  unfolding kept_def using settled_mono by blast

lemma others_kept:
  "(\<And>q. others q (view (store w)) (view (store w'))) \<Longrightarrow> queues_ok (view (store w)) \<Longrightarrow> kept view archive D w w'"
  unfolding kept_def using others_row by blast

lemma drain_kept:
  assumes "drain_part_sheet_queue rt CH D q skip w = (x, w')" and "cache_redb (db_cache D) = R"
    and Q: "Q = UNIV" and "queues_ok (view (store w))"
  shows "kept view archive D w w' \<and> archive w \<subseteq> archive w' \<and> queues_ok (view (store w')) \<and>
    (\<not> isl x \<longrightarrow> (\<forall>k row. opened (rows q (view (store w))) k = Some row \<longrightarrow> settled archive (insert_query D q) row w'))"
proof -
  have run: "archive w \<subseteq> archive w' \<and> queues_ok (view (store w')) \<and>
     (\<forall>q'\<in>Q - {q}. others q' (view (store w)) (view (store w'))) \<and>
     (\<forall>k row. opened (rows q (view (store w))) k = Some row \<longrightarrow>
        (if isl x then opened (rows q (view (store w'))) k = Some row \<or> settled archive (insert_query D q) row w'
         else opened (rows q (view (store w'))) k = None \<and> settled archive (insert_query D q) row w'))"
    by (rule drain_run[OF assms(1,2) _ assms(4)]) (simp add: Q)
  have "opened (rows q' (view (store w'))) k = Some row \<or> settled archive (insert_query D q') row w'"
    if "opened (rows q' (view (store w))) k = Some row" for q' k row
  proof (cases "q' = q")
    case True
    then show ?thesis using run that by (metis (mono_tags))
  next
    case False
    then have "others q' (view (store w)) (view (store w'))" using run Q by blast
    then show ?thesis using others_row assms(4) that by blast
  qed
  then show ?thesis using run unfolding kept_def by (metis (mono_tags))
qed

lemma tick_kept:
  assumes "drain_tick rt CH D skip w = (gp, w')" and C: "cache_redb (db_cache D) = R"
    and Q: "Q = UNIV" and l: "queues_ok (view (store w))"
  shows "kept view archive D w w' \<and> archive w \<subseteq> archive w' \<and> queues_ok (view (store w')) \<and>
    (first_status gp \<longrightarrow> (\<forall>q k row. opened (rows q (view (store w))) k = Some row \<longrightarrow> settled archive (insert_query D q) row w'))"
proof -
  obtain g w1 where g: "drain_part_sheet_queue rt CH D General skip w = (g, w1)" by fastforce
  obtain p w2 where p: "drain_part_sheet_queue rt CH D Operation skip w1 = (p, w2)" by fastforce
  have e: "gp = (g, p)" "w' = w2" using assms(1) g p by (simp_all add: drain_tick_def)
  note 1 = drain_kept[OF g C Q l]
  note 2 = drain_kept[OF p C Q conjunct1[OF conjunct2[OF conjunct2[OF 1]]]]
  have "settled archive (insert_query D q) row w'"
    if "first_status gp" "opened (rows q (view (store w))) k = Some row" for q k row
  proof (cases q)
    case General
    then have "settled archive (insert_query D q) row w1" using 1 that e by (simp add: first_status_def)
    then show ?thesis using settled_mono 2 e by blast
  next
    case Operation
    then have "opened (rows Operation (view (store w1))) k = Some row \<or> settled archive (insert_query D q) row w1"
      using 1 that(2) unfolding kept_def by blast
    then show ?thesis
    proof
      assume "opened (rows Operation (view (store w1))) k = Some row"
      then show ?thesis using 2 that e Operation by (simp add: first_status_def)
    next
      assume "settled archive (insert_query D q) row w1"
      then show ?thesis using settled_mono 2 e by blast
    qed
  qed
  then show ?thesis using 1 2 e kept_trans[of D w w1 w2] by auto
qed

lemma task_kept:
  assumes report: "\<And>b w ok w'. report b w = (ok, w') \<Longrightarrow>
      archive w \<subseteq> archive w' \<and> (\<forall>q. others q (view (store w)) (view (store w')))"
    and C: "cache_redb (db_cache D) = R" and Q: "Q = UNIV"
  shows "queues_ok (view (store w)) \<Longrightarrow> drain_part_sheets_task rt CH D report first_run n w = (x, w') \<Longrightarrow>
    kept view archive D w w' \<and> archive w \<subseteq> archive w' \<and> queues_ok (view (store w'))"
proof (induction n arbitrary: w first_run)
  case 0
  then show ?case by simp
next
  case (Suc n)
  obtain gp w1 where t: "drain_tick rt CH D (\<not> first_run) w = (gp, w1)" by fastforce
  note 1 = tick_kept[OF t C Q Suc.prems(1)]
  show ?case
  proof (cases first_run)
    case False
    then have "drain_part_sheets_task rt CH D report False n w1 = (x, w')" using Suc.prems(2) t by simp
    then show ?thesis using Suc.IH[of w1 False] 1 kept_trans by blast
  next
    case True
    obtain ok w2 where r: "report (first_status gp) w1 = (ok, w2)" by fastforce
    have k2: "kept view archive D w w2" "archive w \<subseteq> archive w2" "queues_ok (view (store w2))"
      using 1 report[OF r] others_kept[of w1 w2 D] kept_trans[of D w w1 w2] by (auto simp: others_def)
    show ?thesis
    proof (cases ok)
      case False
      then show ?thesis using Suc.prems(2) t r True k2 by simp
    next
      case ok: True
      then have "drain_part_sheets_task rt CH D report False n w2 = (x, w')" using Suc.prems(2) t r True by simp
      then show ?thesis using Suc.IH[of w2 False] k2 kept_trans by blast
    qed
  qed
qed

lemma task_report: "drain_part_sheets_task rt CH D report False n w = drain_part_sheets_task rt CH D (\<lambda>_ v. (True, v)) False n w"
  by (induction n arbitrary: w) (simp_all split: prod.splits)

text \<open>A row that is queued before some ticks, whatever they do, is archived after a successful one.\<close>

lemma archived_after_tick:
  assumes "drain_part_sheets_task rt CH D report False n w = (x, w1)" and "drain_tick rt CH D skip w1 = (gp, w2)"
    and "first_status gp" and C: "cache_redb (db_cache D) = R" and Q: "Q = UNIV" and ok: "queues_ok (view (store w))"
    and "opened (rows q (view (store w))) k = Some row"
  shows "settled archive (insert_query D q) row w2"
proof -
  have k: "kept view archive D w w1 \<and> archive w \<subseteq> archive w1 \<and> queues_ok (view (store w1))"
    by (rule task_kept[OF _ C Q ok assms(1)[unfolded task_report[of D report]]]) simp
  note t = tick_kept[OF assms(2) C Q conjunct2[OF conjunct2[OF k]]]
  from k assms(7) consider "opened (rows q (view (store w1))) k = Some row" | "settled archive (insert_query D q) row w1"
    unfolding kept_def by blast
  then show ?thesis using t assms(3) settled_mono by cases blast+
qed

end

section \<open>An archive in memory\<close>

text \<open>The surroundings are the list of inserted bodies; no call fails and no other task runs.\<close>

type_synonym ex_world = "((str \<times> str) list, mem_db) world"

definition ex_rt :: "((str \<times> str) list, mem_db) runtime" where
  "ex_rt = \<lparr>until_run = (\<lambda>w. (None, w))\<rparr>"

definition ex_client :: ch_client where
  "ex_client = \<lparr>ch_url = [], ch_user = [], ch_password = [], ch_database = [], ch_compression = True\<rparr>"

definition ex_clickhouse :: "((str \<times> str) list, mem_db) clickhouse" where
  "ex_clickhouse = \<lparr>ch_default = ex_client,
     ch_send = (\<lambda>i b w. (Inr (i\<lparr>ins_sent := ins_sent i @ b\<rparr>), w)),
     ch_end = (\<lambda>i w. (Inr (), World ((ins_query i, ins_sent i) # surroundings w) (store w)))\<rparr>"

definition ex_db :: "(mem_db, mem_write, mem_read) trace_database" where
  "ex_db = \<lparr>client = ex_client, db_cache = ex_cache, general_table = lit ''g'', operation_table = lit ''o''\<rparr>"

interpretation exdrain: drain_world mem_redb "mem_view \<circ> db_tables" "mem_view \<circ> mw_now" "mem_view \<circ> mw_base"
  "mem_view \<circ> mr_tables" ex_rt ex_clickhouse "\<lambda>w. set (surroundings w)" UNIV
  by unfold_locales (auto simp: ex_rt_def ex_clickhouse_def)

text \<open>The first queued row and the drain that archives it.\<close>

definition ex_queued :: mem where
  "ex_queued = ex_mem\<lparr>m_seqs := Some (RBT.insert () 0 RBT.empty), m_general := Some (RBT.insert 0 [65] RBT.empty)\<rparr>"

lemma ex_queued_rows: "opened (rows General (mem_view ex_queued)) = [0 \<mapsto> [65]]"
  "queues_ok (mem_view ex_queued)"
  by (simp_all add: ex_queued_def mem_view_def queues_ok_def queue_inv_def next_seq_def lines_ok_def queue_table_all ex_mem_def)

lemmas ex_drain_run =
  drain_part_sheet_queue_def blocking_def ex_rt_def ex_clickhouse_def get_queue_batch_def
  table_definition_def mem_run batch_of_def entries_single new_inserter_def remove_entries_def ex_db_def

text \<open>C4. A drain never loses a row: whatever fails (a task, the cache, the insertion, the removal), and
  whatever other tasks do meanwhile, a row queued when it starts, in well-formed queues, is still queued when it ends
  or is in the archive; when the drain succeeds the row is in the archive and no longer queued.\<close>

theorem drain_never_loses:
  assumes "drain_world R view wview wbase rview rt CH archive Q" and "q \<in> Q"
    and "cache_redb (db_cache D) = R" and "queues_ok (view (store w))"
    and "drain_part_sheet_queue rt CH D q skip w = (x, w')"
    and "opened (rows q (view (store w))) k = Some row"
  shows "if isl x then opened (rows q (view (store w'))) k = Some row \<or> settled archive (insert_query D q) row w'
     else opened (rows q (view (store w'))) k = None \<and> settled archive (insert_query D q) row w'"
  using drain_world.drain_run[OF assms(1,5,3,2,4)] assms(6) by blast

theorem drain_never_loses_witness:
  "\<exists>w'. drain_part_sheet_queue ex_rt ex_clickhouse ex_db General True (World [] (MemDb ex_queued [])) = (Inr (), w') \<and>
     settled (\<lambda>w. set (surroundings w)) (insert_query ex_db General) [65] w'"
proof -
  let ?w = "World [] (MemDb ex_queued []) :: ex_world"
  have ok: "\<not> isl (fst (drain_part_sheet_queue ex_rt ex_clickhouse ex_db General True ?w))"
    by (simp add: ex_drain_run ex_queued_def)
  obtain u w' where r: "drain_part_sheet_queue ex_rt ex_clickhouse ex_db General True ?w = (Inr u, w')"
    using ok by (cases "drain_part_sheet_queue ex_rt ex_clickhouse ex_db General True ?w"; cases "fst (drain_part_sheet_queue ex_rt ex_clickhouse ex_db General True ?w)") auto
  have "settled (\<lambda>w. set (surroundings w)) (insert_query ex_db General) [65] w'"
    using drain_never_loses[OF exdrain.drain_world_axioms _ _ _ r, of 0 "[65]"] ex_queued_rows
    by (simp add: ex_db_def)
  then show ?thesis using r by auto
qed





end
