(* ===== verification/Ua_Session.thy ===== *)
theory Ua_Session
  imports Ua_Values
begin

text \<open>
  The OPC-UA session a machine is reached through.  Its services belong to the \<^verbatim>\<open>opcua\<close> crate and
  act on the server: they are the operations of the record \<open>session\<close>, on a server state of
  any type.  On top of them, the checked write of \<^verbatim>\<open>src/opcua/session_ext.rs\<close>.
\<close>

datatype ua_error = UaError status_code

datatype write_value = WriteValue (wv_node: node_id) (wv_value: variant)

record browse_item =
  br_status :: status_code
  br_references :: "(node_id \<times> str option) list"  \<comment> \<open>target node and browse name\<close>

text \<open>
  A browse request: the references to follow from a node, which nodes to return, and which of their
  fields (the masks are bit sets of OPC-UA Part 4); times are in nanoseconds.
\<close>

datatype browse_direction = Forward | Inverse | BothDirections

record browse_description =
  bd_node :: node_id
  bd_direction :: browse_direction
  bd_reference_type :: node_id
  bd_include_subtypes :: bool
  bd_node_class_mask :: u32
  bd_result_mask :: u32

record retry_policy =
  rp_max_sleep :: nat
  rp_max_retries :: "nat option"
  rp_initial_sleep :: nat

record 's session =
  ua_read :: "node_id list \<Rightarrow> 's \<Rightarrow> (ua_error + data_value list) \<times> 's"
  ua_write :: "write_value list \<Rightarrow> 's \<Rightarrow> (ua_error + status_code list) \<times> 's"
  ua_namespace_index :: "str \<Rightarrow> 's \<Rightarrow> (ua_error + u16) \<times> 's"
  ua_browse :: "retry_policy \<Rightarrow> browse_description \<Rightarrow> 's \<Rightarrow> (ua_error + browse_item) list \<times> 's"

section \<open>Checked writes\<close>

datatype write_error = WriteRequest ua_error | WriteStatus status_code node_id

definition check_write_results ::
    "ua_types \<Rightarrow> write_value list \<Rightarrow> status_code list \<Rightarrow> (write_error, unit) res" where
  "check_write_results ua nodes_to_write results =
     (case position (\<lambda>s. \<not> is_good ua s) results of
        Some index \<Rightarrow>
          (if index < length nodes_to_write
           then Inl (Err (WriteStatus (results ! index) (wv_node (nodes_to_write ! index))))
           else Inl (Panic (lit ''index out of bounds'')))
      | None \<Rightarrow> Inr ())"

definition write_checked ::
    "ua_types \<Rightarrow> 's session \<Rightarrow> write_value list \<Rightarrow> ('s, write_error, unit) act" where
  "write_checked ua S nodes_to_write =
     act_bind (act_call WriteRequest (ua_write S nodes_to_write)) (\<lambda>results.
       act_lift (check_write_results ua nodes_to_write results))"

lemma check_write_results_Inr:
  "check_write_results ua ws rs = Inr () \<longleftrightarrow> list_all (is_good ua) rs"
  by (auto simp: check_write_results_def list_all_iff position_None split: option.splits if_splits
      dest: position_SomeD)
    (metis nth_mem position_SomeD)

lemma write_checked_Inr:
  "write_checked ua S ws s = (Inr (), t) \<longleftrightarrow>
     (\<exists>rs. ua_write S ws s = (Inr rs, t) \<and> list_all (is_good ua) rs)"
  by (auto simp: write_checked_def act_bind_eq_Inr act_call_eq_Inr check_write_results_Inr)

lemma write_checked_state: "snd (write_checked ua S ws s) = snd (ua_write S ws s)"
  by (auto simp: write_checked_def act_bind_def act_call_def split: prod.splits sum.splits)

text \<open>The first write whose status is not good is the one reported.\<close>

lemma check_write_results_Err:
  "check_write_results ua ws rs = Inl (Err e) \<longleftrightarrow>
     (\<exists>i<length rs. i < length ws \<and> \<not> is_good ua (rs ! i) \<and> (\<forall>j<i. is_good ua (rs ! j)) \<and>
       e = WriteStatus (rs ! i) (wv_node (ws ! i)))"
proof (cases "position (\<lambda>s. \<not> is_good ua s) rs")
  case None
  then have "list_all (is_good ua) rs" by (simp add: position_None list_all_iff)
  moreover have "check_write_results ua ws rs = Inr ()" using None by (simp add: check_write_results_def)
  ultimately show ?thesis by (simp add: list_all_length)
next
  case (Some i)
  note i = position_SomeD[OF Some]
  have u: "k = i" if "k < length rs" "\<not> is_good ua (rs ! k)" "\<forall>j<k. is_good ua (rs ! j)" for k
    using that i by (metis linorder_neqE_nat)
  show ?thesis using i u Some by (auto simp: check_write_results_def)
qed

lemma check_write_results_no_panic:
  "length rs \<le> length ws \<Longrightarrow> check_write_results ua ws rs \<noteq> Inl (Panic m)"
  by (auto simp: check_write_results_def split: option.splits dest: position_SomeD)

text \<open>A checked write fails for the request itself, or else for the first node whose status is not good,
  with that status and that node; it succeeds only when every status is good.\<close>

theorem write_checked_reports_first:
  assumes "ua_write S ws s = (Inr results, s')" and "length results = length ws"
  shows "(write_checked ua S ws s = (Inr (), s') \<longleftrightarrow> list_all (is_good ua) results) \<and>
    (write_checked ua S ws s = (Inl (Err (WriteStatus status node)), s') \<longleftrightarrow>
      (\<exists>i<length ws. \<not> is_good ua (results ! i) \<and> list_all (is_good ua) (take i results) \<and>
        status = results ! i \<and> node = wv_node (ws ! i)))"
proof -
  have w: "write_checked ua S ws s = (check_write_results ua ws results, s')"
    using assms(1) by (simp add: write_checked_def act_bind_def act_call_def)
  have t: "list_all (is_good ua) (take i results) \<longleftrightarrow> (\<forall>j<i. is_good ua (results ! j))" if "i < length ws" for i
    using that assms(2) by (auto simp: list_all_length)
  show ?thesis
    unfolding w using t assms(2) by (auto simp: check_write_results_Inr check_write_results_Err)
qed

definition ex_refusing :: "unit session" where
  "ex_refusing = \<lparr>ua_read = (\<lambda>_ s. (Inr [], s)), ua_write = (\<lambda>_ s. (Inr [0, 7, 8], s)),
     ua_namespace_index = (\<lambda>_ s. (Inr 0, s)), ua_browse = (\<lambda>_ _ s. ([], s))\<rparr>"

theorem write_checked_reports_first_witness:
  "write_checked \<lparr>is_good = (\<lambda>s. s = 0), type_id_debug = (\<lambda>_. [])\<rparr> ex_refusing (map (\<lambda>i. WriteValue (NodeId 2 (Numeric i)) (VByte 0)) [1, 2, 3]) ()
     = (Inl (Err (WriteStatus 7 (NodeId 2 (Numeric 2)))), ())"
  by (rule iffD2[OF conjunct2[OF write_checked_reports_first[where results = "[0, 7, 8]"]]])
    (auto simp: ex_refusing_def intro!: exI[of _ 1])

end
