(* ===== verification/Trace_Handler.thy ===== *)
theory Trace_Handler
  imports Part_Id Ua_Session Trace_Cache Gw_Config Async_World
begin

text \<open>
  The traceability handler of one machine, \<^verbatim>\<open>src/traceability/handler\<close>, and the time provider of
  \<^verbatim>\<open>src/time.rs\<close>: initialization, the three requests, their response codes, and the tasks that
  the installation starts.
\<close>

section \<open>Time\<close>

text \<open>A time zone is the conversion of a timestamp to a zoned time.\<close>

record ('x, 't, 'z) time_provider =
  clock :: "'x \<Rightarrow> 't"
  tz :: "'t \<Rightarrow> 'z"

text \<open>\<open>into\<close> turns what the constructor is given into a clock.\<close>

definition time_provider_new :: "('c \<Rightarrow> 'x \<Rightarrow> 't) \<Rightarrow> 'c \<Rightarrow> ('t \<Rightarrow> 'z) \<Rightarrow> ('x, 't, 'z) time_provider" where
  "time_provider_new into c zone = \<lparr>clock = into c, tz = zone\<rparr>"

definition now :: "('x, 't, 'z) time_provider \<Rightarrow> 'x \<Rightarrow> 't" where
  "now P w = clock P w"

definition now_zoned :: "('x, 't, 'z) time_provider \<Rightarrow> 'x \<Rightarrow> 'z" where
  "now_zoned P w = tz P (now P w)"

section \<open>The handler\<close>

text \<open>The libraries the handler calls, and what it reads from the surroundings.\<close>

record ('s, 'db, 'c, 'd, 't, 'z) handler_env =
  env_nd :: "uchar \<Rightarrow> bool"
  env_dates :: "'d dates"
  env_codec :: "'c codec"
  env_ua :: ua_types
  env_row :: "'t row_lib"
  env_rt :: "('s, 'db) runtime"
  zoned_date :: "'z \<Rightarrow> 'd"
  ua_context :: "('s, 'db) world \<Rightarrow> 'c"
  timestamp_now :: "('s, 'db) world \<Rightarrow> 't"

record protocol_context =
  request_node :: node_id
  response_node :: node_id
  heartbeat_node :: node_id

record general_context =
  general_ns :: u16
  general_nodes :: "(u32 \<times> str) list"
  part_id_index :: nat

record operation_context =
  operation_ns :: u16
  operation_nodes :: "(u32 \<times> str) list"

record handler_context =
  protocol :: protocol_context
  general_part_sheet :: general_context
  operation_part_sheet :: operation_context

text \<open>\<open>'st\<close> is the type state: \<open>unit\<close> before the initialization, \<open>handler_context\<close> after it.\<close>

record ('s, 'db, 'w, 'r, 't, 'z, 'st) handler =
  server_id :: str
  common_opcua :: common_opc_ua_config
  machine_conf :: machine_traceability_config
  ua_session :: "('s, 'db) world session"
  cache :: "('db, 'w, 'r) trace_cache"
  time_of :: "(('s, 'db) world, 't, 'z) time_provider"
  state :: 'st

definition handler_new ::
    "str \<Rightarrow> common_opc_ua_config \<Rightarrow> machine_traceability_config \<Rightarrow> ('s, 'db) world session
      \<Rightarrow> ('db, 'w, 'r) trace_cache \<Rightarrow> (('s, 'db) world, 't, 'z) time_provider
      \<Rightarrow> ('s, 'db, 'w, 'r, 't, 'z, unit) handler"
where
  "handler_new sid common machine session c tp =
     \<lparr>server_id = sid, common_opcua = common, machine_conf = machine, ua_session = session,
      cache = c, time_of = tp, state = ()\<rparr>"

section \<open>Browsing a part sheet\<close>

datatype browse_error =
    BrowseNodes ua_error
  | BrowseResultStatus status_code
  | NullBrowseName node_id
  | EmptyBrowse
  | ReadRequest ua_error
  | ValuesCount nat nat
  | InvalidDataValue try_from_error str
  | NotSerializable json_error str
  | NodeIdentifier ua_identifier

fun browse_references :: "(node_id \<times> str option) list \<Rightarrow> (browse_error, (node_id \<times> str) list) res" where
  "browse_references [] = Inr []"
| "browse_references ((node, browse_name) # refs) =
     (case browse_name of
        None \<Rightarrow> Inl (Err (NullBrowseName node))
      | Some name \<Rightarrow> res_bind (browse_references refs) (\<lambda>ns. Inr ((node, name) # ns)))"

fun browse_items :: "ua_types \<Rightarrow> (ua_error + browse_item) list \<Rightarrow> (browse_error, (node_id \<times> str) list) res" where
  "browse_items ua [] = Inr []"
| "browse_items ua (Inl e # items) = Inl (Err (BrowseNodes e))"
| "browse_items ua (Inr item # items) =
     (if \<not> is_good ua (br_status item) then Inl (Err (BrowseResultStatus (br_status item)))
      else res_bind (browse_references (br_references item)) (\<lambda>ns.
           res_bind (browse_items ua items) (\<lambda>ms. Inr (ns @ ms))))"

fun check_values ::
    "ua_types \<Rightarrow> json_lib \<Rightarrow> data_value list \<Rightarrow> (node_id \<times> str) list \<Rightarrow> (browse_error, unit) res" where
  "check_values ua F (v # vs) ((_, name) # ns) =
     res_bind (of_sum (\<lambda>e. InvalidDataValue e name) (try_into_variant ua v)) (\<lambda>variant.
     res_bind (of_sum (\<lambda>e. NotSerializable e name) (json_of (json_to_value F) (serialize_variant ua variant))) (\<lambda>_.
     check_values ua F vs ns))"
| "check_values ua F _ _ = Inr ()"

definition numeric_node :: "node_id \<times> str \<Rightarrow> (browse_error, u32 \<times> str) res" where
  "numeric_node nn = (case nn of (NodeId _ (Numeric i), name) \<Rightarrow> Inr (i, name)
     | (NodeId _ other, _) \<Rightarrow> Inl (Err (NodeIdentifier other)))"

definition browse_retries :: retry_policy where
  "browse_retries = \<lparr>rp_max_sleep = seconds 5, rp_max_retries = Some 3, rp_initial_sleep = 500000000\<rparr>"

text \<open>
  The variables that the forward \<^verbatim>\<open>HasProperty\<close> references (node 46 of the standard namespace) of a
  node lead to; the masks are those of the node class \<^verbatim>\<open>Variable\<close> and of the field \<^verbatim>\<open>BrowseName\<close>.
\<close>

definition properties_of :: "node_id \<Rightarrow> browse_description" where
  "properties_of root_node_id =
     \<lparr>bd_node = root_node_id, bd_direction = Forward, bd_reference_type = NodeId 0 (Numeric 46),
      bd_include_subtypes = False, bd_node_class_mask = 2, bd_result_mask = 8\<rparr>"

definition browse_part_sheet ::
    "('s, 'db, 'c, 'd, 't, 'z) handler_env \<Rightarrow> ('s, 'db, 'w, 'r, 't, 'z, unit) handler \<Rightarrow> node_id
      \<Rightarrow> (('s, 'db) world, browse_error, (u32 \<times> str) list) act"
where
  "browse_part_sheet E H root_node_id = (\<lambda>w.
     case ua_browse (ua_session H) browse_retries (properties_of root_node_id) w of (items, w1) \<Rightarrow>
       act_bind (act_lift (browse_items (env_ua E) items)) (\<lambda>browsed_nodes.
       act_bind (act_lift (ensure (browsed_nodes \<noteq> []) EmptyBrowse)) (\<lambda>_.
       act_bind (act_call ReadRequest (ua_read (ua_session H) (map fst browsed_nodes))) (\<lambda>values.
       act_bind (act_lift (ensure (length values = length browsed_nodes)
          (ValuesCount (length browsed_nodes) (length values)))) (\<lambda>_.
       act_bind (act_lift (check_values (env_ua E) (json_lib_of (env_row E)) values browsed_nodes)) (\<lambda>_.
       act_lift (collect numeric_node browsed_nodes)))))) w1)"

section \<open>Initialization\<close>

datatype initialize_error =
    GetCommonNamespaceIndex ua_error
  | BrowseGeneralPartSheet browse_error
  | NoPartIdNode
  | GetOperationNamespaceIndex ua_error
  | BrowseOperationPartSheet browse_error

definition make_context ::
    "common_opc_ua_config \<Rightarrow> u16 \<Rightarrow> (u32 \<times> str) list \<Rightarrow> nat \<Rightarrow> u16 \<Rightarrow> (u32 \<times> str) list \<Rightarrow> handler_context" where
  "make_context cfg common_ns gnodes pidx oper_ns onodes =
     \<lparr>protocol = \<lparr>request_node = NodeId common_ns (Numeric (request_nid cfg)),
                  response_node = NodeId common_ns (Numeric (response_nid cfg)),
                  heartbeat_node = NodeId common_ns (Numeric (heartbeat_nid cfg))\<rparr>,
      general_part_sheet = \<lparr>general_ns = common_ns, general_nodes = gnodes, part_id_index = pidx\<rparr>,
      operation_part_sheet = \<lparr>operation_ns = oper_ns, operation_nodes = onodes\<rparr>\<rparr>"

definition with_state :: "('s, 'db, 'w, 'r, 't, 'z, 'st) handler \<Rightarrow> 'st2 \<Rightarrow> ('s, 'db, 'w, 'r, 't, 'z, 'st2) handler" where
  "with_state H st = \<lparr>server_id = server_id H, common_opcua = common_opcua H, machine_conf = machine_conf H,
     ua_session = ua_session H, cache = cache H, time_of = time_of H, state = st\<rparr>"

definition initialize ::
    "('s, 'db, 'c, 'd, 't, 'z) handler_env \<Rightarrow> ('s, 'db, 'w, 'r, 't, 'z, unit) handler
      \<Rightarrow> (('s, 'db) world, initialize_error, ('s, 'db, 'w, 'r, 't, 'z, handler_context) handler) act"
where
  "initialize E H =
     (let cfg = common_opcua H; mcfg = machine_opc_ua (machine_conf H) in
      act_bind (act_call GetCommonNamespaceIndex (ua_namespace_index (ua_session H) (namespace_url cfg))) (\<lambda>common_ns.
      act_bind (act_map_err BrowseGeneralPartSheet
        (browse_part_sheet E H (NodeId common_ns (Numeric (general_part_sheet_nid cfg))))) (\<lambda>gnodes.
      act_bind (act_lift (ok_or NoPartIdNode (position (\<lambda>(node, _). node = part_id_nid cfg) gnodes))) (\<lambda>pidx.
      act_bind (act_call GetOperationNamespaceIndex
        (ua_namespace_index (ua_session H) (operation_namespace_url mcfg))) (\<lambda>oper_ns.
      act_bind (act_map_err BrowseOperationPartSheet
        (browse_part_sheet E H (NodeId oper_ns (Numeric (operation_part_sheet_nid mcfg))))) (\<lambda>onodes.
      act_lift (Inr (with_state H (make_context cfg common_ns gnodes pidx oper_ns onodes)))))))))"

section \<open>Creating a part identifier\<close>

datatype create_error =
    NotConfigured
  | ReadVariables ua_error
  | CreateReadLength nat nat
  | PartRefValue try_from_error
  | BatchValue try_from_error
  | NextSerialFailed redb_error
  | NextSerialTask join_error
  | PartIdentifier part_id_error
  | WritePartId write_error

definition exactly_two :: "'a list \<Rightarrow> (nat \<Rightarrow> 'e) \<Rightarrow> ('e, 'a \<times> 'a) res" where
  "exactly_two xs e = (case xs of [x, y] \<Rightarrow> Inr (x, y) | _ \<Rightarrow> Inl (Err (e (length xs))))"

type_synonym ('s, 'db, 'w, 'r, 't, 'z) ready_handler = "('s, 'db, 'w, 'r, 't, 'z, handler_context) handler"

definition general_node :: "('s, 'db, 'w, 'r, 't, 'z) ready_handler \<Rightarrow> u32 \<Rightarrow> node_id" where
  "general_node H i = NodeId (general_ns (general_part_sheet (state H))) (Numeric i)"

text \<open>The reads and the serial number, up to the identifier to write.\<close>

definition new_part_id ::
    "('s, 'db, 'c, 'd, 't, 'z) handler_env \<Rightarrow> ('s, 'db, 'w, 'r, 't, 'z) ready_handler
      \<Rightarrow> (('s, 'db) world, create_error, str) act"
where
  "new_part_id E H =
     (let cfg = common_opcua H; ua = env_ua E in
      act_bind (act_lift (ok_or NotConfigured (line_id_of (machine_conf H)))) (\<lambda>line_id.
      act_bind (act_call ReadVariables (ua_read (ua_session H)
          [general_node H (raw_part_ref_nid cfg), general_node H (raw_batch_nid cfg)])) (\<lambda>values.
      act_bind (act_lift (exactly_two values (CreateReadLength 2))) (\<lambda>(part_ref_value, batch_value).
      act_bind (act_lift (of_sum PartRefValue (try_ua_value_as ua (string_from_variant ua) part_ref_value))) (\<lambda>part_ref.
      act_bind (act_lift (of_sum BatchValue (try_ua_value_as ua (ascii_from_variant ua 2) batch_value))) (\<lambda>batch.
      act_bind (\<lambda>w. (Inr (zoned_date E (now_zoned (time_of H) w)), w)) (\<lambda>today.
      act_bind (blocking (env_rt E) NextSerialTask NextSerialFailed
          (\<lambda>_. next_serial (env_dates E) (cache H) today)) (\<lambda>serial.
      act_lift (of_sum PartIdentifier
          (create_part_identifier (env_nd E) (env_dates E) part_ref batch line_id today serial))))))))))"

definition create_part_id ::
    "('s, 'db, 'c, 'd, 't, 'z) handler_env \<Rightarrow> ('s, 'db, 'w, 'r, 't, 'z) ready_handler
      \<Rightarrow> (('s, 'db) world, create_error, unit) act"
where
  "create_part_id E H =
     act_bind (new_part_id E H) (\<lambda>part_id.
       act_map_err WritePartId (write_checked (env_ua E) (ua_session H)
         [WriteValue (general_node H (part_id_nid (common_opcua H))) (VString (Some part_id))]))"

section \<open>Reading a part sheet\<close>

datatype read_error =
    ReadPartId ua_error
  | ReadPartIdValue try_from_error
  | CacheGet get_error
  | CacheGetTask join_error
  | CacheMissing str
  | WritePartSheet write_error

definition exactly_one :: "str \<Rightarrow> 'a list \<Rightarrow> ('e, 'a) res" where
  "exactly_one m xs = (case xs of [x] \<Rightarrow> Inr x | _ \<Rightarrow> Inl (Panic m))"

definition read_writes :: "('s, 'db, 'w, 'r, 't, 'z) ready_handler \<Rightarrow> (u32 \<times> variant) list \<Rightarrow> write_value list" where
  "read_writes H part_sheet =
     map (\<lambda>(i, val). WriteValue (general_node H i) val)
       (filter (\<lambda>(i, val). list_all (\<lambda>x. x \<noteq> i) (excluded_read_nids (common_opcua H))) part_sheet)"

text \<open>The part sheet to write back, with the part identifier it was looked up for.\<close>

definition cached_part_sheet ::
    "('s, 'db, 'c, 'd, 't, 'z) handler_env \<Rightarrow> ('s, 'db, 'w, 'r, 't, 'z) ready_handler
      \<Rightarrow> (('s, 'db) world, read_error, ascii_text \<times> (u32 \<times> variant) list) act"
where
  "cached_part_sheet E H =
     (let cfg = common_opcua H; ua = env_ua E in
      act_bind (act_call ReadPartId (ua_read (ua_session H) [general_node H (part_id_nid cfg)])) (\<lambda>values.
      act_bind (act_lift (exactly_one (lit ''read values vector should have the expected size'') values)) (\<lambda>part_id_value.
      act_bind (act_lift (of_sum ReadPartIdValue (try_ua_value_as ua (ascii_from_variant ua 23) part_id_value))) (\<lambda>part_id.
      act_bind (blocking (env_rt E) CacheGetTask CacheGet
          (\<lambda>w. get_general_part_sheet (env_codec E) (cache H) (as_str part_id) (ua_context E w))) (\<lambda>from_cache.
      act_bind (act_lift (ok_or (CacheMissing (ascii_fmt part_id)) from_cache)) (\<lambda>part_sheet.
      act_lift (Inr (part_id, part_sheet))))))))"

definition handle_read ::
    "('s, 'db, 'c, 'd, 't, 'z) handler_env \<Rightarrow> ('s, 'db, 'w, 'r, 't, 'z) ready_handler
      \<Rightarrow> (('s, 'db) world, read_error, unit) act"
where
  "handle_read E H =
     act_bind (cached_part_sheet E H) (\<lambda>(part_id, part_sheet).
       act_map_err WritePartSheet (write_checked (env_ua E) (ua_session H) (read_writes H part_sheet)))"

section \<open>Saving part sheets\<close>

datatype handle_save_error =
    ReadPartSheets ua_error
  | SaveReadLength nat nat
  | PartSheetValue try_from_error str
  | SavePartIdValue try_from_error
  | InvalidPartId part_id_error str
  | CacheSave save_error
  | CacheSaveTask join_error
  | Enqueuing check_error

definition save_node_ids :: "('s, 'db, 'w, 'r, 't, 'z) ready_handler \<Rightarrow> node_id list" where
  "save_node_ids H =
     (let g = general_part_sheet (state H); p = operation_part_sheet (state H) in
      map (\<lambda>(i, _). NodeId (general_ns g) (Numeric i)) (general_nodes g)
      @ map (\<lambda>(i, _). NodeId (operation_ns p) (Numeric i)) (operation_nodes p))"

definition named_nodes :: "('s, 'db, 'w, 'r, 't, 'z) ready_handler \<Rightarrow> (u32 \<times> str) list" where
  "named_nodes H = general_nodes (general_part_sheet (state H)) @ operation_nodes (operation_part_sheet (state H))"

definition sheet_item :: "ua_types \<Rightarrow> (u32 \<times> str) \<times> data_value \<Rightarrow> (handle_save_error, saved_item) res" where
  "sheet_item ua nv = (case nv of ((i, name), val) \<Rightarrow>
     res_bind (of_sum (\<lambda>e. PartSheetValue e name) (try_into_variant ua val)) (\<lambda>variant. Inr (i, name, variant)))"

text \<open>The part identifier and the two part sheets read from the machine.\<close>

definition read_part_sheets ::
    "('s, 'db, 'c, 'd, 't, 'z) handler_env \<Rightarrow> ('s, 'db, 'w, 'r, 't, 'z) ready_handler
      \<Rightarrow> (('s, 'db) world, handle_save_error, ascii_text \<times> saved_item list \<times> saved_item list) act"
where
  "read_part_sheets E H =
     (let ua = env_ua E; g = general_part_sheet (state H) in
      act_bind (act_call ReadPartSheets (ua_read (ua_session H) (save_node_ids H))) (\<lambda>read_values.
      act_bind (act_lift (ensure (length read_values = length (save_node_ids H))
          (SaveReadLength (length (save_node_ids H)) (length read_values)))) (\<lambda>_.
      act_bind (act_lift (collect (sheet_item ua) (zip (named_nodes H) read_values))) (\<lambda>part_sheets.
      act_bind (act_lift (expect (lit ''an element should exist at the part identifier index position'')
          (if part_id_index g < length part_sheets then Some (item_value (part_sheets ! part_id_index g))
           else None))) (\<lambda>part_id_variant.
      act_bind (act_lift (of_sum SavePartIdValue (ascii_from_variant ua 23 part_id_variant))) (\<lambda>part_id.
      act_bind (act_lift (of_sum (\<lambda>e. InvalidPartId e (ascii_fmt part_id))
          (validate_part_identifier (env_dates E) part_id))) (\<lambda>_.
      let n = length (general_nodes g) in
      act_lift (Inr (part_id, take n part_sheets, drop n part_sheets)))))))))"

definition check_enqueuing ::
    "('s, 'db, 'w, 'r, 't, 'z) ready_handler \<Rightarrow> (('s, 'db) world, handle_save_error, unit) act" where
  "check_enqueuing H w = (case check_enqueuing_allowed (cache H) (store w) of (r, db) \<Rightarrow>
     (map_err Enqueuing r, World (surroundings w) db))"

definition handle_save ::
    "('s, 'db, 'c, 'd, 't, 'z) handler_env \<Rightarrow> ('s, 'db, 'w, 'r, 't, 'z) ready_handler
      \<Rightarrow> (('s, 'db) world, handle_save_error, unit) act"
where
  "handle_save E H =
     act_bind (check_enqueuing H) (\<lambda>_.
     act_bind (read_part_sheets E H) (\<lambda>(part_id, general, operation).
     blocking (env_rt E) CacheSaveTask CacheSave (\<lambda>w.
       save_part_sheets (env_codec E) (env_ua E) (env_row E) (cache H) (timestamp_now E w) (server_id H)
         part_id general operation (ua_context E w))))"

section \<open>Handling a request\<close>

definition response_reset :: u8 where
  "response_reset = 0"

definition response_success :: u8 where
  "response_success = 1"

datatype trace_request = Reset | CreatePartId | ReadPartSheet | SavePartSheets

definition request_from_repr :: "u8 \<Rightarrow> trace_request option" where
  "request_from_repr c =
     (if c = 0 then Some Reset else if c = 1 then Some CreatePartId
      else if c = 2 then Some ReadPartSheet else if c = 3 then Some SavePartSheets else None)"

datatype request_error =
    ValueError try_from_error
  | UnknownValue u8
  | CreatePartIdError create_error
  | HandleReadError read_error
  | HandleSaveError handle_save_error

fun to_response_code :: "request_error \<Rightarrow> u8" where
  "to_response_code (ValueError _) = 91"
| "to_response_code (UnknownValue _) = 92"
| "to_response_code (CreatePartIdError NotConfigured) = 11"
| "to_response_code (CreatePartIdError (ReadVariables _)) = 12"
| "to_response_code (CreatePartIdError (CreateReadLength _ _)) = 12"
| "to_response_code (CreatePartIdError (PartRefValue _)) = 13"
| "to_response_code (CreatePartIdError (BatchValue _)) = 14"
| "to_response_code (CreatePartIdError (NextSerialFailed _)) = 15"
| "to_response_code (CreatePartIdError (NextSerialTask _)) = 15"
| "to_response_code (CreatePartIdError (PartIdentifier _)) = 16"
| "to_response_code (CreatePartIdError (WritePartId _)) = 17"
| "to_response_code (HandleReadError (ReadPartId _)) = 21"
| "to_response_code (HandleReadError (ReadPartIdValue _)) = 22"
| "to_response_code (HandleReadError (CacheGet _)) = 23"
| "to_response_code (HandleReadError (CacheGetTask _)) = 23"
| "to_response_code (HandleReadError (CacheMissing _)) = 24"
| "to_response_code (HandleReadError (WritePartSheet _)) = 25"
| "to_response_code (HandleSaveError (ReadPartSheets _)) = 31"
| "to_response_code (HandleSaveError (SaveReadLength _ _)) = 31"
| "to_response_code (HandleSaveError (PartSheetValue _ _)) = 32"
| "to_response_code (HandleSaveError (SavePartIdValue _)) = 33"
| "to_response_code (HandleSaveError (InvalidPartId _ _)) = 33"
| "to_response_code (HandleSaveError (CacheSave _)) = 34"
| "to_response_code (HandleSaveError (CacheSaveTask _)) = 34"
| "to_response_code (HandleSaveError (Enqueuing _)) = 35"

definition handle_request ::
    "('s, 'db, 'c, 'd, 't, 'z) handler_env \<Rightarrow> ('s, 'db, 'w, 'r, 't, 'z) ready_handler \<Rightarrow> data_value
      \<Rightarrow> (('s, 'db) world, request_error, u8) act"
where
  "handle_request E H val =
     act_bind (act_lift (of_sum ValueError (try_ua_value_as (env_ua E) (u8_from_variant (env_ua E)) val))) (\<lambda>request_code.
     act_bind (act_lift (ok_or (UnknownValue request_code) (request_from_repr request_code))) (\<lambda>req.
     case req of
       Reset \<Rightarrow> act_lift (Inr response_reset)
     | CreatePartId \<Rightarrow> act_bind (act_map_err CreatePartIdError (create_part_id E H)) (\<lambda>_.
         act_lift (Inr response_success))
     | ReadPartSheet \<Rightarrow> act_bind (act_map_err HandleReadError (handle_read E H)) (\<lambda>_.
         act_lift (Inr response_success))
     | SavePartSheets \<Rightarrow> act_bind (act_map_err HandleSaveError (handle_save E H)) (\<lambda>_.
         act_lift (Inr response_success))))"

definition is_initial_request_answered ::
    "('s, 'db, 'c, 'd, 't, 'z) handler_env \<Rightarrow> ('s, 'db, 'w, 'r, 't, 'z) ready_handler \<Rightarrow> data_value
      \<Rightarrow> ('s, 'db) world \<Rightarrow> bool \<times> ('s, 'db) world"
where
  "is_initial_request_answered E H val w =
     (let as_u8 = try_ua_value_as (env_ua E) (u8_from_variant (env_ua E)) in
      if (case as_u8 val of Inr c \<Rightarrow> request_from_repr c | Inl _ \<Rightarrow> None) = Some Reset then (False, w)
      else case ua_read (ua_session H) [response_node (protocol (state H))] w of
        (Inl _, w') \<Rightarrow> (True, w')
      | (Inr [response_value], w') \<Rightarrow>
          ((case as_u8 response_value of Inr code \<Rightarrow> code \<noteq> response_reset | Inl _ \<Rightarrow> True), w')
      | (Inr _, w') \<Rightarrow> (True, w'))"

section \<open>Installation\<close>

datatype install_error =
    CreateSubscription ua_error
  | PublishIntervalRaised duration duration
  | CreateMonitoredItems ua_error
  | MonitoredItem node_id status_code

text \<open>The subscription services of the session; \<open>sub_interval\<close> is the revised interval, if known.\<close>

record subscription_request =
  sr_publishing_interval :: duration
  sr_lifetime_count :: u32
  sr_max_keep_alive_count :: u32
  sr_max_notifications :: u32
  sr_priority :: u8
  sr_publishing_enabled :: bool

record 'x subscriptions =
  sub_create :: "subscription_request \<Rightarrow> 'x \<Rightarrow> (ua_error + u32) \<times> 'x"
  sub_interval :: "u32 \<Rightarrow> 'x \<Rightarrow> duration option"
  sub_delete :: "u32 \<Rightarrow> 'x \<Rightarrow> (ua_error + unit) \<times> 'x"
  sub_monitor :: "u32 \<Rightarrow> node_id \<Rightarrow> 'x \<Rightarrow> (ua_error + (node_id \<times> status_code) list) \<times> 'x"

definition delete_and_fail :: "'x subscriptions \<Rightarrow> u32 \<Rightarrow> install_error \<Rightarrow> ('x, install_error, 'a) act" where
  "delete_and_fail S i e w = (case sub_delete S i w of (_, w') \<Rightarrow> (Inl (Err e), w'))"

definition check_monitored :: "ua_types \<Rightarrow> (node_id \<times> status_code) list \<Rightarrow> (install_error, unit) res" where
  "check_monitored ua created =
     (case find (\<lambda>(_, status). \<not> is_good ua status) created of
        Some (node, status) \<Rightarrow> Inl (Err (MonitoredItem node status))
      | None \<Rightarrow> Inr ())"

text \<open>
  The tasks that \<^verbatim>\<open>install\<close> spawns, with the node each one writes and the period of the heartbeat;
  their bodies are below.
\<close>

definition heartbeat_interval :: duration where
  "heartbeat_interval = 500000000"

datatype spawned_task = HeartbeatTask node_id duration | RequestTask node_id

definition subscription_of :: "duration \<Rightarrow> subscription_request" where
  "subscription_of interval = \<lparr>sr_publishing_interval = interval, sr_lifetime_count = 50,
     sr_max_keep_alive_count = 10, sr_max_notifications = 0, sr_priority = 0, sr_publishing_enabled = True\<rparr>"

definition install ::
    "('s, 'db, 'c, 'd, 't, 'z) handler_env \<Rightarrow> ('s, 'db) world subscriptions \<Rightarrow> ('s, 'db, 'w, 'r, 't, 'z) ready_handler
      \<Rightarrow> (('s, 'db) world, install_error, spawned_task list) act"
where
  "install E S H =
     (let interval = publish_interval (machine_conf H) in
      act_bind (act_call CreateSubscription (sub_create S (subscription_of interval))) (\<lambda>sub.
      act_bind (\<lambda>w. (expect (lit ''getting successfully created subscription should not fail'')
          (sub_interval S sub w), w)) (\<lambda>revised.
      if revised > interval then delete_and_fail S sub (PublishIntervalRaised interval revised)
      else
        act_bind (act_call CreateMonitoredItems (sub_monitor S sub (request_node (protocol (state H))))) (\<lambda>created.
        act_bind (act_lift (check_monitored (env_ua E) created)) (\<lambda>_.
        act_lift (Inr [HeartbeatTask (heartbeat_node (protocol (state H))) heartbeat_interval,
          RequestTask (response_node (protocol (state H)))]))))))"

text \<open>A write whose error is only logged; a panic still ends the task.\<close>

definition write_ignored ::
    "ua_types \<Rightarrow> 'x session \<Rightarrow> write_value list \<Rightarrow> ('x, unit, unit) act" where
  "write_ignored ua S vs w =
     (case write_checked ua S vs w of
        (Inl (Panic m), w') \<Rightarrow> (Inl (Panic m), w')
      | (_, w') \<Rightarrow> (Inr (), w'))"

text \<open>The heartbeat task over \<open>n\<close> ticks before the shutdown, and the values it writes.\<close>

fun heartbeat_task ::
    "ua_types \<Rightarrow> ('s, 'db) world session \<Rightarrow> node_id \<Rightarrow> bool \<Rightarrow> nat \<Rightarrow> (('s, 'db) world, unit, bool list) act" where
  "heartbeat_task ua S node hb 0 w = (Inr [], w)"
| "heartbeat_task ua S node hb (Suc n) w =
     act_bind (write_ignored ua S [WriteValue node (VBoolean hb)]) (\<lambda>_.
     act_bind (heartbeat_task ua S node (\<not> hb) n) (\<lambda>hbs. act_lift (Inr (hb # hbs)))) w"

definition respond :: "(request_error, u8) res \<Rightarrow> (unit, u8) res" where
  "respond r = (case r of Inr c \<Rightarrow> Inr c | Inl (Err e) \<Rightarrow> Inr (to_response_code e) | Inl (Panic m) \<Rightarrow> Inl (Panic m))"

definition answer_request ::
    "('s, 'db, 'c, 'd, 't, 'z) handler_env \<Rightarrow> ('s, 'db, 'w, 'r, 't, 'z) ready_handler \<Rightarrow> node_id \<Rightarrow> data_value
      \<Rightarrow> (('s, 'db) world, unit, u8) act"
where
  "answer_request E H node val =
     act_bind (\<lambda>w. case handle_request E H val w of (r, w') \<Rightarrow> (respond r, w')) (\<lambda>code.
     act_bind (write_ignored (env_ua E) (ua_session H) [WriteValue node (VByte code)]) (\<lambda>_.
     act_lift (Inr code)))"

text \<open>
  The request task over the values received before the shutdown; it returns the code answered
  to each, \<open>None\<close> for an initial request that is ignored.
\<close>

fun request_task ::
    "('s, 'db, 'c, 'd, 't, 'z) handler_env \<Rightarrow> ('s, 'db, 'w, 'r, 't, 'z) ready_handler \<Rightarrow> node_id \<Rightarrow> bool
      \<Rightarrow> data_value list \<Rightarrow> (('s, 'db) world, unit, u8 option list) act"
where
  "request_task E H node is_initial [] w = (Inr [], w)"
| "request_task E H node is_initial (val # vals) w =
     (case (if is_initial then is_initial_request_answered E H val w else (False, w)) of
        (True, w1) \<Rightarrow> act_bind (request_task E H node False vals) (\<lambda>cs. act_lift (Inr (None # cs))) w1
      | (False, w1) \<Rightarrow> act_bind (answer_request E H node val) (\<lambda>code.
          act_bind (request_task E H node False vals) (\<lambda>cs. act_lift (Inr (Some code # cs)))) w1)"

text \<open>
  What a spawned task does: the heartbeats over the given number of ticks, or the answers to the
  given requests.
\<close>

definition run_spawned ::
    "('s, 'db, 'c, 'd, 't, 'z) handler_env \<Rightarrow> ('s, 'db, 'w, 'r, 't, 'z) ready_handler \<Rightarrow> nat \<Rightarrow> data_value list
      \<Rightarrow> spawned_task \<Rightarrow> (('s, 'db) world, unit, unit) act"
where
  "run_spawned E H ticks vals t =
     (case t of
        HeartbeatTask node _ \<Rightarrow> act_bind (heartbeat_task (env_ua E) (ua_session H) node True ticks) (\<lambda>_. act_lift (Inr ()))
      | RequestTask node \<Rightarrow> act_bind (request_task E H node True vals) (\<lambda>_. act_lift (Inr ())))"

end
