(* ===== verification/Gw_Session.thy ===== *)
theory Gw_Session
  imports Trace_Handler
begin

text \<open>
  The OPC-UA client of \<^verbatim>\<open>src/opcua/client.rs\<close> and the sessions of \<^verbatim>\<open>src/opcua/session.rs\<close>: connecting to a
  machine, starting its traceability handler, and stopping it.  The event loop of each session
  is a task of its own, which the model numbers.
\<close>

section \<open>The client\<close>

definition request_timeout :: duration where
  "request_timeout = seconds 5"

definition pkg_name :: str where
  "pkg_name = lit ''opcua-line-gateway''"

text \<open>The settings given to the client builder.\<close>

record client_settings =
  set_application_uri :: str
  set_product_uri :: str
  set_application_name :: str
  set_pki_dir :: str
  set_certificate_path :: str
  set_private_key_path :: str
  set_max_failed_keep_alive :: nat
  set_session_retry_limit :: int
  set_request_timeout :: duration
  set_publish_timeout :: duration

datatype client_build_error = ClientBuildError "str list"

definition client_build_error_fmt :: "client_build_error \<Rightarrow> str" where
  "client_build_error_fmt e = (case e of ClientBuildError errs \<Rightarrow>
     lit ''error building the OPC-UA client: '' @
     (case errs of m # _ \<Rightarrow> m | [] \<Rightarrow> lit ''unknown error (empty error list from ClientBuilder)''))"

definition create_client ::
    "(client_settings \<Rightarrow> str list + 'k) \<Rightarrow> gateway_config \<Rightarrow> client_build_error + 'k" where
  "create_client build config =
     (case build \<lparr>set_application_uri = application_uri config, set_product_uri = lit ''urn:'' @ pkg_name,
          set_application_name = pkg_name, set_pki_dir = pki_dir config,
          set_certificate_path = lit ''own/'' @ pkg_name @ lit ''-cert.der'',
          set_private_key_path = lit ''private/'' @ pkg_name @ lit ''-key.pem'',
          set_max_failed_keep_alive = 1, set_session_retry_limit = 0,
          set_request_timeout = request_timeout, set_publish_timeout = request_timeout\<rparr> of
        Inl errs \<Rightarrow> Inl (ClientBuildError errs)
      | Inr client \<Rightarrow> Inr client)"

section \<open>Connecting\<close>

datatype create_session_error =
    GetServerEndpoints ua_error
  | AddEndpointToSessionBuilder ua_error
  | SessionBuild ua_error
  | SessionConnect
  | TraceabilityInitialize initialize_error
  | TraceabilityInstall install_error

datatype identity_token = AnonymousToken | UserNameToken str str

record endpoint =
  ep_url :: str
  ep_policy :: security_policy
  ep_mode :: security_mode

text \<open>What the client gives for a machine: the services of the session, and its connection.\<close>

record ('s, 'db) connection =
  cn_session :: "('s, 'db) world session"
  cn_subs :: "('s, 'db) world subscriptions"
  cn_wait :: "('s, 'db) world \<Rightarrow> bool \<times> ('s, 'db) world"
  cn_disconnect :: "('s, 'db) world \<Rightarrow> (ua_error + unit) \<times> ('s, 'db) world"

record ('s, 'db, 'e, 'b) client_lib =
  cl_endpoints :: "str \<Rightarrow> ('s, 'db) world \<Rightarrow> (ua_error + 'e list) \<times> ('s, 'db) world"
  cl_matching :: "'e list \<Rightarrow> identity_token \<Rightarrow> endpoint \<Rightarrow> ua_error + 'b"
  cl_build :: "'b \<Rightarrow> ('s, 'db) world \<Rightarrow> (ua_error + ('s, 'db) connection) \<times> ('s, 'db) world"

definition connect_to_matching_endpoint ::
    "('s, 'db, 'e, 'b) client_lib \<Rightarrow> endpoint \<Rightarrow> identity_token
      \<Rightarrow> (('s, 'db) world, create_session_error, ('s, 'db) connection) act"
where
  "connect_to_matching_endpoint C ep token =
     act_bind (act_call GetServerEndpoints (cl_endpoints C (ep_url ep))) (\<lambda>endpoints.
     act_bind (act_lift (of_sum AddEndpointToSessionBuilder (cl_matching C endpoints token ep))) (\<lambda>builder.
     act_call SessionBuild (cl_build C builder)))"

section \<open>Sessions and their event loops\<close>

datatype loop = Loop (loop_server: str) (loop_running: bool)

record ('s, 'db) opcua_session =
  os_server :: str
  os_connection :: "('s, 'db) connection"
  os_loop :: nat
  os_cancelled :: bool
  os_tasks :: "spawned_task list"

text \<open>
  The state that tasks share: the world, the event loop tasks by number, and the registry of
  sessions, a \<^verbatim>\<open>BTreeMap\<close> under a lock.
\<close>

record ('s, 'db) gateway =
  gw_world :: "('s, 'db) world"
  gw_loops :: "loop list"
  gw_registry :: "(str \<times> ('s, 'db) opcua_session) list"

fun btree_insert :: "'k::linorder \<Rightarrow> 'v \<Rightarrow> ('k \<times> 'v) list \<Rightarrow> ('k \<times> 'v) list" where
  "btree_insert k v [] = [(k, v)]"
| "btree_insert k v ((k', v') # kvs) =
     (if k < k' then (k, v) # (k', v') # kvs
      else if k = k' then (k, v) # kvs
      else (k', v') # btree_insert k v kvs)"

definition on_world :: "(('s, 'db) world, 'e, 'a) act \<Rightarrow> (('s, 'db, 'm) gateway_scheme, 'e, 'a) act" where
  "on_world f g = (case f (gw_world g) of (r, w) \<Rightarrow> (r, g\<lparr>gw_world := w\<rparr>))"

definition spawn_loop :: "str \<Rightarrow> (('s, 'db, 'm) gateway_scheme, create_session_error, nat) act" where
  "spawn_loop sid g = (Inr (length (gw_loops g)), g\<lparr>gw_loops := gw_loops g @ [Loop sid True]\<rparr>)"

definition end_loop :: "nat \<Rightarrow> ('s, 'db, 'm) gateway_scheme \<Rightarrow> ('s, 'db, 'm) gateway_scheme" where
  "end_loop l g = g\<lparr>gw_loops := (gw_loops g)[l := Loop (loop_server (gw_loops g ! l)) False]\<rparr>"

text \<open>Dropping the abort handle of an event loop, unless the action succeeds.\<close>

definition abort_on_drop ::
    "nat \<Rightarrow> (('s, 'db, 'm) gateway_scheme, 'e, 'a) act \<Rightarrow> (('s, 'db, 'm) gateway_scheme, 'e, 'a) act" where
  "abort_on_drop l f g = (case f g of (Inl e, g') \<Rightarrow> (Inl e, end_loop l g') | (Inr x, g') \<Rightarrow> (Inr x, g'))"

text \<open>\<^verbatim>\<open>event_loop_handle.is_finished()\<close>\<close>

definition is_finished :: "loop list \<Rightarrow> ('s, 'db) opcua_session \<Rightarrow> bool" where
  "is_finished loops s \<longleftrightarrow> \<not> loop_running (loops ! os_loop s)"

section \<open>Starting a session\<close>

record ('s, 'db, 'e, 'b, 'w, 'r, 't, 'z) session_start_config =
  sc_client :: "('s, 'db, 'e, 'b) client_lib"
  sc_time_provider :: "(('s, 'db) world, 't, 'z) time_provider"
  sc_server_id :: str
  sc_machine_config :: machine_config
  sc_credential :: "credential option"
  sc_traceability_opc_ua :: common_opc_ua_config
  sc_traceability_cache :: "('db, 'w, 'r) trace_cache"

definition endpoint_of :: "machine_config \<Rightarrow> endpoint" where
  "endpoint_of m = \<lparr>ep_url = server_url (opc_ua_server m), ep_policy = security_policy_of (opc_ua_server m),
     ep_mode = security_mode_of (opc_ua_server m)\<rparr>"

definition identity_of :: "credential option \<Rightarrow> identity_token" where
  "identity_of c = (case c of Some cred \<Rightarrow> UserNameToken (user cred) (password cred) | None \<Rightarrow> AnonymousToken)"

text \<open>From the wait for the connection to the session to register.\<close>

definition prepare_session ::
    "('s, 'db, 'c, 'd, 't, 'z) handler_env \<Rightarrow> ('s, 'db, 'e, 'b, 'w, 'r, 't, 'z) session_start_config
      \<Rightarrow> ('s, 'db) connection \<Rightarrow> nat \<Rightarrow> (('s, 'db) world, create_session_error, ('s, 'db) opcua_session) act"
where
  "prepare_session E cfg conn l =
     act_bind (\<lambda>w. case cn_wait conn w of (connected, w') \<Rightarrow> (ensure connected SessionConnect, w')) (\<lambda>_.
     act_bind (act_map_err TraceabilityInitialize (initialize E
         (handler_new (sc_server_id cfg) (sc_traceability_opc_ua cfg) (machine_traceability (sc_machine_config cfg))
           (cn_session conn) (sc_traceability_cache cfg) (sc_time_provider cfg)))) (\<lambda>H.
     act_bind (act_map_err TraceabilityInstall (install E (cn_subs conn) H)) (\<lambda>tasks.
     act_lift (Inr \<lparr>os_server = sc_server_id cfg, os_connection = conn, os_loop = l, os_cancelled = False,
       os_tasks = tasks\<rparr>))))"

definition registry_insert ::
    "str \<Rightarrow> ('s, 'db) opcua_session \<Rightarrow> (('s, 'db, 'm) gateway_scheme, create_session_error, unit) act" where
  "registry_insert sid s g = (Inr (), g\<lparr>gw_registry := btree_insert sid s (gw_registry g)\<rparr>)"

definition start_session ::
    "('s, 'db, 'c, 'd, 't, 'z) handler_env \<Rightarrow> ('s, 'db, 'e, 'b, 'w, 'r, 't, 'z) session_start_config
      \<Rightarrow> (('s, 'db, 'm) gateway_scheme, create_session_error, unit) act"
where
  "start_session E cfg =
     act_bind (on_world (connect_to_matching_endpoint (sc_client cfg) (endpoint_of (sc_machine_config cfg))
         (identity_of (sc_credential cfg)))) (\<lambda>conn.
     act_bind (spawn_loop (sc_server_id cfg)) (\<lambda>l.
     act_bind (abort_on_drop l (on_world (prepare_session E cfg conn l))) (\<lambda>s.
     registry_insert (sc_server_id cfg) s)))"

section \<open>Stopping a session\<close>

text \<open>
  Joining a task waits for it to end: \<open>join_task\<close> tells how a cancelled traceability task ends
  and \<open>join_loop\<close> how the event loop does, if ever.
\<close>

record ('s, 'db) joins =
  join_task :: "spawned_task \<Rightarrow> ('s, 'db) world \<Rightarrow> join_error option \<times> ('s, 'db) world"
  join_loop :: "nat \<Rightarrow> ('s, 'db) world \<Rightarrow> (join_error option \<times> ('s, 'db) world) option"
  closed_statuses :: "status_code list"

datatype stop_log =
    TaskJoinError join_error
  | RemoteClosed status_code
  | DisconnectError ua_error
  | LoopJoinError join_error

text \<open>The traceability tasks run until they are cancelled.\<close>

fun join_tasks ::
    "('s, 'db) joins \<Rightarrow> bool \<Rightarrow> spawned_task list \<Rightarrow> ('s, 'db) world \<Rightarrow> (stop_log list \<times> ('s, 'db) world) option" where
  "join_tasks J cancelled [] w = Some ([], w)"
| "join_tasks J cancelled (t # ts) w =
     (if \<not> cancelled then None
      else case join_task J t w of (err, w1) \<Rightarrow>
        map_option (\<lambda>(logs, w2). ((case err of Some e \<Rightarrow> [TaskJoinError e] | None \<Rightarrow> []) @ logs, w2))
          (join_tasks J cancelled ts w1))"

definition disconnect_log :: "('s, 'db) joins \<Rightarrow> ua_error + unit \<Rightarrow> stop_log list" where
  "disconnect_log J r = (case r of
     Inl (UaError status) \<Rightarrow>
       (if status \<in> set (closed_statuses J) then [RemoteClosed status] else [DisconnectError (UaError status)])
   | Inr _ \<Rightarrow> [])"

text \<open>\<open>None\<close> when the call never returns.\<close>

definition stop ::
    "('s, 'db) joins \<Rightarrow> ('s, 'db) opcua_session \<Rightarrow> ('s, 'db, 'm) gateway_scheme
      \<Rightarrow> (stop_log list \<times> ('s, 'db, 'm) gateway_scheme) option"
where
  "stop J s g =
     (let s = s\<lparr>os_cancelled := True\<rparr> in
      case join_tasks J (os_cancelled s) (os_tasks s) (gw_world g) of
        None \<Rightarrow> None
      | Some (logs, w1) \<Rightarrow>
         (case cn_disconnect (os_connection s) w1 of (r, w2) \<Rightarrow>
          case join_loop J (os_loop s) w2 of
            None \<Rightarrow> None
          | Some (err, w3) \<Rightarrow>
              Some (logs @ disconnect_log J r @ (case err of Some e \<Rightarrow> [LoopJoinError e] | None \<Rightarrow> []),
                end_loop (os_loop s) (g\<lparr>gw_world := w3\<rparr>))))"

end
