(* ===== verification/Session_Manager.thy ===== *)
theory Session_Manager
  imports Gw_Session
begin

text \<open>
  The sessions manager of \<^verbatim>\<open>src/opcua/session_manager.rs\<close>: the executable body of its ticks, and a
  step relation in which the manager, the session start tasks it spawns, the event loops of
  the sessions and the other tasks interleave.
\<close>

section \<open>The manager\<close>

definition manager_tick_interval :: duration where
  "manager_tick_interval = seconds 5"

definition connect_timeout :: duration where
  "connect_timeout = seconds 2"

text \<open>
  A session start task, with the time when its start is abandoned, and its event loop once
  connected.
\<close>

record ('s, 'db, 'e, 'b, 'w, 'r, 't, 'z) start_task =
  st_config :: "('s, 'db, 'e, 'b, 'w, 'r, 't, 'z) session_start_config"
  st_deadline :: nat
  st_loop :: "nat option"

abbreviation st_server :: "('s, 'db, 'e, 'b, 'w, 'r, 't, 'z) start_task \<Rightarrow> str" where
  "st_server t \<equiv> sc_server_id (st_config t)"

text \<open>
  The manager on top of the shared state.  \<open>stopping\<close> is \<open>None\<close> until the shutdown, and then the
  sessions still to stop; times are in nanoseconds.
\<close>

record ('s, 'db, 'e, 'b, 'w, 'r, 't, 'z) manager = "('s, 'db) gateway" +
  starts :: "('s, 'db, 'e, 'b, 'w, 'r, 't, 'z) start_task list"
  time :: nat
  next_tick :: nat
  stopping :: "(str \<times> ('s, 'db) opcua_session) list option"

text \<open>The arguments of \<^verbatim>\<open>sessions_manager\<close>.\<close>

record ('s, 'db, 'e, 'b, 'w, 'r, 't, 'z) manager_args =
  ma_client :: "('s, 'db, 'e, 'b) client_lib"
  ma_servers :: "(str \<times> machine_config) list"
  ma_credentials :: "(str \<times> credential) list"
  ma_traceability_opc_ua :: common_opc_ua_config
  ma_traceability_cache :: "('db, 'w, 'r) trace_cache"
  ma_time_provider :: "(('s, 'db) world, 't, 'z) time_provider"

definition retain_running :: "loop list \<Rightarrow> (str \<times> ('s, 'db) opcua_session) list \<Rightarrow> (str \<times> ('s, 'db) opcua_session) list" where
  "retain_running loops sessions = filter (\<lambda>(_, session). \<not> is_finished loops session) sessions"

definition not_running :: "(str \<times> 'a) list \<Rightarrow> str list \<Rightarrow> (str \<times> 'a) list" where
  "not_running servers running_sessions = filter (\<lambda>(sid, _). sid \<notin> set running_sessions) servers"

definition start_config ::
    "('s, 'db, 'e, 'b, 'w, 'r, 't, 'z) manager_args \<Rightarrow> str \<times> machine_config
      \<Rightarrow> ('s, 'db, 'e, 'b, 'w, 'r, 't, 'z) session_start_config"
where
  "start_config A server =
     \<lparr>sc_client = ma_client A, sc_time_provider = ma_time_provider A, sc_server_id = fst server,
      sc_machine_config = snd server, sc_credential = btree_get (ma_credentials A) (fst server),
      sc_traceability_opc_ua = ma_traceability_opc_ua A, sc_traceability_cache = ma_traceability_cache A\<rparr>"

text \<open>
  The ticker of \<^verbatim>\<open>tokio\<close> delays missed ticks: after a tick that is more than five milliseconds late,
  the next one is a whole period later.
\<close>

definition tick_after :: "duration \<Rightarrow> nat \<Rightarrow> nat \<Rightarrow> nat" where
  "tick_after period due fired = (if due + 5000000 < fired then fired + period else due + period)"

definition manager_tick ::
    "('s, 'db, 'e, 'b, 'w, 'r, 't, 'z) manager_args \<Rightarrow> ('s, 'db, 'e, 'b, 'w, 'r, 't, 'z) manager
      \<Rightarrow> ('s, 'db, 'e, 'b, 'w, 'r, 't, 'z) manager"
where
  "manager_tick A m =
     (let sessions = retain_running (gw_loops m) (gw_registry m);
          running_sessions = map fst sessions in
      m\<lparr>gw_registry := sessions,
        starts := starts m @ map (\<lambda>server. \<lparr>st_config = start_config A server,
            st_deadline = time m + connect_timeout, st_loop = None\<rparr>) (not_running (ma_servers A) running_sessions),
        next_tick := tick_after manager_tick_interval (next_tick m) (time m)\<rparr>)"

text \<open>The end of the loop of ticks: the registry is taken, and its sessions stopped one by one.\<close>

definition take_registry ::
    "('s, 'db, 'e, 'b, 'w, 'r, 't, 'z) manager \<Rightarrow> ('s, 'db, 'e, 'b, 'w, 'r, 't, 'z) manager" where
  "take_registry m = m\<lparr>stopping := Some (gw_registry m), gw_registry := []\<rparr>"

fun stop_sessions ::
    "('s, 'db) joins \<Rightarrow> (str \<times> ('s, 'db) opcua_session) list \<Rightarrow> ('s, 'db, 'm) gateway_scheme
      \<Rightarrow> ('s, 'db, 'm) gateway_scheme option"
where
  "stop_sessions J [] g = Some g"
| "stop_sessions J ((sid, s) # sessions) g =
     (case stop J s g of None \<Rightarrow> None | Some (_, g') \<Rightarrow> stop_sessions J sessions g')"

section \<open>Interleaving\<close>

definition drop_start ::
    "('s, 'db, 'e, 'b, 'w, 'r, 't, 'z) start_task \<Rightarrow> ('s, 'db, 'e, 'b, 'w, 'r, 't, 'z) manager
      \<Rightarrow> ('s, 'db, 'e, 'b, 'w, 'r, 't, 'z) manager"
where
  "drop_start t m = m\<lparr>starts := remove1 t (starts m)\<rparr>"

text \<open>Dropping the future of a start task aborts the event loop it spawned, if any.\<close>

definition abandon ::
    "('s, 'db, 'e, 'b, 'w, 'r, 't, 'z) start_task \<Rightarrow> ('s, 'db, 'e, 'b, 'w, 'r, 't, 'z) manager
      \<Rightarrow> ('s, 'db, 'e, 'b, 'w, 'r, 't, 'z) manager"
where
  "abandon t m = drop_start t (case st_loop t of None \<Rightarrow> m | Some l \<Rightarrow> end_loop l m)"

datatype label = Tick | Connected | Started | Failed | Ended | Elapsed | Acted | Shutdown | Stopped

text \<open>
  Timers fire at most \<open>lag\<close> late: time does not pass the deadline of a start task, nor the due time
  of a tick, by more than that.  A start whose deadline is not reached may fail, one whose deadline
  is reached is abandoned; both have the same effect on the state.
\<close>

inductive manager_step ::
    "('s, 'db, 'e, 'b, 'w, 'r, 't, 'z) manager_args \<Rightarrow> ('s, 'db) joins \<Rightarrow> nat
      \<Rightarrow> ('s, 'db, 'e, 'b, 'w, 'r, 't, 'z) manager \<Rightarrow> label \<Rightarrow> ('s, 'db, 'e, 'b, 'w, 'r, 't, 'z) manager \<Rightarrow> bool"
  for A J lag
where
  ticks: "stopping m = None \<Longrightarrow> next_tick m \<le> time m \<Longrightarrow> manager_step A J lag m Tick (manager_tick A m)"
| connects: "t \<in> set (starts m) \<Longrightarrow> st_loop t = None \<Longrightarrow> spawn_loop (st_server t) m = (Inr l, m') \<Longrightarrow>
    manager_step A J lag m Connected
      (m'\<lparr>starts := remove1 t (starts m) @ [t\<lparr>st_loop := Some l\<rparr>]\<rparr>)"
| registers: "t \<in> set (starts m) \<Longrightarrow> st_loop t = Some l \<Longrightarrow> os_loop s = l \<Longrightarrow> os_server s = st_server t \<Longrightarrow>
    registry_insert (st_server t) s m = (Inr (), m') \<Longrightarrow>
    manager_step A J lag m Started (drop_start t m')"
| fails: "t \<in> set (starts m) \<Longrightarrow> manager_step A J lag m Failed (abandon t m)"
| loop_ends: "l < length (gw_loops m) \<Longrightarrow> manager_step A J lag m Ended (end_loop l m)"
| elapses: "\<forall>t\<in>set (starts m). time m < st_deadline t + lag \<Longrightarrow>
    stopping m = None \<Longrightarrow> time m < next_tick m + lag \<Longrightarrow>
    manager_step A J lag m Elapsed (m\<lparr>time := Suc (time m)\<rparr>)"
| elapses_down: "\<forall>t\<in>set (starts m). time m < st_deadline t + lag \<Longrightarrow>
    stopping m = Some ss \<Longrightarrow> manager_step A J lag m Elapsed (m\<lparr>time := Suc (time m)\<rparr>)"
| acts: "manager_step A J lag m Acted (m\<lparr>gw_world := w\<rparr>)"
| shuts_down: "stopping m = None \<Longrightarrow> manager_step A J lag m Shutdown (take_registry m)"
| stops: "stopping m = Some (s # ss) \<Longrightarrow> stop J (snd s) m = Some (logs, m') \<Longrightarrow>
    manager_step A J lag m Stopped (m'\<lparr>stopping := Some ss\<rparr>)"

inductive manager_path ::
    "('s, 'db, 'e, 'b, 'w, 'r, 't, 'z) manager_args \<Rightarrow> ('s, 'db) joins \<Rightarrow> nat
      \<Rightarrow> ('s, 'db, 'e, 'b, 'w, 'r, 't, 'z) manager \<Rightarrow> label list \<Rightarrow> ('s, 'db, 'e, 'b, 'w, 'r, 't, 'z) manager \<Rightarrow> bool"
  for A J lag
where
  path_Nil: "manager_path A J lag m [] m"
| path_Cons: "manager_step A J lag m a m1 \<Longrightarrow> manager_path A J lag m1 as m2 \<Longrightarrow> manager_path A J lag m (a # as) m2"

text \<open>The state when the loop of ticks begins: the first tick is due at once.\<close>

definition manager_init :: "('s, 'db) world \<Rightarrow> nat \<Rightarrow> ('s, 'db, 'e, 'b, 'w, 'r, 't, 'z) manager" where
  "manager_init w now0 = \<lparr>gw_world = w, gw_loops = [], gw_registry = [], starts = [], time = now0,
     next_tick = now0, stopping = None\<rparr>"

inductive_cases path_ConsE: "manager_path A J lag m (a # as) m'"
inductive_cases path_NilE: "manager_path A J lag m [] m'"
inductive_cases tick_stepE: "manager_step A J lag m Tick m'"

lemma path_append:
  "manager_path A J lag m as m1 \<Longrightarrow> manager_path A J lag m1 bs m2 \<Longrightarrow> manager_path A J lag m (as @ bs) m2"
  by (induction rule: manager_path.induct) (auto intro: path_Cons)

lemma path_single: "manager_step A J lag m a m' \<Longrightarrow> manager_path A J lag m [a] m'"
  by (rule path_Cons) (auto intro: path_Nil)

end
