(* ===== verification/Handler_Laws.thy ===== *)
theory Handler_Laws
  imports Trace_Handler Cache_Claims
begin

text \<open>
  What the handler does to the store, whatever the other tasks do while it waits: their steps
  are a relation \<open>rely\<close> on the contents, which every awaited call satisfies.
\<close>

section \<open>Part sheets read from a machine\<close>

definition item_node :: "saved_item \<Rightarrow> u32 \<times> str" where
  "item_node p = (fst p, fst (snd p))"

definition context_ok :: "('s, 'db, 'w, 'r, 't, 'z) ready_handler \<Rightarrow> bool" where
  "context_ok H \<longleftrightarrow> (let g = general_part_sheet (state H) in
     part_id_index g < length (general_nodes g) \<and>
     fst (general_nodes g ! part_id_index g) = part_id_nid (common_opcua H))"

lemma sheet_items:
  "list_all2 (\<lambda>x y. sheet_item ua x = Inr y) (zip ns vs) ps \<Longrightarrow> length vs = length ns \<Longrightarrow>
     map item_node ps = ns \<and> list_all2 (\<lambda>v p. try_into_variant ua v = Inr (item_value p)) vs ps"
proof (induction ns vs arbitrary: ps rule: list_induct2')
  case (4 n ns v vs)
  then obtain p qs where p: "ps = p # qs" "sheet_item ua (n, v) = Inr p"
    and r: "list_all2 (\<lambda>x y. sheet_item ua x = Inr y) (zip ns vs) qs"
    by (auto simp: list_all2_Cons1)
  have "item_node p = n \<and> try_into_variant ua v = Inr (item_value p)"
    using p(2) by (cases n) (auto simp: sheet_item_def item_node_def res_bind_eq_Inr of_sum_eq_Inr)
  then show ?case using "4.IH"[OF r] "4.prems"(2) p(1) by simp
qed simp_all

lemma length_save_node_ids: "length (save_node_ids H) = length (named_nodes H)"
  by (simp add: save_node_ids_def named_nodes_def Let_def)

lemma read_part_sheets_Inr:
  assumes "read_part_sheets E H w = (Inr (pid, g, p), w')" and "context_ok H"
  shows "\<exists>vals. ua_read (ua_session H) (save_node_ids H) w = (Inr vals, w') \<and>
     map item_node g = general_nodes (general_part_sheet (state H)) \<and>
     map item_node p = operation_nodes (operation_part_sheet (state H)) \<and>
     list_all2 (\<lambda>v i. try_into_variant (env_ua E) v = Inr (item_value i)) vals (g @ p) \<and>
     ascii_from_variant (env_ua E) 23 (item_value (g ! part_id_index (general_part_sheet (state H)))) = Inr pid \<and>
     validate_part_identifier (env_dates E) pid = Inr ()"
proof -
  let ?g = "general_part_sheet (state H)" and ?n = "length (general_nodes (general_part_sheet (state H)))"
  obtain vals ps where r: "ua_read (ua_session H) (save_node_ids H) w = (Inr vals, w')"
    and l: "length vals = length (save_node_ids H)"
    and c: "list_all2 (\<lambda>x y. sheet_item (env_ua E) x = Inr y) (zip (named_nodes H) vals) ps"
    and i: "part_id_index ?g < length ps"
    and a: "ascii_from_variant (env_ua E) 23 (item_value (ps ! part_id_index ?g)) = Inr pid"
    and v: "validate_part_identifier (env_dates E) pid = Inr ()"
    and gp: "g = take ?n ps" "p = drop ?n ps"
    using assms(1) unfolding read_part_sheets_def Let_def
    by (auto simp: act_bind_eq_Inr act_call_eq_Inr collect_eq_Inr ensure_eq_Inr expect_eq_Inr of_sum_eq_Inr
        split: if_splits)
  have s: "map item_node ps = named_nodes H"
    "list_all2 (\<lambda>v p. try_into_variant (env_ua E) v = Inr (item_value p)) vals ps"
    using sheet_items[OF c] l length_save_node_ids[of H] by auto
  have "map item_node g = take ?n (named_nodes H)" "map item_node p = drop ?n (named_nodes H)"
    using s(1) gp by (simp_all add: take_map drop_map flip: s(1))
  moreover have "g ! part_id_index ?g = ps ! part_id_index ?g"
    using assms(2) gp by (simp add: context_ok_def Let_def)
  ultimately show ?thesis using r s(2) a v gp by (auto simp: named_nodes_def)
qed

text \<open>A handler whose context is well formed never panics while it reads the part sheets.\<close>

lemma read_part_sheets_no_panic:
  assumes "context_ok H"
  shows "read_part_sheets E H w \<noteq> (Inl (Panic m), w')"
proof
  assume r: "read_part_sheets E H w = (Inl (Panic m), w')"
  have np: "collect (sheet_item ua) xs \<noteq> Inl (Panic m)" for ua xs
    by (rule collect_no_panic) (auto simp: sheet_item_def res_bind_eq_Inl split: prod.splits)
  have "length ps = length (named_nodes H)"
    if "collect (sheet_item (env_ua E)) (zip (named_nodes H) vals) = Inr ps"
      "length vals = length (save_node_ids H)" for ps vals
    using collect_length[OF that(1)] that(2) by (simp add: length_save_node_ids)
  then have i: "part_id_index (general_part_sheet (state H)) < length ps"
    if "collect (sheet_item (env_ua E)) (zip (named_nodes H) vals) = Inr ps"
      "length vals = length (save_node_ids H)" for ps vals
    using that assms by (fastforce simp: context_ok_def Let_def named_nodes_def)
  show False
    using r i unfolding read_part_sheets_def Let_def
    by (auto simp: act_bind_eq_Inl act_call_eq_Inr np ensure_eq_Inr expect_eq_Inr of_sum_eq_Inr ensure_def
        split: if_splits)
qed

section \<open>Relying on the other tasks\<close>

locale handler_world = redb_store R view wview wbase rview
  for R :: "('db, 'w, 'r) redb" and view :: "'db \<Rightarrow> tables"
    and wview wbase :: "'w \<Rightarrow> tables" and rview :: "'r \<Rightarrow> tables" +
  fixes rt :: "('s, 'db) runtime" and S :: "('s, 'db) world session"
    and rely :: "tables \<Rightarrow> tables \<Rightarrow> bool"
  assumes rely_refl: "rely t t"
    and rely_trans: "rely t t1 \<Longrightarrow> rely t1 t2 \<Longrightarrow> rely t t2"
    and until_rely: "until_run rt w = (j, w') \<Longrightarrow> rely (view (store w)) (view (store w'))"
    and read_rely: "ua_read S ns w = (r1, w') \<Longrightarrow> rely (view (store w)) (view (store w'))"
    and write_rely: "ua_write S vs w = (r2, w') \<Longrightarrow> rely (view (store w)) (view (store w'))"
begin

lemma blocking_cases:
  assumes "blocking rt j e f w = (x, w')"
  obtains (cancelled) err where "x = Inl (Err (j err))" "until_run rt w = (Some err, w')"
  | (run) w1 r where "until_run rt w = (None, w1)" "f w1 (store w1) = (r, store w')"
      "\<And>u. x = Inr u \<Longrightarrow> r = Inr u"
      "\<And>u. r = Inr u \<Longrightarrow> x = Inr u" "\<And>er. r = Inl (Err er) \<Longrightarrow> x = Inl (Err (e er))"
      "\<And>m. r = Inl (Panic m) \<Longrightarrow> x = Inl (Err (j (JoinPanic m)))"
proof -
  obtain c w1 where u: "until_run rt w = (c, w1)" by fastforce
  show ?thesis
  proof (cases c)
    case (Some err)
    then show ?thesis using assms u by (intro cancelled) (simp_all add: blocking_def)
  next
    case None
    obtain r db where r: "f w1 (store w1) = (r, db)" by fastforce
    have w': "w' = World (surroundings w1) db" using assms u None r by (simp add: blocking_def)
    have x: "x = (case r of Inl (Panic m) \<Rightarrow> Inl (Err (j (JoinPanic m))) | Inl (Err y) \<Rightarrow> Inl (Err (e y))
        | Inr y \<Rightarrow> Inr y)"
      using assms u None r by (simp add: blocking_def)
    show ?thesis
      by (rule run[of w1 r]) (use u None r w' x in \<open>simp_all split: sum.splits fault.splits\<close>)
  qed
qed

lemma blocking_Inr:
  assumes "blocking rt j e f w = (Inr u, w')"
  obtains w1 where "until_run rt w = (None, w1)" "f w1 (store w1) = (Inr u, store w')"
  using assms
proof (cases rule: blocking_cases)
  case (run w1 r)
  have "r = Inr u" by (rule run(3)) simp
  then show ?thesis using that run(1,2) by simp
qed simp

lemma blocking_not_panic [simp]: "blocking rt j e f w \<noteq> (Inl (Panic m), w')"
  by (auto simp: blocking_def split: prod.splits option.splits sum.splits fault.splits)

lemma read_sheets_rely:
  assumes "read_part_sheets E H w = (x, w')" and "ua_session H = S"
  shows "rely (view (store w)) (view (store w'))"
proof -
  obtain r w1 where r: "ua_read S (save_node_ids H) w = (r, w1)" by fastforce
  have "w' = w1"
    using assms r unfolding read_part_sheets_def Let_def act_bind_def act_call_def act_lift_def
    by (auto split: prod.splits sum.splits)
  then show ?thesis using read_rely[OF r] by simp
qed

lemma check_enqueuing_step:
  assumes "check_enqueuing H w = (x, w')" and "cache_redb (cache H) = R"
  shows "view (store w') = view (store w)"
  using assms check_view[OF _ assms(2)] by (auto simp: check_enqueuing_def split: prod.splits)

lemma handle_save_Inr:
  assumes "handle_save E H w = (Inr u, w')"
    and R: "cache_redb (cache H) = R" and S: "ua_session H = S" and rt: "env_rt E = rt"
  shows "\<exists>wc w1 pid g p t ts ctx bytes jg jo.
    check_enqueuing H w = (Inr (), wc) \<and>
    read_part_sheets E H wc = (Inr (pid, g, p), w1) \<and> rely (view (store w)) t \<and>
    encode_sheets (env_codec E) (env_ua E) (env_row E) ts (server_id H) pid g p ctx = Inr (bytes, jg, jo) \<and>
    view (store w') = spec_save (as_str pid) bytes jg jo t"
proof -
  obtain wc w1 pid g p where c: "check_enqueuing H w = (Inr (), wc)"
    and r: "read_part_sheets E H wc = (Inr (pid, g, p), w1)"
    and b: "blocking rt CacheSaveTask CacheSave (\<lambda>w.
       save_part_sheets (env_codec E) (env_ua E) (env_row E) (cache H) (timestamp_now E w) (server_id H)
         pid g p (ua_context E w)) w1 = (Inr u, w')"
    using assms(1) rt by (auto simp: handle_save_def act_bind_eq_Inr)
  obtain w2 where u: "until_run rt w1 = (None, w2)"
    and s: "save_part_sheets (env_codec E) (env_ua E) (env_row E) (cache H) (timestamp_now E w2) (server_id H)
         pid g p (ua_context E w2) (store w2) = (Inr u, store w')"
    using b by (rule blocking_Inr)
  have "rely (view (store w)) (view (store w2))"
    using check_enqueuing_step[OF c R] read_sheets_rely[OF r S] until_rely[OF u] rely_trans by metis
  then show ?thesis using save_part_sheets_Inr[OF s R] c r by metis
qed

lemma handle_save_Inl:
  assumes "handle_save E H w = (Inl f, w')"
    and R: "cache_redb (cache H) = R" and S: "ua_session H = S" and rt: "env_rt E = rt"
  shows "rely (view (store w)) (view (store w')) \<or> (\<exists>e. f = Err (CacheSave (Save_Commit e)))"
proof -
  obtain c wc where c: "check_enqueuing H w = (c, wc)" by fastforce
  note vc = check_enqueuing_step[OF c R]
  show ?thesis
  proof (cases c)
    case (Inl a)
    then show ?thesis using assms(1) c vc rely_refl by (simp add: handle_save_def act_bind_def)
  next
    case (Inr v)
    obtain r w1 where r: "read_part_sheets E H wc = (r, w1)" by fastforce
    have v1: "rely (view (store w)) (view (store w1))" using read_sheets_rely[OF r S] vc by simp
    show ?thesis
    proof (cases r)
      case (Inl a)
      then show ?thesis using assms(1) c Inr r v1 by (simp add: handle_save_def act_bind_def)
    next
      case R1: (Inr x)
      obtain pid g p where x: "x = (pid, g, p)" by (cases x)
      have b: "blocking rt CacheSaveTask CacheSave (\<lambda>w.
         save_part_sheets (env_codec E) (env_ua E) (env_row E) (cache H) (timestamp_now E w) (server_id H)
           pid g p (ua_context E w)) w1 = (Inl f, w')"
        using assms(1) c Inr r R1 x rt by (simp add: handle_save_def act_bind_def)
      then show ?thesis
      proof (cases rule: blocking_cases)
        case (cancelled err)
        then show ?thesis using until_rely v1 rely_trans by blast
      next
        case (run w2 r2)
        then obtain fl where fl: "r2 = Inl fl" by (cases r2) auto
        have v2: "rely (view (store w)) (view (store w2))" using until_rely[OF run(1)] v1 rely_trans by blast
        have "view (store w') = view (store w2) \<or> (\<exists>e. fl = Err (Save_Commit e))"
          using save_part_sheets_Inl[OF run(2)[unfolded fl] R] by blast
        then show ?thesis using run(5) fl v2 by auto
      qed
    qed
  qed
qed

lemma cached_part_sheet_Inr:
  assumes "cached_part_sheet E H w = (Inr (pid, sheet), w')"
    and R: "cache_redb (cache H) = R" and S: "ua_session H = S" and rt: "env_rt E = rt"
  shows "\<exists>t bytes ctx. rely (view (store w)) t \<and> opened (sheets t) (as_str pid) = Some bytes \<and>
    decode_cached_part_sheet (env_codec E) ctx bytes = Inr sheet \<and> view (store w') = t"
proof -
  obtain vs w1 where r: "ua_read S [general_node H (part_id_nid (common_opcua H))] w = (Inr vs, w1)"
    and b: "blocking rt CacheGetTask CacheGet
          (\<lambda>w. get_general_part_sheet (env_codec E) (cache H) (as_str pid) (ua_context E w)) w1 = (Inr (Some sheet), w')"
    using assms(1) S rt unfolding cached_part_sheet_def Let_def
    by (auto simp: act_bind_eq_Inr act_call_eq_Inr ok_or_eq_Inr)
  obtain w2 where u: "until_run rt w1 = (None, w2)"
    and g: "get_general_part_sheet (env_codec E) (cache H) (as_str pid) (ua_context E w2) (store w2)
        = (Inr (Some sheet), store w')"
    using b by (rule blocking_Inr)
  have v: "rely (view (store w)) (view (store w2))"
    using read_rely[OF r] until_rely[OF u] rely_trans by blast
  show ?thesis using get_general_Inr[OF g R] get_general_view[OF g R] v
    by (force split: option.splits)
qed

lemma new_part_id_Inr:
  assumes "new_part_id E H w = (Inr part_id, w')"
    and R: "cache_redb (cache H) = R" and S: "ua_session H = S" and rt: "env_rt E = rt"
  shows "\<exists>line_id part_ref batch wt t.
    line_id_of (machine_conf H) = Some line_id \<and> ascii_wf 2 batch \<and>
    (let day = zoned_date E (now_zoned (time_of H) wt);
         k = strftime_ymd (env_dates E) day in
     rely (view (store w)) t \<and> view (store w') = spec_serial_step k t \<and>
     create_part_identifier (env_nd E) (env_dates E) part_ref batch line_id day (spec_serial k t) = Inr part_id)"
proof -
  obtain line_id vs pv bv part_ref batch w1 serial
    where l: "line_id_of (machine_conf H) = Some line_id"
      and r: "ua_read S [general_node H (raw_part_ref_nid (common_opcua H)),
          general_node H (raw_batch_nid (common_opcua H))] w = (Inr vs, w1)"
      and bt: "try_ua_value_as (env_ua E) (ascii_from_variant (env_ua E) 2) bv = Inr batch"
      and b: "blocking rt NextSerialTask NextSerialFailed (\<lambda>_. next_serial (env_dates E) (cache H)
          (zoned_date E (now_zoned (time_of H) w1))) w1 = (Inr serial, w')"
      and c: "create_part_identifier (env_nd E) (env_dates E) part_ref batch line_id
          (zoned_date E (now_zoned (time_of H) w1)) serial = Inr part_id"
    using assms(1) S rt unfolding new_part_id_def Let_def
    by (auto simp: act_bind_eq_Inr act_call_eq_Inr ok_or_eq_Inr of_sum_eq_Inr)
  obtain w2 where u: "until_run rt w1 = (None, w2)"
    and n: "next_serial (env_dates E) (cache H) (zoned_date E (now_zoned (time_of H) w1)) (store w2)
        = (Inr serial, store w')"
    using b by (rule blocking_Inr)
  have v: "rely (view (store w)) (view (store w2))"
    using read_rely[OF r] until_rely[OF u] rely_trans by blast
  have "ascii_wf 2 batch" using bt by (auto simp: try_ua_value_as_eq_Inr dest: ascii_from_variant_wf)
  then show ?thesis using l v c next_serial_Inr[OF n R] by (auto simp: Let_def)
qed

end

end
