(* ===== verification/Handler_Claims.thy ===== *)
theory Handler_Claims
  imports Handler_Laws
begin

text \<open>
  The properties of the traceability handler, and a small OPC-UA server in memory on which
  they are instantiated.
\<close>

section \<open>A server in memory\<close>

text \<open>The server is the list of its node values, the latest first; nothing fails.\<close>

type_synonym ex_server = "(node_id \<times> variant) list"

definition ex_session :: "(ex_server, mem_db) world session" where
  "ex_session = \<lparr>
     ua_read = (\<lambda>ns w. (Inr (map (\<lambda>n. \<lparr>dv_value = map_of (surroundings w) n, dv_status = 0\<rparr>) ns), w)),
     ua_write = (\<lambda>vs w. (Inr (map (\<lambda>_. 0) vs),
        World (map (\<lambda>v. (wv_node v, wv_value v)) vs @ surroundings w) (store w))),
     ua_namespace_index = (\<lambda>_ w. (Inr 2, w)),
     ua_browse = (\<lambda>_ _ w. ([Inr \<lparr>br_status = 0, br_references = [(NodeId 2 (Numeric 7), Some (lit ''part''))]\<rparr>], w))\<rparr>"

definition ex_common :: common_opc_ua_config where
  "ex_common = \<lparr>namespace_url = [], request_nid = 1, response_nid = 2, heartbeat_nid = 3,
     general_part_sheet_nid = 4, part_id_nid = 7, raw_part_ref_nid = 8, raw_batch_nid = 9,
     excluded_read_nids = []\<rparr>"

definition ex_machine :: machine_traceability_config where
  "ex_machine = \<lparr>publish_interval = 500, line_id_of = Some (AsciiDigitsOrUpper [65, 66]),
     machine_opc_ua = \<lparr>operation_namespace_url = [], operation_part_sheet_nid = 5\<rparr>\<rparr>"

definition ex_runtime :: "(ex_server, mem_db) runtime" where
  "ex_runtime = \<lparr>until_run = (\<lambda>w. (None, w))\<rparr>"

definition ex_env :: "(ex_server, mem_db, unit, civil, unit, civil) handler_env" where
  "ex_env = \<lparr>env_nd = unicode_nd, env_dates = gregorian, env_codec = le_codec, env_ua = ex_ua,
     env_row = ex_row, env_rt = ex_runtime, zoned_date = (\<lambda>z. z), ua_context = (\<lambda>_. ()),
     timestamp_now = (\<lambda>_. ())\<rparr>"

definition ex_handler_with :: "'st \<Rightarrow> (ex_server, mem_db, mem_write, mem_read, unit, civil, 'st) handler" where
  "ex_handler_with st = \<lparr>server_id = lit ''M1'', common_opcua = ex_common, machine_conf = ex_machine,
     ua_session = ex_session, cache = ex_cache,
     time_of = \<lparr>clock = (\<lambda>_. ()), tz = (\<lambda>_. example_day)\<rparr>, state = st\<rparr>"

definition ex_context :: handler_context where
  "ex_context = make_context ex_common 2 [(7, lit ''part'')] 0 2 [(7, lit ''part'')]"

abbreviation ex_handler :: "(ex_server, mem_db, mem_write, mem_read, unit, civil) ready_handler" where
  "ex_handler \<equiv> ex_handler_with ex_context"

lemma ex_handler_simps [simp]:
  "cache (ex_handler_with st) = ex_cache" "ua_session (ex_handler_with st) = ex_session"
  "common_opcua (ex_handler_with st) = ex_common" "machine_conf (ex_handler_with st) = ex_machine"
  "state (ex_handler_with st) = st" "server_id (ex_handler_with st) = lit ''M1''"
  "env_nd ex_env = unicode_nd" "env_dates ex_env = gregorian" "env_codec ex_env = le_codec"
  "env_ua ex_env = ex_ua" "env_row ex_env = ex_row" "env_rt ex_env = ex_runtime"
  by (simp_all add: ex_handler_with_def ex_env_def)

lemma ex_good [simp]: "is_good ex_ua s \<longleftrightarrow> s = 0"
  by (simp add: ex_ua_def)

lemma ex_handler_world:
  assumes "\<And>t. rely t t" and "\<And>t t1 t2. rely t t1 \<Longrightarrow> rely t1 t2 \<Longrightarrow> rely t t2"
  shows "handler_world mem_redb (mem_view \<circ> db_tables) (mem_view \<circ> mw_now) (mem_view \<circ> mw_base)
    (mem_view \<circ> mr_tables) ex_runtime ex_session rely"
proof (intro handler_world.intro handler_world_axioms.intro memdb.redb_store_axioms)
  show "rely t t" for t by (rule assms(1))
  show "rely t t1 \<Longrightarrow> rely t1 t2 \<Longrightarrow> rely t t2" for t t1 t2 by (rule assms(2))
qed (auto simp: ex_runtime_def ex_session_def assms(1))

interpretation exhandler: handler_world mem_redb "mem_view \<circ> db_tables" "mem_view \<circ> mw_now"
  "mem_view \<circ> mw_base" "mem_view \<circ> mr_tables" ex_runtime ex_session "(=)"
  by (rule ex_handler_world) simp_all

lemma ex_context_ok: "context_ok ex_handler"
  by (simp add: context_ok_def ex_context_def make_context_def ex_common_def)

definition ex_id :: ascii_text where
  "ex_id = AsciiDigitsOrUpper (map of_nat (lit ''010498013AAAB4431700001''))"

definition ex_nodes :: ex_server where
  "ex_nodes = [(NodeId 2 (Numeric 7), VString (Some (lit ''010498013AAAB4431700001''))),
     (NodeId 2 (Numeric 8), VString (Some (lit ''1-498GR13''))),
     (NodeId 2 (Numeric 9), VString (Some (lit ''AA''))),
     (NodeId 2 (Numeric 2), VByte 0)]"

lemma ex_id_parse:
  "from_str 23 (lit ''010498013AAAB4431700001'') = Inr ex_id"
  "as_str ex_id = lit ''010498013AAAB4431700001''"
  "validate_part_identifier gregorian ex_id = Inr ()"
proof -
  have "\<forall>c\<in>set (lit ''1-498GR13''). c < 128" by simp
  note p = created_parses[OF uni.digit_class_axioms greg.calendar_axioms example_day_ok example_batch this example_id]
  show "from_str 23 (lit ''010498013AAAB4431700001'') = Inr ex_id"
    "as_str ex_id = lit ''010498013AAAB4431700001''"
    "validate_part_identifier gregorian ex_id = Inr ()"
    unfolding ex_id_def by (rule p)+
qed

section \<open>Initialization\<close>

text \<open>What a successful browse found: references, in order, whose values can be archived.\<close>

fun item_refs :: "ua_error + browse_item \<Rightarrow> (node_id \<times> str option) list" where
  "item_refs (Inr item) = br_references item"
| "item_refs (Inl e) = []"

lemma browse_references_Inr:
  "browse_references refs = Inr ns \<Longrightarrow> refs = map (\<lambda>(n, name). (n, Some name)) ns"
  by (induction refs arbitrary: ns rule: browse_references.induct)
    (auto simp: res_bind_eq_Inr split: option.splits)

lemma browse_items_Inr:
  "browse_items ua items = Inr ns \<Longrightarrow> concat (map item_refs items) = map (\<lambda>(n, name). (n, Some name)) ns"
  by (induction ua items arbitrary: ns rule: browse_items.induct)
    (auto simp: res_bind_eq_Inr dest: browse_references_Inr split: if_splits)

lemma check_values_Inr:
  "check_values ua F vs ns = Inr u \<Longrightarrow> length vs = length ns \<Longrightarrow>
     list_all (\<lambda>v. \<exists>x. try_into_variant ua v = Inr x \<and> serializable x) vs"
proof (induction ua F vs ns rule: check_values.induct)
  case (1 ua F v vs node name ns)
  then obtain x t where "try_into_variant ua v = Inr x" "serialize_variant ua x = Inr t"
    "check_values ua F vs ns = Inr u"
    by (auto simp: res_bind_eq_Inr of_sum_eq_Inr json_of_eq_Inr)
  then show ?case using 1 serialize_total(1)[of ua x] by auto
qed auto

lemma numeric_node_Inr: "numeric_node n = Inr (i, s) \<longleftrightarrow> (\<exists>ns. n = (NodeId ns (Numeric i), s))"
  by (cases n) (auto simp: numeric_node_def split: node_id.splits ua_identifier.splits)

lemma browse_part_sheet_Inr:
  assumes "browse_part_sheet E H root w = (Inr nodes, w')"
  obtains items w1 vals where "ua_browse (ua_session H) browse_retries (properties_of root) w = (items, w1)"
    "list_all2 (\<lambda>r n. \<exists>ns. r = (NodeId ns (Numeric (fst n)), Some (snd n))) (concat (map item_refs items)) nodes"
    "nodes \<noteq> []" "ua_read (ua_session H) (map fst (concat (map item_refs items))) w1 = (Inr vals, w')"
    "length vals = length nodes"
    "list_all (\<lambda>v. \<exists>x. try_into_variant (env_ua E) v = Inr x \<and> serializable x) vals"
proof -
  obtain items w1 where b: "ua_browse (ua_session H) browse_retries (properties_of root) w = (items, w1)" by fastforce
  obtain ns vals u where n: "browse_items (env_ua E) items = Inr ns" "ns \<noteq> []"
    and r: "ua_read (ua_session H) (map fst ns) w1 = (Inr vals, w')" "length vals = length ns"
    and c: "check_values (env_ua E) (json_lib_of (env_row E)) vals ns = Inr u"
    and k: "list_all2 (\<lambda>x y. numeric_node x = Inr y) ns nodes"
    using assms b unfolding browse_part_sheet_def
    by (auto simp: act_bind_eq_Inr act_call_eq_Inr ensure_eq_Inr collect_eq_Inr)
  note refs = browse_items_Inr[OF n(1)]
  have l: "length nodes = length ns" using k by (simp add: list_all2_lengthD)
  have "list_all2 (\<lambda>r n. \<exists>ns. r = (NodeId ns (Numeric (fst n)), Some (snd n))) (concat (map item_refs items)) nodes"
    unfolding refs list_all2_map1
    by (rule list_all2_mono[OF k]) (auto simp: numeric_node_Inr)
  moreover have "map fst (concat (map item_refs items)) = map fst ns"
    unfolding refs by (simp add: split_beta)
  moreover have "nodes \<noteq> []" using n(2) l by auto
  ultimately show ?thesis using that[of items w1 vals] b r l check_values_Inr[OF c r(2)] by simp
qed


lemma ex_initialize:
  "initialize ex_env (ex_handler_with ()) (World ex_nodes (MemDb ex_mem []))
     = (Inr ex_handler, World ex_nodes (MemDb ex_mem []))"
proof -
  have b: "browse_part_sheet ex_env (ex_handler_with ()) n (World ex_nodes d) = (Inr [(7, lit ''part'')], World ex_nodes d)"
    for n d
    by (simp add: browse_part_sheet_def ex_session_def act_bind_def act_call_def numeric_node_def
        try_into_variant_def ex_nodes_def serialize_ua_string_def compact_json_def json_of_def)
  have n: "ua_namespace_index ex_session u w = (Inr 2, w)" for u w by (simp add: ex_session_def)
  have "position (\<lambda>(node, _). node = part_id_nid ex_common) [(7, lit ''part'')] = Some 0"
    by (simp add: ex_common_def)
  moreover have "with_state (ex_handler_with ()) (make_context ex_common 2 [(7, lit ''part'')] 0 2 [(7, lit ''part'')]) = ex_handler"
    by (simp add: with_state_def ex_handler_with_def ex_context_def)
  ultimately show ?thesis
    unfolding initialize_def Let_def
    by (simp add: act_bind_def act_call_def act_map_err_def b n del: lit_Cons)
qed


section \<open>Saving\<close>

text \<open>C2. A save request that succeeds has stored what it read: the values of the general and
  operation nodes, read together from the machine, each of good status; the identifier that
  keys them is the value of the part identifier node, and it is valid.  The store has then
  exactly one more row in each queue, and the cached sheet of that part, on top of what
  other tasks did meanwhile; fewer rows than the threshold were queued when it began.\<close>

theorem save_stores_what_was_read:
  assumes "handler_world R view wview wbase rview (env_rt E) (ua_session H) rely"
    and "cache_redb (cache H) = R" and "context_ok H" and "handle_save E H w = (Inr u, w')"
  shows "\<exists>wc w1 vals pid g p t ts ctx bytes jg jo.
     check_enqueuing H w = (Inr (), wc) \<and>
     (of_nat (queued (view (store w))) :: u64) < queues_threshold (cache H) \<and>
     ua_read (ua_session H) (save_node_ids H) wc = (Inr vals, w1) \<and>
     map item_node g = general_nodes (general_part_sheet (state H)) \<and>
     map item_node p = operation_nodes (operation_part_sheet (state H)) \<and>
     list_all2 (\<lambda>v i. try_into_variant (env_ua E) v = Inr (item_value i)) vals (g @ p) \<and>
     ascii_from_variant (env_ua E) 23 (item_value (g ! part_id_index (general_part_sheet (state H)))) = Inr pid \<and>
     validate_part_identifier (env_dates E) pid = Inr () \<and>
     rely (view (store w)) t \<and>
     encode_sheets (env_codec E) (env_ua E) (env_row E) ts (server_id H) pid g p ctx = Inr (bytes, jg, jo) \<and>
     view (store w') = spec_save (as_str pid) bytes jg jo t"
proof -
  obtain wc w1 pid g p t ts ctx bytes jg jo where
    c: "check_enqueuing H w = (Inr (), wc)" and r: "read_part_sheets E H wc = (Inr (pid, g, p), w1)"
    and t: "rely (view (store w)) t"
      "encode_sheets (env_codec E) (env_ua E) (env_row E) ts (server_id H) pid g p ctx = Inr (bytes, jg, jo)"
      "view (store w') = spec_save (as_str pid) bytes jg jo t"
    using handler_world.handle_save_Inr[OF assms(1,4,2) refl refl] by (elim exE conjE)
  obtain r' where "check_enqueuing_allowed (cache H) (store w) = (Inr r', store wc)"
    using c by (auto simp: check_enqueuing_def map_err_eq_Inr split: prod.splits)
  then have q: "(of_nat (queued (view (store w))) :: u64) < queues_threshold (cache H)"
    using redb_store.check_enqueuing_Inr[OF handler_world.axioms(1)[OF assms(1)] _ assms(2)] by blast
  show ?thesis using c q read_part_sheets_Inr[OF r assms(3)] t by blast
qed

lemma ex_check: "check_enqueuing ex_handler (World n (MemDb ex_mem [])) = (Inr (), World n (MemDb ex_mem []))"
  by (simp add: check_enqueuing_def check_enqueuing_allowed_def queue_tables_def table_definition_def mem_run ex_mem_def)

abbreviation ex_item :: saved_item where
  "ex_item \<equiv> (7, lit ''part'', VString (Some (lit ''010498013AAAB4431700001'')))"

lemma ex_save_nodes:
  "save_node_ids ex_handler = [NodeId 2 (Numeric 7), NodeId 2 (Numeric 7)]"
  "named_nodes ex_handler = [(7, lit ''part''), (7, lit ''part'')]"
  by (simp_all add: save_node_ids_def named_nodes_def ex_context_def make_context_def)

lemma ex_read_sheets:
  "read_part_sheets ex_env ex_handler (World ex_nodes db) = (Inr (ex_id, [ex_item], [ex_item]), World ex_nodes db)"
proof -
  note n = ex_save_nodes
  have a: "ascii_from_variant ex_ua 23 (VString (Some (lit ''010498013AAAB4431700001''))) = Inr ex_id"
    using ex_id_parse(1) by (simp only: ascii_from_variant_eq_Inr) blast
  have g: "part_id_index (general_part_sheet ex_context) = 0"
    "length (general_nodes (general_part_sheet ex_context)) = 1"
    by (simp_all add: ex_context_def make_context_def)
  have i: "sheet_item ex_ua ((7, lit ''part''), \<lparr>dv_value = Some (VString (Some s)), dv_status = 0\<rparr>)
      = Inr (7, lit ''part'', VString (Some s))" for s
    by (simp add: sheet_item_def try_into_variant_def)
  have v: "map_of ex_nodes (NodeId 2 (Numeric 7)) = Some (VString (Some (lit ''010498013AAAB4431700001'')))"
    by (simp add: ex_nodes_def)
  show ?thesis
    unfolding read_part_sheets_def Let_def n ex_handler_simps g
    using a v ex_id_parse(3)
    by (simp add: act_bind_def act_call_def ex_session_def i del: lit_Cons)
qed

lemma ex_item_encodes:
  "\<exists>bytes jg jo. encode_sheets le_codec ex_ua ex_row () (lit ''M1'') ex_id [ex_item] [ex_item] () = Inr (bytes, jg, jo)"
  by (simp add: encode_sheets_def encode_part_sheet_for_cache_def count_u16_def written_def
      encode_item_def le_codec_def of_enc_def encode_part_sheet_for_db_def json_of_def serialize_row_def
      serialize_part_sheet_def serialize_timestamp_def compact_json_def serialize_ua_string_def del: lit_Cons)

lemma ex_handle_save:
  assumes "encode_sheets le_codec ex_ua ex_row () (lit ''M1'') ex_id [ex_item] [ex_item] () = Inr (bytes, jg, jo)"
  shows "handle_save ex_env ex_handler (World ex_nodes (MemDb ex_mem []))
    = (Inr (), World ex_nodes (MemDb (mem_saved (as_str ex_id) bytes jg jo ex_mem) []))"
proof -
  have "ua_context ex_env w = ()" "timestamp_now ex_env w = ()" for w by simp_all
  then show ?thesis
    unfolding handle_save_def
    by (simp add: act_bind_def ex_check ex_read_sheets blocking_def ex_runtime_def mem_save[OF assms] del: lit_Cons)
qed

theorem save_stores_what_was_read_witness:
  "\<exists>w' pid bytes jg jo. handle_save ex_env ex_handler (World ex_nodes (MemDb ex_mem [])) = (Inr (), w') \<and>
     validate_part_identifier gregorian pid = Inr () \<and>
     mem_view (db_tables (store w')) = spec_save (as_str pid) bytes jg jo (mem_view ex_mem)"
proof -
  obtain bytes jg jo where e:
    "encode_sheets le_codec ex_ua ex_row () (lit ''M1'') ex_id [ex_item] [ex_item] () = Inr (bytes, jg, jo)"
    using ex_item_encodes by blast
  have w: "handler_world mem_redb (mem_view \<circ> db_tables) (mem_view \<circ> mw_now) (mem_view \<circ> mw_base)
      (mem_view \<circ> mr_tables) (env_rt ex_env) (ua_session ex_handler) (=)"
    using exhandler.handler_world_axioms by simp
  have c: "cache_redb (cache ex_handler) = mem_redb" by simp
  show ?thesis
    using save_stores_what_was_read[OF w c ex_context_ok ex_handle_save[OF e]] ex_handle_save[OF e]
    by (auto simp del: lit_Cons)
qed

text \<open>C16. A save request that fails changes nothing in the store beyond what other tasks did, whatever
  the failure, except that a failed commit may have applied the whole save.\<close>

theorem failed_save_changes_nothing:
  assumes "handler_world R view wview wbase rview (env_rt E) (ua_session H) rely"
    and "cache_redb (cache H) = R" and "handle_save E H w = (Inl f, w')"
    and "\<And>e. f \<noteq> Err (CacheSave (Save_Commit e))"
  shows "rely (view (store w)) (view (store w'))"
  using handler_world.handle_save_Inl[OF assms(1,3,2) refl refl] assms(4) by blast

text \<open>The witness: the read gives no value, so the request fails on the first node.\<close>

theorem failed_save_changes_nothing_witness:
  "\<exists>f w'. handle_save ex_env ex_handler (World [] (MemDb ex_mem [])) = (Inl f, w') \<and>
     mem_view ex_mem = mem_view (db_tables (store w'))"
proof -
  have r: "read_part_sheets ex_env ex_handler (World [] d) = (Inl (Err (PartSheetValue MissingValue (lit ''part''))), World [] d)"
    for d
    unfolding read_part_sheets_def Let_def ex_save_nodes ex_handler_simps
    by (simp add: act_bind_def act_call_def ex_session_def sheet_item_def try_into_variant_def del: lit_Cons)
  have s: "handle_save ex_env ex_handler (World [] (MemDb ex_mem []))
      = (Inl (Err (PartSheetValue MissingValue (lit ''part''))), World [] (MemDb ex_mem []))"
    unfolding handle_save_def by (simp add: act_bind_def ex_check r del: lit_Cons)
  have w: "handler_world mem_redb (mem_view \<circ> db_tables) (mem_view \<circ> mw_now) (mem_view \<circ> mw_base)
      (mem_view \<circ> mr_tables) (env_rt ex_env) (ua_session ex_handler) (=)"
    using exhandler.handler_world_axioms by simp
  have c: "cache_redb (cache ex_handler) = mem_redb" by simp
  show ?thesis using failed_save_changes_nothing[OF w c s] s by auto
qed

section \<open>Reading back on another machine\<close>

definition same_sheet :: "str \<Rightarrow> tables \<Rightarrow> tables \<Rightarrow> bool" where
  "same_sheet k t t' \<longleftrightarrow> opened (sheets t') k = opened (sheets t) k"

lemma read_back_last_save:
  assumes "handler_world R view wview wbase rview (env_rt E1) (ua_session H1) rely"
    and "handler_world R view wview wbase rview (env_rt E2) (ua_session H2) (same_sheet (as_str pid))"
    and "cache_redb (cache H1) = R" and "cache_redb (cache H2) = R" and "env_codec E2 = env_codec E1"
    and "binary_codec (env_codec E1) portable" and "list_all (\<lambda>i. portable (item_value i)) g"
    and "handle_save E1 H1 w = (Inr u, w1)"
    and "read_part_sheets E1 H1 (snd (check_enqueuing H1 w)) = (Inr (pid, g, p), wr)"
    and "same_sheet (as_str pid) (view (store w1)) (view (store w2))"
    and "cached_part_sheet E2 H2 w2 = (Inr (pid, sheet), w3)" and "handle_read E2 H2 w2 = (Inr u', w4)"
  shows "sheet = map cached_item g \<and>
    (\<exists>rs. ua_write (ua_session H2) (map (\<lambda>(i, v). WriteValue (general_node H2 i) v)
          (filter (\<lambda>(i, v). i \<notin> set (excluded_read_nids (common_opcua H2))) (map cached_item g))) w3 = (Inr rs, w4) \<and>
      list_all (is_good (env_ua E2)) rs)"
proof -
  obtain wc wq pid' g' p' t ts ctx bytes jg jo where
    c: "check_enqueuing H1 w = (Inr (), wc)" "read_part_sheets E1 H1 wc = (Inr (pid', g', p'), wq)"
    and e: "encode_sheets (env_codec E1) (env_ua E1) (env_row E1) ts (server_id H1) pid' g' p' ctx = Inr (bytes, jg, jo)"
    and v: "view (store w1) = spec_save (as_str pid') bytes jg jo t"
    using handler_world.handle_save_Inr[OF assms(1,8,3) refl refl] by (elim exE conjE)
  have pg: "pid' = pid" "g' = g" using assms(9) c by simp_all
  obtain t2 b2 ctx2 where s: "same_sheet (as_str pid) (view (store w2)) t2"
    "opened (sheets t2) (as_str pid) = Some b2" "decode_cached_part_sheet (env_codec E2) ctx2 b2 = Inr sheet"
    using handler_world.cached_part_sheet_Inr[OF assms(2,11,4) refl refl] by (elim exE conjE)
  have "opened (sheets (view (store w1))) (as_str pid) = Some bytes" using v pg by (simp add: spec_save_def)
  then have b: "b2 = bytes" using s(1,2) assms(10) by (simp add: same_sheet_def)
  have "encode_part_sheet_for_cache (env_codec E1) ctx g = Inr bytes"
    using e pg by (auto simp: encode_sheets_def res_bind_eq_Inr map_err_eq_Inr)
  then have sh: "sheet = map cached_item g"
    using binary_codec.decode_encoded_sheet[OF assms(6) _ assms(7)] s(3) b assms(5) by simp
  have wr: "write_checked (env_ua E2) (ua_session H2) (read_writes H2 sheet) w3 = (Inr (), w4)"
    using assms(11,12) by (simp add: handle_read_def act_bind_eq_Inr act_map_err_eq_Inr)
  have "read_writes H2 sheet = map (\<lambda>(i, v). WriteValue (general_node H2 i) v)
      (filter (\<lambda>(i, v). i \<notin> set (excluded_read_nids (common_opcua H2))) sheet)"
    unfolding read_writes_def by (intro arg_cong[where f = "map _"] filter_cong refl) (auto simp: list_all_iff)
  then show ?thesis
    using wr[unfolded write_checked_Inr] unfolding sh by simp
qed

text \<open>C3. The part sheet follows the part from machine to machine: after a save on one machine and as
  long as no other save of the same part intervenes, a read request on any machine, for that
  part, writes exactly the saved values back, in order, at the same numeric identifiers in
  its own namespace, leaving out the excluded nodes.\<close>

theorem read_writes_last_save:
  assumes "handler_world R view wview wbase rview (env_rt E1) (ua_session H1) rely"
    and "handler_world R view wview wbase rview (env_rt E2) (ua_session H2) (same_sheet (as_str pid))"
    and "cache_redb (cache H1) = R" and "cache_redb (cache H2) = R" and "env_codec E2 = env_codec E1"
    and "binary_codec (env_codec E1) portable" and "list_all (\<lambda>i. portable (item_value i)) g"
    and "handle_save E1 H1 w = (Inr u, w1)"
    and "read_part_sheets E1 H1 (snd (check_enqueuing H1 w)) = (Inr (pid, g, p), wr)"
    and "same_sheet (as_str pid) (view (store w1)) (view (store w2))"
    and "cached_part_sheet E2 H2 w2 = (Inr (pid, sheet), w3)" and "handle_read E2 H2 w2 = (Inr u', w4)"
  shows "sheet = map cached_item g \<and>
    (\<exists>rs. ua_write (ua_session H2) (map (\<lambda>(i, v). WriteValue (general_node H2 i) v)
          (filter (\<lambda>(i, v). i \<notin> set (excluded_read_nids (common_opcua H2))) (map cached_item g))) w3 = (Inr rs, w4) \<and>
      list_all (is_good (env_ua E2)) rs)"
  by (rule read_back_last_save[OF assms])

lemma ex_cached:
  assumes "encode_sheets le_codec ex_ua ex_row () (lit ''M1'') ex_id [ex_item] [ex_item] () = Inr (bytes, jg, jo)"
  shows "\<exists>sheet. cached_part_sheet ex_env ex_handler
      (World ex_nodes (MemDb (mem_saved (as_str ex_id) bytes jg jo ex_mem) []))
    = (Inr (ex_id, sheet), World ex_nodes (MemDb (mem_saved (as_str ex_id) bytes jg jo ex_mem) []))"
proof -
  have b: "encode_part_sheet_for_cache le_codec () [ex_item] = Inr bytes"
    using assms by (auto simp: encode_sheets_def res_bind_eq_Inr map_err_eq_Inr)
  have d: "decode_cached_part_sheet le_codec () bytes = Inr (map cached_item [ex_item])"
    by (rule lec.decode_encoded_sheet[OF b]) simp
  have a: "ascii_from_variant ex_ua 23 (VString (Some (lit ''010498013AAAB4431700001''))) = Inr ex_id"
    using ex_id_parse(1) by (simp only: ascii_from_variant_eq_Inr) blast
  have n: "general_node ex_handler (part_id_nid ex_common) = NodeId 2 (Numeric 7)"
    by (simp add: general_node_def ex_context_def make_context_def ex_common_def)
  have v: "map_of ex_nodes (NodeId 2 (Numeric 7)) = Some (VString (Some (lit ''010498013AAAB4431700001'')))"
    by (simp add: ex_nodes_def)
  have g: "get_general_part_sheet le_codec ex_cache (as_str ex_id) () (MemDb (mem_saved (as_str ex_id) bytes jg jo ex_mem) [])
      = (Inr (Some (map cached_item [ex_item])), MemDb (mem_saved (as_str ex_id) bytes jg jo ex_mem) [])"
    by (simp add: get_general_part_sheet_def mem_run mem_saved_def d del: lit_Cons)
  show ?thesis
    unfolding cached_part_sheet_def Let_def ex_handler_simps n
    using g by (simp add: act_bind_def act_call_def ex_session_def exactly_one_def v a try_ua_value_as_def
        try_into_variant_def blocking_def ex_runtime_def del: lit_Cons)
qed

theorem read_writes_last_save_witness:
  "\<exists>w1 w3 w4 sheet. handle_save ex_env ex_handler (World ex_nodes (MemDb ex_mem [])) = (Inr (), w1) \<and>
     cached_part_sheet ex_env ex_handler w1 = (Inr (ex_id, sheet), w3) \<and>
     handle_read ex_env ex_handler w1 = (Inr (), w4) \<and> sheet = map cached_item [ex_item]"
proof -
  obtain bytes jg jo where e:
    "encode_sheets le_codec ex_ua ex_row () (lit ''M1'') ex_id [ex_item] [ex_item] () = Inr (bytes, jg, jo)"
    using ex_item_encodes by blast
  let ?w1 = "World ex_nodes (MemDb (mem_saved (as_str ex_id) bytes jg jo ex_mem) [])"
  obtain sheet where c: "cached_part_sheet ex_env ex_handler ?w1 = (Inr (ex_id, sheet), ?w1)"
    using ex_cached[OF e] by blast
  obtain w4 where r: "handle_read ex_env ex_handler ?w1 = (Inr (), w4)"
    using c by (simp add: handle_read_def act_bind_def act_map_err_def write_checked_def act_call_def
        ex_session_def check_write_results_def position_None del: lit_Cons split: option.splits)
  have w: "handler_world mem_redb (mem_view \<circ> db_tables) (mem_view \<circ> mw_now) (mem_view \<circ> mw_base)
      (mem_view \<circ> mr_tables) (env_rt ex_env) (ua_session ex_handler) (=)"
    using exhandler.handler_world_axioms by simp
  have w2: "handler_world mem_redb (mem_view \<circ> db_tables) (mem_view \<circ> mw_now) (mem_view \<circ> mw_base)
      (mem_view \<circ> mr_tables) (env_rt ex_env) (ua_session ex_handler) (same_sheet (as_str ex_id))"
    unfolding ex_handler_simps by (rule ex_handler_world) (simp_all add: same_sheet_def)
  have rs: "read_part_sheets ex_env ex_handler (snd (check_enqueuing ex_handler (World ex_nodes (MemDb ex_mem []))))
      = (Inr (ex_id, [ex_item], [ex_item]), World ex_nodes (MemDb ex_mem []))"
    by (simp add: ex_check ex_read_sheets del: lit_Cons)
  have low: "\<forall>c\<in>set (lit ''010498013AAAB4431700001''). c < 128" by simp
  have "sheet = map cached_item [ex_item]"
    by (rule conjunct1[OF read_writes_last_save[OF w w2 _ _ _ _ _ ex_handle_save[OF e] rs _ c r, where portable = value_ok]])
      (simp_all add: lec.binary_codec_axioms same_sheet_def low del: lit_Cons)
  then show ?thesis using ex_handle_save[OF e] c r by blast
qed

section \<open>Creating part identifiers\<close>

text \<open>Serial numbers never decrease, and stay below the last number of their type.\<close>

definition serials_sane :: "tables \<Rightarrow> bool" where
  "serials_sane t \<longleftrightarrow> (\<forall>k. last_serial k t + 1 < 2 ^ 32)"

definition serials_grow :: "tables \<Rightarrow> tables \<Rightarrow> bool" where
  "serials_grow t t' \<longleftrightarrow> (\<forall>k. last_serial k t \<le> last_serial k t') \<and> (serials_sane t \<longrightarrow> serials_sane t')"

lemma serials_grow_refl: "serials_grow t t"
  by (simp add: serials_grow_def)

lemma serials_grow_trans: "serials_grow t t1 \<Longrightarrow> serials_grow t1 t2 \<Longrightarrow> serials_grow t t2"
  by (meson serials_grow_def le_trans)

lemma new_part_ids_differ:
  assumes "handler_world R view wview wbase rview (env_rt E1) (ua_session H1) serials_grow"
    and "handler_world R view wview wbase rview (env_rt E2) (ua_session H2) serials_grow"
    and "cache_redb (cache H1) = R" and "cache_redb (cache H2) = R"
    and "env_dates E1 = J" and "env_dates E2 = J" and "env_nd E2 = env_nd E1" and "calendar J valid"
    and "\<forall>w. zoned_date E1 (now_zoned (time_of H1) w) \<in> D \<and> zoned_date E2 (now_zoned (time_of H2) w) \<in> D"
    and "\<forall>d\<in>D. valid d \<and> (\<forall>d'\<in>D. strftime_yj J d = strftime_yj J d' \<longrightarrow> strftime_ymd J d = strftime_ymd J d')"
    and "\<forall>l. line_id_of (machine_conf H1) = Some l \<or> line_id_of (machine_conf H2) = Some l \<longrightarrow> ascii_wf 2 l"
    and "new_part_id E1 H1 w1 = (Inr id1, w1')" and "serials_grow (view (store w1')) (view (store w2))"
    and "new_part_id E2 H2 w2 = (Inr id2, w2')"
    and "serials_sane (view (store w1))" and "serials_sane (view (store w1'))"
  shows "id1 \<noteq> id2"
proof -
  obtain l1 r1 b1 v1 t1 where 1: "line_id_of (machine_conf H1) = Some l1" "ascii_wf 2 b1"
    "serials_grow (view (store w1)) t1"
    "view (store w1') = spec_serial_step (strftime_ymd J (zoned_date E1 (now_zoned (time_of H1) v1))) t1"
    "create_part_identifier (env_nd E1) J r1 b1 l1 (zoned_date E1 (now_zoned (time_of H1) v1))
       (spec_serial (strftime_ymd J (zoned_date E1 (now_zoned (time_of H1) v1))) t1) = Inr id1"
    using handler_world.new_part_id_Inr[OF assms(1,12,3) refl refl] assms(5) unfolding Let_def by (elim exE conjE) simp
  obtain l2 r2 b2 v2 t2 where 2: "line_id_of (machine_conf H2) = Some l2" "ascii_wf 2 b2"
    "serials_grow (view (store w2)) t2"
    "create_part_identifier (env_nd E1) J r2 b2 l2 (zoned_date E2 (now_zoned (time_of H2) v2))
       (spec_serial (strftime_ymd J (zoned_date E2 (now_zoned (time_of H2) v2))) t2) = Inr id2"
    using handler_world.new_part_id_Inr[OF assms(2,14,4) refl refl] assms(6,7) unfolding Let_def by (elim exE conjE) simp
  let ?d1 = "zoned_date E1 (now_zoned (time_of H1) v1)" and ?d2 = "zoned_date E2 (now_zoned (time_of H2) v2)"
  have sane: "serials_sane t1" "serials_sane t2"
    using assms(13,15,16) 1(3) 2(3) by (simp_all add: serials_grow_def)
  have lt: "spec_serial (strftime_ymd J ?d1) t1 \<noteq> spec_serial (strftime_ymd J ?d2) t2"
    if "strftime_ymd J ?d1 = strftime_ymd J ?d2"
  proof -
    let ?k = "strftime_ymd J ?d1"
    have "last_serial ?k t1 + 1 < 2 ^ 32" "last_serial ?k t2 + 1 < 2 ^ 32"
      using sane unfolding serials_sane_def by blast+
    note s1 = last_serial_spec[OF this(1)] and s2 = last_serial_spec(1)[OF this(2)]
    have "last_serial ?k (view (store w1')) = last_serial ?k t1 + 1" using s1(2)[of ?k] 1(4) by simp
    moreover have "last_serial ?k (view (store w1')) \<le> last_serial ?k t2"
      using assms(13) 2(3) unfolding serials_grow_def by (meson le_trans)
    ultimately have "unat (spec_serial ?k t1) < unat (spec_serial ?k t2)" using s1(1) s2 by simp
    then show ?thesis using that by auto
  qed
  have wf: "ascii_wf 2 l1" "ascii_wf 2 l2" using assms(11) 1(1) 2(1) by blast+
  show ?thesis
    by (rule created_identifiers_differ[OF assms(8) _ _ 1(2) wf(1) 2(2) wf(2) 1(5) 2(4)])
      (use assms(9,10) lt in blast)+
qed


definition ex_numbered :: "nat \<Rightarrow> mem" where
  "ex_numbered n = (if n = 0 then ex_mem
     else ex_mem\<lparr>m_serials := Some (RBT.insert (strftime_ymd gregorian example_day) (of_nat n) RBT.empty)\<rparr>)"

lemma ex_new_part_id:
  assumes "create_part_identifier unicode_nd gregorian (lit ''1-498GR13'')
     (AsciiDigitsOrUpper [65, 65]) (AsciiDigitsOrUpper [65, 66]) example_day (of_nat (Suc n)) = Inr s"
  shows "\<exists>m. new_part_id ex_env ex_handler (World ex_nodes (MemDb (ex_numbered n) []))
    = (Inr s, World ex_nodes (MemDb m [])) \<and> mem_view m = mem_view (ex_numbered (Suc n))"
proof -
  let ?k = "strftime_ymd gregorian example_day"
  have nodes: "general_node ex_handler (raw_part_ref_nid ex_common) = NodeId 2 (Numeric 8)"
    "general_node ex_handler (raw_batch_nid ex_common) = NodeId 2 (Numeric 9)"
    by (simp_all add: general_node_def ex_context_def make_context_def ex_common_def)
  have v: "map_of ex_nodes (NodeId 2 (Numeric 8)) = Some (VString (Some (lit ''1-498GR13'')))"
    "map_of ex_nodes (NodeId 2 (Numeric 9)) = Some (VString (Some (lit ''AA'')))"
    by (simp_all add: ex_nodes_def)
  have a: "ascii_from_variant ex_ua 2 (VString (Some (lit ''AA''))) = Inr (AsciiDigitsOrUpper [65, 65])"
    by (simp add: ascii_from_variant_eq_Inr from_str_def try_from_bytes_def utf8_char_def
        is_ascii_digit_def is_ascii_uppercase_def ascii_digit_def ascii_upper_def)
  have st: "string_from_variant ex_ua (VString (Some x)) = Inr x" for x
    by (simp add: string_from_variant_eq_Inr)
  have z: "zoned_date ex_env (now_zoned (time_of ex_handler) w) = example_day" for w
    by (simp add: ex_env_def now_zoned_def now_def ex_handler_with_def)
  have l: "line_id_of ex_machine = Some (AsciiDigitsOrUpper [65, 66])" by (simp add: ex_machine_def)
  define m where "m = (ex_numbered n)\<lparr>m_serials := Some (RBT.insert ?k (of_nat (Suc n))
      (table_or_empty (m_serials (ex_numbered n))))\<rparr>"
  have ns: "next_serial gregorian ex_cache example_day (MemDb (ex_numbered n) []) = (Inr (of_nat (Suc n)), MemDb m [])"
    by (cases "n = 0") (simp_all add: next_serial_def mem_run ex_numbered_def m_def ex_mem_def add.commute)
  have "new_part_id ex_env ex_handler (World ex_nodes (MemDb (ex_numbered n) [])) = (Inr s, World ex_nodes (MemDb m []))"
    unfolding new_part_id_def Let_def ex_handler_simps nodes l
    using assms by (simp add: act_bind_def act_call_def ex_session_def v exactly_two_def a st z ns try_ua_value_as_def
        try_into_variant_def blocking_def ex_runtime_def del: lit_Cons of_nat_Suc)
  moreover have "mem_view m = mem_view (ex_numbered (Suc n))"
    by (cases "n = 0") (auto simp: m_def ex_numbered_def mem_view_def ex_mem_def table_or_empty_def fun_eq_iff)
  ultimately show ?thesis by blast
qed

lemma ex_numbered_sane: "serials_sane (mem_view (ex_numbered n))" if "n < 100"
  using that by (auto simp: serials_sane_def last_serial_def ex_numbered_def ex_mem_def mem_view_def opened_def
      lookup_insert unat_of_nat split: option.splits)


end
