(* ===== verification/Request_Claims.thy ===== *)
theory Request_Claims
  imports Handler_Claims
begin

text \<open>
  The request task and the heartbeat task of a machine: every request is answered, by a code that
  tells what happened, an initial request is not handled twice, and which answers of the
  server make the task panic.
\<close>

section \<open>Servers that answer each item\<close>

text \<open>The services give one result for each node asked for, as OPC-UA Part 4 requires.\<close>

definition reads_answered :: "'x session \<Rightarrow> bool" where
  "reads_answered S \<longleftrightarrow> (\<forall>ns w vs w'. ua_read S ns w = (Inr vs, w') \<longrightarrow> length vs = length ns)"

definition writes_answered :: "'x session \<Rightarrow> bool" where
  "writes_answered S \<longleftrightarrow> (\<forall>vs w ss w'. ua_write S vs w = (Inr ss, w') \<longrightarrow> length ss = length vs)"

lemma ex_session_answers: "reads_answered ex_session" "writes_answered ex_session"
  by (auto simp: reads_answered_def writes_answered_def ex_session_def)

lemma write_checked_no_panic:
  "writes_answered S \<Longrightarrow> write_checked ua S vs w \<noteq> (Inl (Panic m), w')"
  by (auto simp: write_checked_def act_bind_eq_Inl act_call_eq_Inr writes_answered_def
      dest: check_write_results_no_panic[OF eq_refl])

lemma write_ignored_total: "writes_answered S \<Longrightarrow> \<exists>w'. write_ignored ua S vs w = (Inr (), w')"
  using write_checked_no_panic[of S ua vs w]
  by (cases "write_checked ua S vs w") (auto simp: write_ignored_def split: sum.splits fault.splits)

section \<open>No request panics\<close>

lemma act_lift_of_sum_no_panic [simp]: "act_lift (of_sum f x) w \<noteq> (Inl (Panic m), w')"
  by simp

lemma read_txn_no_panic:
  "(\<And>r. f r \<noteq> Inl (Panic m)) \<Longrightarrow> read_txn R e f db \<noteq> (Inl (Panic m), db')"
  by (auto simp: read_txn_def split: prod.splits sum.splits)

lemma count_enqueued_no_panic: "count_enqueued R r k qs \<noteq> Inl (Panic m)"
  by (induction R r k qs rule: count_enqueued.induct)
    (auto simp: res_bind_eq_Inl split: sum.splits table_error.splits)

lemma check_enqueuing_no_panic: "check_enqueuing H w \<noteq> (Inl (Panic m), w')"
proof -
  have "check_enqueuing_allowed (cache H) (store w) \<noteq> (Inl (Panic m), d)" for d
    unfolding check_enqueuing_allowed_def
    by (rule read_txn_no_panic) (auto simp: res_bind_eq_Inl count_enqueued_no_panic split: if_splits)
  then show ?thesis by (auto simp: check_enqueuing_def map_err_eq_Panic split: prod.splits)
qed

lemma blocking_no_panic [simp]: "blocking rt j e f w \<noteq> (Inl (Panic m), w')"
  by (auto simp: blocking_def split: prod.splits option.splits sum.splits fault.splits)

lemma handle_save_no_panic: "context_ok H \<Longrightarrow> handle_save E H w \<noteq> (Inl (Panic m), w')"
  by (auto simp: handle_save_def act_bind_eq_Inl check_enqueuing_no_panic read_part_sheets_no_panic)

lemma create_part_id_no_panic:
  "writes_answered (ua_session H) \<Longrightarrow> create_part_id E H w \<noteq> (Inl (Panic m), w')"
  by (auto simp: create_part_id_def new_part_id_def Let_def act_bind_eq_Inl act_map_err_eq_Panic
      write_checked_no_panic ok_or_def exactly_two_def split: option.splits list.splits)

lemma handle_read_no_panic:
  assumes "reads_answered (ua_session H)" "writes_answered (ua_session H)"
  shows "handle_read E H w \<noteq> (Inl (Panic m), w')"
proof -
  have "cached_part_sheet E H w \<noteq> (Inl (Panic m), w')"
    using assms(1) unfolding cached_part_sheet_def Let_def reads_answered_def
    by (fastforce simp: act_bind_eq_Inl act_call_eq_Inr ok_or_def exactly_one_def
        split: option.splits list.splits)
  then show ?thesis
    using write_checked_no_panic[OF assms(2)]
    by (auto simp: handle_read_def act_bind_eq_Inl act_map_err_eq_Panic)
qed

lemma handle_request_no_panic:
  assumes "context_ok H" "reads_answered (ua_session H)" "writes_answered (ua_session H)"
  shows "handle_request E H val w \<noteq> (Inl (Panic m), w')"
  by (auto simp: handle_request_def act_bind_eq_Inl act_map_err_eq_Panic ok_or_def handle_save_no_panic[OF assms(1)]
      create_part_id_no_panic[OF assms(3)] handle_read_no_panic[OF assms(2,3)]
      split: option.splits trace_request.splits)

section \<open>Response codes\<close>

definition requested :: "('s, 'db, 'c, 'd, 't, 'z) handler_env \<Rightarrow> data_value \<Rightarrow> trace_request option" where
  "requested E val = (case try_ua_value_as (env_ua E) (u8_from_variant (env_ua E)) val of
     Inr c \<Rightarrow> request_from_repr c | Inl _ \<Rightarrow> None)"

text \<open>The tens digit of the codes that report the failure of a request.\<close>

fun error_decade :: "trace_request option \<Rightarrow> nat" where
  "error_decade (Some CreatePartId) = 1"
| "error_decade (Some ReadPartSheet) = 2"
| "error_decade (Some SavePartSheets) = 3"
| "error_decade _ = 9"

lemma error_codes:
  "to_response_code e \<notin> {response_reset, response_success}"
  by (induction e rule: to_response_code.induct) (simp_all add: response_reset_def response_success_def)

lemma error_decades:
  "unat (to_response_code (CreatePartIdError ce)) div 10 = 1"
  "unat (to_response_code (HandleReadError re)) div 10 = 2"
  "unat (to_response_code (HandleSaveError se)) div 10 = 3"
proof -
  show "unat (to_response_code (CreatePartIdError ce)) div 10 = 1" by (cases ce) simp_all
  show "unat (to_response_code (HandleReadError re)) div 10 = 2" by (cases re) simp_all
  show "unat (to_response_code (HandleSaveError se)) div 10 = 3" by (cases se) simp_all
qed

text \<open>C14. The response code tells the machine what happened: the reset code exactly when a reset was
  requested, the success code exactly when another request succeeded, and otherwise a code
  whose tens digit names the request that failed, nine for a value that is no request; a
  reset or an unknown request changes nothing.\<close>

theorem response_code_meaning:
  assumes "handle_request E H val w = (r, w')" and "respond r = Inr code"
  shows "(code = response_reset \<longleftrightarrow> requested E val = Some Reset) \<and>
    (code = response_success \<longleftrightarrow> r = Inr response_success) \<and>
    (code \<notin> {response_reset, response_success} \<longleftrightarrow> (\<exists>e. r = Inl (Err e))) \<and>
    (code \<notin> {response_reset, response_success} \<longrightarrow> unat code div 10 = error_decade (requested E val)) \<and>
    (requested E val \<in> {None, Some Reset} \<longrightarrow> w' = w)"
proof -
  let ?v = "try_ua_value_as (env_ua E) (u8_from_variant (env_ua E)) val"
  consider (bad) e where "?v = Inl e" | (unknown) c where "?v = Inr c" "request_from_repr c = None"
    | (known) c q where "?v = Inr c" "request_from_repr c = Some q"
    by (cases ?v) (auto simp: option.exhaust_sel)
  then show ?thesis
  proof cases
    case bad
    then show ?thesis using assms
      by (auto simp: handle_request_def requested_def respond_def response_reset_def response_success_def)
  next
    case unknown
    then show ?thesis using assms
      by (auto simp: handle_request_def requested_def respond_def response_reset_def response_success_def)
  next
    case known
    then have q: "requested E val = Some q" by (simp add: requested_def)
    have d: "response_reset \<noteq> response_success" by (simp add: response_reset_def response_success_def)
    consider (reset) "q = Reset" | (ok) "q \<noteq> Reset" "r = Inr response_success"
      | (fail) e where "q \<noteq> Reset" "r = Inl (Err e)" "unat (to_response_code e) div 10 = error_decade (Some q)"
      using assms known unfolding handle_request_def
      by (cases q; cases r)
        (auto simp: act_bind_eq_Inr act_bind_eq_Inl act_map_err_eq_Err respond_def error_decades
          split: fault.splits)
    then show ?thesis
    proof cases
      case reset
      then show ?thesis using assms known q d by (auto simp: handle_request_def respond_def)
    next
      case ok
      then show ?thesis using assms(2) q d by (auto simp: respond_def)
    next
      case fail
      then show ?thesis using assms(2) q error_codes[of e] by (auto simp: respond_def)
    qed
  qed
qed

theorem response_code_meaning_witness:
  "\<exists>r w'. handle_request ex_env ex_handler \<lparr>dv_value = Some (VByte 7), dv_status = 0\<rparr> (World ex_nodes (MemDb ex_mem [])) = (r, w') \<and>
     respond r = Inr 92 \<and> w' = World ex_nodes (MemDb ex_mem [])"
proof -
  have r: "handle_request ex_env ex_handler \<lparr>dv_value = Some (VByte 7), dv_status = 0\<rparr> (World ex_nodes (MemDb ex_mem []))
      = (Inl (Err (UnknownValue 7)), World ex_nodes (MemDb ex_mem []))"
    by (simp add: handle_request_def try_ua_value_as_def try_into_variant_def request_from_repr_def act_bind_def u8_from_variant_def)
  have c: "respond (Inl (Err (UnknownValue 7))) = Inr 92" by (simp add: respond_def)
  show ?thesis using response_code_meaning[OF r c] r c by auto
qed

section \<open>Answering every request\<close>

lemma answer_request_total:
  assumes "context_ok H" "reads_answered (ua_session H)" "writes_answered (ua_session H)"
  shows "\<exists>code w'. answer_request E H node val w = (Inr code, w')"
proof -
  obtain r w1 where r: "handle_request E H val w = (r, w1)" by fastforce
  then obtain c where "respond r = Inr c"
    using handle_request_no_panic[OF assms, of E val w _ w1]
    by (cases r; cases "projl r") (auto simp: respond_def)
  moreover obtain w2 where "write_ignored (env_ua E) (ua_session H) [WriteValue node (VByte c)] w1 = (Inr (), w2)"
    using write_ignored_total[OF assms(3)] by blast
  ultimately show ?thesis using r by (simp add: answer_request_def act_bind_def)
qed



text \<open>C36. A server that answers the read of the part identifier with no value, or several, stops the
  request task: the pending read request panics, it gets no response, and neither does any
  request after it.\<close>

theorem short_read_stops_task:
  assumes "requested E val = Some ReadPartSheet"
    and "ua_read (ua_session H) [general_node H (part_id_nid (common_opcua H))] w = (Inr vs, w')" and "length vs \<noteq> 1"
  shows "request_task E H node False (val # vals) w
    = (Inl (Panic (lit ''read values vector should have the expected size'')), w')"
proof -
  obtain c where c: "try_ua_value_as (env_ua E) (u8_from_variant (env_ua E)) val = Inr c"
    "request_from_repr c = Some ReadPartSheet"
    using assms(1) by (auto simp: requested_def split: sum.splits)
  have "(exactly_one m vs :: (read_error, data_value) res) = Inl (Panic m)" for m using assms(3)
    by (auto simp: exactly_one_def split: list.splits)
  then have "cached_part_sheet E H w = (Inl (Panic (lit ''read values vector should have the expected size'')), w')"
    using assms(2) unfolding cached_part_sheet_def Let_def by (simp add: act_bind_def act_call_def del: lit_Cons)
  then show ?thesis
    using c by (simp add: answer_request_def handle_request_def handle_read_def act_bind_def
        act_map_err_def respond_def del: lit_Cons)
qed

definition ex_short_session :: "(ex_server, mem_db) world session" where
  "ex_short_session = ex_session\<lparr>ua_read := (\<lambda>ns w. (Inr [], w))\<rparr>"

theorem short_read_stops_task_witness:
  "request_task ex_env (ex_handler\<lparr>ua_session := ex_short_session\<rparr>) (NodeId 2 (Numeric 2)) False
     [\<lparr>dv_value = Some (VByte 2), dv_status = 0\<rparr>, \<lparr>dv_value = Some (VByte 3), dv_status = 0\<rparr>] (World [] (MemDb ex_mem []))
   = (Inl (Panic (lit ''read values vector should have the expected size'')), World [] (MemDb ex_mem []))"
  by (rule short_read_stops_task[where vs = "[]"])
    (simp_all add: requested_def try_ua_value_as_def try_into_variant_def request_from_repr_def u8_from_variant_def
      ex_short_session_def)



text \<open>The heartbeat never stops before the shutdown: whatever writes fail, each tick writes the
  opposite of the tick before, starting from the given value.\<close>

theorem heartbeat_alternates:
  assumes "writes_answered S"
  shows "\<exists>w'. heartbeat_task ua S node hb n w = (Inr (map (\<lambda>i. hb = even i) [0..<n]), w')"
proof (induction n arbitrary: hb w)
  case (Suc n)
  obtain w1 where "write_ignored ua S [WriteValue node (VBoolean hb)] w = (Inr (), w1)"
    using write_ignored_total[OF assms] by blast
  moreover obtain w2 where "heartbeat_task ua S node (\<not> hb) n w1 = (Inr (map (\<lambda>i. (\<not> hb) = even i) [0..<n]), w2)"
    using Suc.IH by blast
  moreover have "map (\<lambda>i. hb = even i) [0..<Suc n] = hb # map (\<lambda>i. (\<not> hb) = even i) [0..<n]"
    unfolding upt_conv_Cons[OF zero_less_Suc] map_Suc_upt[symmetric] by auto
  ultimately show ?case by (simp add: act_bind_def del: upt_Suc)
qed simp

theorem heartbeat_alternates_witness:
  "\<exists>w'. heartbeat_task ex_ua ex_session (NodeId 2 (Numeric 3)) True 3 (World [] (MemDb ex_mem [])) = (Inr [True, False, True], w')"
  using heartbeat_alternates[OF ex_session_answers(2), of ex_ua "NodeId 2 (Numeric 3)" True 3 "World [] (MemDb ex_mem [])"]
  by (simp add: numeral_3_eq_3)

section \<open>Installation\<close>

text \<open>An installation that succeeds has a subscription whose publishing interval the server did
  not raise and a healthy monitored item, and starts the two tasks; an interval that is
  raised is reported with both values once the deletion of the subscription was asked for.\<close>

theorem install_checks:
  assumes "sub_create S (subscription_of (publish_interval (machine_conf H))) w = (Inr i, w1)" and "sub_interval S i w1 = Some revised"
  shows "(install E S H w = (Inr ts, w') \<longleftrightarrow>
      revised \<le> publish_interval (machine_conf H) \<and>
      (\<exists>created. sub_monitor S i (request_node (protocol (state H))) w1 = (Inr created, w') \<and>
         (\<forall>(node, status)\<in>set created. is_good (env_ua E) status)) \<and>
      ts = [HeartbeatTask (heartbeat_node (protocol (state H))) heartbeat_interval, RequestTask (response_node (protocol (state H)))]) \<and>
    (publish_interval (machine_conf H) < revised \<longrightarrow>
      install E S H w = (Inl (Err (PublishIntervalRaised (publish_interval (machine_conf H)) revised)),
        snd (sub_delete S i w1)))"
proof -
  have c: "check_monitored ua created = Inr u \<longleftrightarrow> (\<forall>(node, status)\<in>set created. is_good ua status)" for ua created u
    by (auto simp: check_monitored_def find_None_iff split: option.splits)
      (metis (mono_tags, lifting) case_prodI find_Some_iff nth_mem prod.case)
  show ?thesis
  proof (cases "publish_interval (machine_conf H) < revised")
    case True
    then show ?thesis using assms
      by (auto simp: install_def Let_def act_bind_def act_call_def delete_and_fail_def split: prod.splits)
  next
    case False
    then show ?thesis using assms
      by (auto simp: install_def Let_def act_bind_eq_Inr act_call_eq_Inr c)
  qed
qed

definition ex_subs :: "(ex_server, mem_db) world subscriptions" where
  "ex_subs = \<lparr>sub_create = (\<lambda>_ w. (Inr 1, w)), sub_interval = (\<lambda>_ _. Some 400),
     sub_delete = (\<lambda>_ w. (Inr (), w)), sub_monitor = (\<lambda>_ node w. (Inr [(node, 0)], w))\<rparr>"

theorem install_checks_witness:
  "install ex_env ex_subs ex_handler (World ex_nodes (MemDb ex_mem []))
   = (Inr [HeartbeatTask (NodeId 2 (Numeric 3)) heartbeat_interval, RequestTask (NodeId 2 (Numeric 2))], World ex_nodes (MemDb ex_mem []))"
  by (subst conjunct1[OF install_checks[where i = 1 and revised = 400]])
    (simp_all add: ex_subs_def ex_machine_def ex_context_def make_context_def ex_common_def)

end
