(* ===== verification/Manager_Claims.thy ===== *)
theory Manager_Claims
  imports Session_Manager Request_Claims "HOL-Library.Multiset"
begin

text \<open>
  The properties of the sessions manager: one session for each machine, reconnection at the next
  tick, and what a shutdown stops.
\<close>

section \<open>Who uses an event loop\<close>

text \<open>The servers in use, each with its event loop once it has one.\<close>

definition held :: "('s, 'db, 'e, 'b, 'w, 'r, 't, 'z) manager \<Rightarrow> (str \<times> ('s, 'db) opcua_session) list" where
  "held m = gw_registry m @ (case stopping m of None \<Rightarrow> [] | Some ss \<Rightarrow> ss)"

definition session_uses :: "(str \<times> ('s, 'db) opcua_session) list \<Rightarrow> (str \<times> nat option) list" where
  "session_uses = map (\<lambda>(sid, s). (sid, Some (os_loop s)))"

definition start_uses :: "('s, 'db, 'e, 'b, 'w, 'r, 't, 'z) start_task list \<Rightarrow> (str \<times> nat option) list" where
  "start_uses = map (\<lambda>t. (st_server t, st_loop t))"

definition uses :: "('s, 'db, 'e, 'b, 'w, 'r, 't, 'z) manager \<Rightarrow> (str \<times> nat option) list" where
  "uses m = session_uses (held m) @ start_uses (starts m)"

definition loop_inv :: "(str \<times> nat option) list \<Rightarrow> loop list \<Rightarrow> bool" where
  "loop_inv U loops \<longleftrightarrow> distinct (map fst U) \<and>
     (\<forall>sid l. (sid, Some l) \<in> set U \<longrightarrow> l < length loops \<and> loop_server (loops ! l) = sid) \<and>
     (\<forall>i<length loops. loop_running (loops ! i) \<longrightarrow> (\<exists>sid. (sid, Some i) \<in> set U))"

definition finish :: "nat \<Rightarrow> loop list \<Rightarrow> loop list" where
  "finish l loops = loops[l := Loop (loop_server (loops ! l)) False]"

lemma end_loop_fields [simp]:
  "gw_loops (end_loop l m) = finish l (gw_loops m)" "gw_registry (end_loop l m) = gw_registry m"
  "gw_world (end_loop l m) = gw_world m"
  by (simp_all add: end_loop_def finish_def)

lemma length_finish [simp]: "length (finish l loops) = length loops"
  by (simp add: finish_def)

lemma finish_nth [simp]:
  assumes "i < length loops"
  shows "loop_server (finish l loops ! i) = loop_server (loops ! i)"
    and "loop_running (finish l loops ! i) \<longleftrightarrow> i \<noteq> l \<and> loop_running (loops ! i)"
  using assms by (cases "i = l"; simp add: finish_def)+

lemma loop_inv_mset:
  assumes "mset U = mset U'" and "loop_inv U loops"
  shows "loop_inv U' loops"
proof -
  have "distinct (map fst U) = distinct (map fst U')"
    using assms(1) by (intro mset_eq_imp_distinct_iff) simp
  then show ?thesis using assms(2) mset_eq_setD[OF assms(1)] by (simp add: loop_inv_def)
qed

lemma loop_inv_finish: "loop_inv U loops \<Longrightarrow> loop_inv U (finish l loops)"
  by (auto simp: loop_inv_def)

lemma loop_inv_drop: "loop_inv ((sid, Some l) # U) loops \<Longrightarrow> loop_inv U (finish l loops)"
  unfolding loop_inv_def by auto

lemma loop_inv_drop_None: "loop_inv ((sid, None) # U) loops \<Longrightarrow> loop_inv U loops"
  unfolding loop_inv_def by fastforce

lemma loop_inv_spawn:
  assumes "loop_inv ((sid, None) # U) loops"
  shows "loop_inv ((sid, Some (length loops)) # U) (loops @ [Loop sid True])"
  using assms unfolding loop_inv_def by (auto simp: nth_append less_Suc_eq)

lemma loop_inv_unique:
  assumes "loop_inv U loops" and "i < length loops" "loop_running (loops ! i)"
    and "j < length loops" "loop_running (loops ! j)" and "loop_server (loops ! i) = loop_server (loops ! j)"
  shows "i = j"
proof -
  obtain s s' where s: "(s, Some i) \<in> set U" "(s', Some j) \<in> set U"
    using assms(1-5) unfolding loop_inv_def by blast
  then have "s = s'" using assms(1,6) unfolding loop_inv_def by metis
  then show ?thesis using s assms(1) unfolding loop_inv_def by (auto dest: eq_key_imp_eq_value)
qed

section \<open>The invariant\<close>

definition timing_inv :: "nat \<Rightarrow> ('s, 'db, 'e, 'b, 'w, 'r, 't, 'z) manager \<Rightarrow> bool" where
  "timing_inv lag m \<longleftrightarrow>
     (\<forall>t\<in>set (starts m). time m \<le> st_deadline t + lag) \<and>
     (stopping m = None \<longrightarrow> time m \<le> next_tick m + lag \<and> next_tick m \<le> time m + manager_tick_interval \<and>
       (\<forall>t\<in>set (starts m). st_deadline t + lag < next_tick m))"

definition manager_inv :: "nat \<Rightarrow> ('s, 'db, 'e, 'b, 'w, 'r, 't, 'z) manager \<Rightarrow> bool" where
  "manager_inv lag m \<longleftrightarrow> loop_inv (uses m) (gw_loops m) \<and> timing_inv lag m"

text \<open>The lag for which a start task is always over before the next tick.\<close>

definition lag_ok :: "nat \<Rightarrow> bool" where
  "lag_ok lag \<longleftrightarrow> connect_timeout + lag + 5000000 < manager_tick_interval"

lemma tick_after_bounds:
  assumes "due \<le> fired"
  shows "fired + period \<le> tick_after period due fired + 5000000" and "tick_after period due fired \<le> fired + period"
  using assms by (auto simp: tick_after_def)

lemma no_starts_at_tick: "timing_inv lag m \<Longrightarrow> stopping m = None \<Longrightarrow> next_tick m \<le> time m \<Longrightarrow> starts m = []"
  by (cases "starts m") (auto simp: timing_inv_def)

lemma uses_remove_start:
  assumes "t \<in> set (starts m)"
  shows "mset (uses m) = mset ((st_server t, st_loop t) # session_uses (held m) @ start_uses (remove1 t (starts m)))"
proof -
  have "mset (starts m) = add_mset t (mset (remove1 t (starts m)))" using assms by simp
  from arg_cong[where f = "image_mset (\<lambda>t. (st_server t, st_loop t))", OF this]
  have "image_mset (\<lambda>t. (st_server t, st_loop t)) (mset (starts m))
      = add_mset (st_server t, st_loop t) (image_mset (\<lambda>t. (st_server t, st_loop t)) (mset (remove1 t (starts m))))"
    by (simp only: image_mset_add_mset)
  then have "mset (start_uses (starts m)) = add_mset (st_server t, st_loop t) (mset (start_uses (remove1 t (starts m))))"
    by (simp only: start_uses_def mset_map)
  then show ?thesis by (simp add: uses_def)
qed

lemma mset_btree_insert:
  "k \<notin> fst ` set kvs \<Longrightarrow> mset (btree_insert k v kvs) = add_mset (k, v) (mset kvs)"
  by (induction k v kvs rule: btree_insert.induct) auto


section \<open>The invariant is kept\<close>

lemma held_simps:
  "stopping m = None \<Longrightarrow> held m = gw_registry m" "stopping m = Some ss \<Longrightarrow> held m = gw_registry m @ ss"
  by (simp_all add: held_def)

lemma timing_fewer_starts:
  assumes "timing_inv lag m" and "set (starts m') \<subseteq> set (starts m) \<union> T" and "time m' = time m"
    and "next_tick m' = next_tick m" and "stopping m' = stopping m"
    and "\<forall>t'\<in>T. \<exists>t\<in>set (starts m). st_deadline t' = st_deadline t"
  shows "timing_inv lag m'"
proof -
  have "\<exists>t\<in>set (starts m). st_deadline t' = st_deadline t" if "t' \<in> set (starts m')" for t'
    using assms(2,6) that by blast
  then show ?thesis using assms(1,3-5) unfolding timing_inv_def by simp metis
qed

lemma inv_tick:
  assumes "manager_inv lag m" and "lag_ok lag" and "distinct (map fst (ma_servers A))"
    and "stopping m = None" and "next_tick m \<le> time m"
  shows "manager_inv lag (manager_tick A m)"
proof -
  let ?loops = "gw_loops m" and ?reg = "retain_running (gw_loops m) (gw_registry m)"
  let ?new = "not_running (ma_servers A) (map fst ?reg)"
  have s: "starts m = []" using assms(1,4,5) no_starts_at_tick[of lag m] by (simp add: manager_inv_def)
  have u: "uses m = session_uses (gw_registry m)" using s assms(4) by (simp add: uses_def held_def start_uses_def)
  have u': "uses (manager_tick A m) = session_uses ?reg @ map (\<lambda>(sid, _). (sid, None)) ?new"
    using s assms(4) by (simp add: uses_def held_def manager_tick_def Let_def start_uses_def start_config_def split_beta)
  have l: "loop_inv (session_uses (gw_registry m)) ?loops" using assms(1) u by (simp add: manager_inv_def)
  have keys: "map fst (session_uses r) = map fst r" for r :: "(str \<times> ('a, 'b) opcua_session) list"
    by (simp add: session_uses_def split_beta)
  have "distinct (map fst ?reg)"
    using l unfolding loop_inv_def keys retain_running_def by (blast intro: distinct_map_filter)
  moreover have "distinct (map fst ?new)"
    using assms(3) unfolding not_running_def by (rule distinct_map_filter)
  moreover have nk: "map fst (map (\<lambda>(sid, _). (sid, None :: nat option)) ?new) = map fst ?new" by (simp add: split_beta)
  moreover have dj: "set (map fst ?reg) \<inter> set (map fst ?new) = {}" by (force simp: not_running_def)
  ultimately have d: "distinct (map fst (uses (manager_tick A m)))"
    unfolding u' map_append keys distinct_append nk using dj by simp
  have sub: "(sid, Some i) \<in> set (session_uses (gw_registry m))" if "(sid, Some i) \<in> set (uses (manager_tick A m))" for sid i
    using that unfolding u' by (auto simp: session_uses_def retain_running_def)
  have live: "(sid, Some i) \<in> set (uses (manager_tick A m))"
    if "(sid, Some i) \<in> set (session_uses (gw_registry m))" "loop_running (?loops ! i)" for sid i
    using that unfolding u' by (auto simp: session_uses_def retain_running_def is_finished_def intro!: rev_image_eqI)
  have "loop_inv (uses (manager_tick A m)) (gw_loops (manager_tick A m))"
    using l d sub live unfolding loop_inv_def by (simp add: manager_tick_def Let_def) blast
  moreover have "timing_inv lag (manager_tick A m)"
    using s assms(2,4) tick_after_bounds[OF assms(5), of manager_tick_interval]
    by (auto simp: timing_inv_def manager_tick_def Let_def lag_ok_def)
  ultimately show ?thesis by (simp add: manager_inv_def)
qed


lemma fst_session_uses: "fst ` set (session_uses r) = fst ` set r"
  by (simp add: session_uses_def image_image split_beta)

lemma session_uses_append: "session_uses (r @ r') = session_uses r @ session_uses r'"
  by (simp add: session_uses_def)

lemma inv_registers:
  assumes "manager_inv lag m" and "t \<in> set (starts m)" and "st_loop t = Some (os_loop s)"
    and "registry_insert (st_server t) s m = (Inr (), m')"
  shows "manager_inv lag (drop_start t m')"
proof -
  let ?k = "st_server t"
  have m': "m' = m\<lparr>gw_registry := btree_insert ?k s (gw_registry m)\<rparr>"
    using assms(4) by (simp add: registry_insert_def)
  note rm = uses_remove_start[OF assms(2)]
  have "loop_inv ((?k, st_loop t) # session_uses (held m) @ start_uses (remove1 t (starts m))) (gw_loops m)"
    using assms(1) loop_inv_mset[OF rm] by (simp add: manager_inv_def)
  then have "distinct (map fst ((?k, st_loop t) # session_uses (held m) @ start_uses (remove1 t (starts m))))"
    by (simp add: loop_inv_def)
  then have new: "?k \<notin> fst ` set (gw_registry m)" by (auto simp: held_def fst_session_uses[symmetric] session_uses_append)
  have h: "mset (session_uses (held (drop_start t m'))) = add_mset (?k, Some (os_loop s)) (mset (session_uses (held m)))"
    using mset_btree_insert[OF new, of s]
    by (simp add: held_def m' drop_start_def session_uses_def split: option.split)
  have "uses (drop_start t m') = session_uses (held (drop_start t m')) @ start_uses (remove1 t (starts m))"
    by (simp add: uses_def m' drop_start_def)
  then have eq: "mset (uses m) = mset (uses (drop_start t m'))"
    by (simp only: rm h assms(3) mset_append mset.simps union_mset_add_mset_left)
  have "loop_inv (uses (drop_start t m')) (gw_loops m)"
    using assms(1) loop_inv_mset[OF eq] by (simp add: manager_inv_def)
  moreover have "timing_inv lag (drop_start t m')"
    by (rule timing_fewer_starts[where m = m and T = "{}"])
      (use assms(1) in \<open>auto simp: manager_inv_def m' drop_start_def dest: set_remove1_subset[THEN subsetD]\<close>)
  ultimately show ?thesis by (simp add: manager_inv_def m' drop_start_def)
qed

lemma inv_fails:
  assumes "manager_inv lag m" and "t \<in> set (starts m)"
  shows "manager_inv lag (abandon t m)"
proof -
  let ?U = "session_uses (held m) @ start_uses (remove1 t (starts m))"
  have l: "loop_inv ((st_server t, st_loop t) # ?U) (gw_loops m)"
    using assms(1) loop_inv_mset[OF uses_remove_start[OF assms(2)]] by (simp add: manager_inv_def)
  have u: "uses (abandon t m) = ?U"
    by (simp add: uses_def held_def abandon_def drop_start_def end_loop_def split: option.split)
  have "loop_inv (uses (abandon t m)) (gw_loops (abandon t m))"
  proof (cases "st_loop t")
    case None
    then show ?thesis using l loop_inv_drop_None unfolding u by (auto simp: abandon_def drop_start_def)
  next
    case (Some i)
    then show ?thesis using l loop_inv_drop unfolding u by (auto simp: abandon_def drop_start_def)
  qed
  moreover have "timing_inv lag (abandon t m)"
    by (rule timing_fewer_starts[where m = m and T = "{}"])
      (use assms(1) in \<open>auto simp: manager_inv_def abandon_def drop_start_def end_loop_def
        dest: set_remove1_subset[THEN subsetD] split: option.split\<close>)
  ultimately show ?thesis by (simp add: manager_inv_def)
qed

lemma inv_connects:
  assumes "manager_inv lag m" and "t \<in> set (starts m)" and "st_loop t = None"
    and "spawn_loop (st_server t) m = (Inr l, m')"
  shows "manager_inv lag (m'\<lparr>starts := remove1 t (starts m) @ [t\<lparr>st_loop := Some l\<rparr>]\<rparr>)" (is "manager_inv lag ?m")
proof -
  have l: "l = length (gw_loops m)" and m': "m' = m\<lparr>gw_loops := gw_loops m @ [Loop (st_server t) True]\<rparr>"
    using assms(4) by (simp_all add: spawn_loop_def)
  let ?U = "session_uses (held m) @ start_uses (remove1 t (starts m))"
  have "loop_inv ((st_server t, None) # ?U) (gw_loops m)"
    using assms(1,3) loop_inv_mset[OF uses_remove_start[OF assms(2)]] by (simp add: manager_inv_def)
  then have "loop_inv ((st_server t, Some l) # ?U) (gw_loops ?m)"
    using loop_inv_spawn l m' by simp
  moreover have "mset ((st_server t, Some l) # ?U) = mset (uses ?m)"
    by (simp add: uses_def m' held_def start_uses_def)
  ultimately have "loop_inv (uses ?m) (gw_loops ?m)" using loop_inv_mset by blast
  moreover have "timing_inv lag ?m"
    by (rule timing_fewer_starts[where m = m and T = "{t\<lparr>st_loop := Some l\<rparr>}"])
      (use assms(1,2) in \<open>auto simp: manager_inv_def m' dest: set_remove1_subset[THEN subsetD]\<close>)
  ultimately show ?thesis by (simp add: manager_inv_def)
qed


lemma inv_stops:
  assumes "manager_inv lag m" and "stopping m = Some (s # ss)" and "stop J (snd s) m = Some (logs, m')"
  shows "manager_inv lag (m'\<lparr>stopping := Some ss\<rparr>)"
proof -
  obtain w where m': "m' = end_loop (os_loop (snd s)) (m\<lparr>gw_world := w\<rparr>)"
    using assms(3) by (auto simp: stop_def Let_def split: option.splits prod.splits)
  let ?U = "session_uses (gw_registry m @ ss) @ start_uses (starts m)"
  have "mset (uses m) = mset ((fst s, Some (os_loop (snd s))) # ?U)"
    by (simp add: uses_def held_def assms(2) session_uses_def split_beta)
  then have "loop_inv ?U (finish (os_loop (snd s)) (gw_loops m))"
    using assms(1) loop_inv_mset loop_inv_drop by (metis manager_inv_def)
  moreover have "uses (m'\<lparr>stopping := Some ss\<rparr>) = ?U"
    by (simp add: uses_def held_def m' end_loop_def)
  ultimately show ?thesis using assms(1,2)
    by (simp add: manager_inv_def m' timing_inv_def) (simp add: end_loop_def)
qed

lemma inv_step:
  assumes "manager_step A J lag m a m'" and "manager_inv lag m" and "lag_ok lag"
    and "distinct (map fst (ma_servers A))"
  shows "manager_inv lag m'"
  using assms(1)
proof cases
  case ticks
  then show ?thesis using inv_tick assms(2-4) by blast
next
  case (connects t l m1)
  then show ?thesis using inv_connects assms(2) by blast
next
  case (registers t l s m1)
  then have "st_loop t = Some (os_loop s)" by simp
  from inv_registers[OF assms(2) registers(3) this registers(7)] show ?thesis using registers(2) by simp
next
  case (fails t)
  then show ?thesis using inv_fails assms(2) by blast
next
  case (loop_ends l)
  then show ?thesis using assms(2)
    by (simp add: manager_inv_def uses_def held_def timing_inv_def)
      (simp add: end_loop_def loop_inv_finish)
next
  case elapses
  then show ?thesis using assms(2) by (auto simp: manager_inv_def uses_def held_def timing_inv_def)
next
  case (elapses_down ss)
  then show ?thesis using assms(2) by (auto simp: manager_inv_def uses_def held_def timing_inv_def)
next
  case (acts w)
  then show ?thesis using assms(2) by (simp add: manager_inv_def uses_def held_def timing_inv_def)
next
  case shuts_down
  then show ?thesis using assms(2)
    by (auto simp: manager_inv_def uses_def held_def timing_inv_def take_registry_def)
next
  case (stops s ss logs m1)
  then show ?thesis using inv_stops assms(2) by blast
qed

lemma inv_path:
  "manager_path A J lag m as m' \<Longrightarrow> manager_inv lag m \<Longrightarrow> lag_ok lag \<Longrightarrow> distinct (map fst (ma_servers A)) \<Longrightarrow>
     manager_inv lag m'"
  by (induction rule: manager_path.induct) (auto intro: inv_step)

lemma inv_init: "manager_inv lag (manager_init w t)"
  by (simp add: manager_inv_def manager_init_def uses_def held_def session_uses_def start_uses_def
      loop_inv_def timing_inv_def)

lemmas reachable_inv = inv_path[OF _ inv_init]


section \<open>One session for each machine\<close>

text \<open>C5. In every reachable state, a machine has at most one running event loop, and every running
  event loop is held, by the registry, by a session still to stop or by a start task: no
  connection is ever duplicated or forgotten, provided timers are late by less than about
  three seconds.\<close>

theorem one_session_per_machine:
  assumes "manager_path A J lag (manager_init w t0) as m" and "lag_ok lag" and "distinct (map fst (ma_servers A))"
  shows "(\<forall>i<length (gw_loops m). \<forall>j<length (gw_loops m). loop_running (gw_loops m ! i) \<and> loop_running (gw_loops m ! j) \<and>
      loop_server (gw_loops m ! i) = loop_server (gw_loops m ! j) \<longrightarrow> i = j) \<and>
    (\<forall>i<length (gw_loops m). loop_running (gw_loops m ! i) \<longrightarrow>
      (\<exists>s. (loop_server (gw_loops m ! i), s) \<in> set (held m) \<and> os_loop s = i) \<or>
      (\<exists>t\<in>set (starts m). st_loop t = Some i \<and> st_server t = loop_server (gw_loops m ! i)))"
proof -
  have l: "loop_inv (uses m) (gw_loops m)" using reachable_inv[OF assms] by (simp add: manager_inv_def)
  have "(\<exists>s. (loop_server (gw_loops m ! i), s) \<in> set (held m) \<and> os_loop s = i) \<or>
      (\<exists>t\<in>set (starts m). st_loop t = Some i \<and> st_server t = loop_server (gw_loops m ! i))"
    if i: "i < length (gw_loops m)" "loop_running (gw_loops m ! i)" for i
  proof -
    obtain sid where u: "(sid, Some i) \<in> set (uses m)" "loop_server (gw_loops m ! i) = sid"
      using l i unfolding loop_inv_def by blast
    then show ?thesis by (auto simp: uses_def session_uses_def start_uses_def)
  qed
  then show ?thesis using loop_inv_unique[OF l] by blast
qed

text \<open>C35. A start task never outlives its deadline by more than the lag of the timers, and none is left
  when the next tick of the manager is due: a machine is never started twice at a time.\<close>

theorem starts_end_before_tick:
  assumes "manager_path A J lag (manager_init w t0) as m" and "lag_ok lag" and "distinct (map fst (ma_servers A))"
  shows "(\<forall>t\<in>set (starts m). time m \<le> st_deadline t + lag) \<and>
    (stopping m = None \<and> next_tick m \<le> time m \<longrightarrow> starts m = []) \<and> distinct (map st_server (starts m))"
proof -
  note inv = reachable_inv[OF assms]
  have "distinct (map st_server (starts m))"
    using inv by (simp add: manager_inv_def loop_inv_def uses_def start_uses_def comp_def)
  moreover have "\<forall>t\<in>set (starts m). time m \<le> st_deadline t + lag"
    using inv by (simp add: manager_inv_def timing_inv_def)
  moreover have "starts m = []" if "stopping m = None" "next_tick m \<le> time m"
    by (rule no_starts_at_tick[of lag m, OF _ that]) (use inv in \<open>simp add: manager_inv_def\<close>)
  ultimately show ?thesis by blast
qed

section \<open>Reconnection\<close>

lemma path_split:
  "manager_path A J lag m (as @ a # bs) m' \<Longrightarrow>
     \<exists>m1 m2. manager_path A J lag m as m1 \<and> manager_step A J lag m1 a m2 \<and> manager_path A J lag m2 bs m'"
proof (induction as arbitrary: m)
  case Nil
  then obtain m2 where "manager_step A J lag m a m2" "manager_path A J lag m2 bs m'"
    by (auto elim: path_ConsE)
  then show ?case using path_Nil[of A J lag m] by auto
next
  case (Cons b as)
  then obtain m0 where "manager_step A J lag m b m0" "manager_path A J lag m0 (as @ a # bs) m'"
    by (auto elim: path_ConsE)
  then show ?case using Cons.IH path_Cons by blast
qed

lemma step_managing: "manager_step A J lag m a m' \<Longrightarrow> stopping m' = None \<Longrightarrow> stopping m = None"
  by (induction rule: manager_step.induct)
    (auto simp: manager_tick_def Let_def spawn_loop_def registry_insert_def drop_start_def abandon_def end_loop_def
      take_registry_def split: option.splits)

lemma step_next_tick:
  "manager_step A J lag m a m' \<Longrightarrow> a \<noteq> Tick \<Longrightarrow> stopping m' = None \<Longrightarrow> next_tick m' = next_tick m"
  by (induction rule: manager_step.induct)
    (auto simp: spawn_loop_def registry_insert_def drop_start_def abandon_def end_loop_def take_registry_def
      split: option.splits)

lemma path_next_tick:
  "manager_path A J lag m as m' \<Longrightarrow> Tick \<notin> set as \<Longrightarrow> stopping m' = None \<Longrightarrow>
     next_tick m' = next_tick m \<and> stopping m = None"
  by (induction rule: manager_path.induct) (auto dest: step_managing step_next_tick)

lemma tick_covers:
  assumes "(sid, cfg) \<in> set (ma_servers A)"
  shows "(\<exists>s. (sid, s) \<in> set (gw_registry (manager_tick A m)) \<and> loop_running (gw_loops m ! os_loop s)) \<or>
    (\<exists>t\<in>set (starts (manager_tick A m)). st_config t = start_config A (sid, cfg) \<and>
       st_deadline t = time m + connect_timeout)"
proof (cases "sid \<in> set (map fst (retain_running (gw_loops m) (gw_registry m)))")
  case True
  then show ?thesis by (auto simp: manager_tick_def Let_def retain_running_def is_finished_def)
next
  case False
  let ?t = "\<lparr>st_config = start_config A (sid, cfg), st_deadline = time m + connect_timeout, st_loop = None\<rparr>"
  have "(sid, cfg) \<in> set (not_running (ma_servers A) (map fst (retain_running (gw_loops m) (gw_registry m))))"
    using assms False by (simp add: not_running_def)
  then have "?t \<in> set (starts (manager_tick A m))" by (simp add: manager_tick_def Let_def)
  then show ?thesis by (intro disjI2 bexI[of _ ?t]) simp_all
qed

text \<open>C7. A machine whose session is lost is always retried: over any stretch of time longer than one
  tick interval, before the shutdown, there is a tick after which the machine has a running
  session or a new start task, whatever failed before.\<close>

theorem lost_session_restarted:
  assumes "manager_path A J lag (manager_init w t0) as0 m" and "lag_ok lag" and "distinct (map fst (ma_servers A))"
    and "manager_path A J lag m as m'" and "stopping m' = None"
    and "time m + manager_tick_interval + lag < time m'" and "(sid, cfg) \<in> set (ma_servers A)"
  shows "\<exists>as1 as2 m1 m2. as = as1 @ Tick # as2 \<and> manager_path A J lag m as1 m1 \<and>
    manager_step A J lag m1 Tick m2 \<and> manager_path A J lag m2 as2 m' \<and>
    ((\<exists>s. (sid, s) \<in> set (gw_registry m2) \<and> loop_running (gw_loops m2 ! os_loop s)) \<or>
     (\<exists>t\<in>set (starts m2). st_config t = start_config A (sid, cfg) \<and> st_deadline t = time m2 + connect_timeout))"
proof -
  note inv = reachable_inv[OF assms(1-3)]
  note inv' = inv_path[OF assms(4) inv assms(2,3)]
  have "Tick \<in> set as"
  proof (rule ccontr)
    assume "Tick \<notin> set as"
    then have "next_tick m' = next_tick m" "stopping m = None" using path_next_tick[OF assms(4) _ assms(5)] by auto
    then show False using inv inv' assms(5,6) by (auto simp: manager_inv_def timing_inv_def)
  qed
  then obtain as1 as2 where as: "as = as1 @ Tick # as2" by (auto dest: split_list)
  then obtain m1 m2 where p: "manager_path A J lag m as1 m1" "manager_step A J lag m1 Tick m2"
    "manager_path A J lag m2 as2 m'"
    using path_split assms(4) by blast
  have m2: "m2 = manager_tick A m1" using p(2) by (auto elim: tick_stepE)
  have "gw_loops m2 = gw_loops m1" "time m2 = time m1" by (simp_all add: m2 manager_tick_def Let_def)
  then show ?thesis using tick_covers[OF assms(7), of m1] as p m2 by (intro exI[of _ as1] exI[of _ as2] exI[of _ m1] exI[of _ m2]) simp
qed


section \<open>Start tasks\<close>

lemma abandon_last:
  assumes "t' \<notin> set xs"
  shows "remove1 t' (xs @ [t']) = xs"
  using assms by (simp add: remove1_append)

lemma start_path:
  assumes inv: "manager_inv lag m" and t: "t \<in> set (starts m)" "st_loop t = None"
    and run: "start_session E (st_config t) m = (r, m')"
  shows "\<exists>as. manager_path A J lag m as (drop_start t m') \<and> set as \<subseteq> {Acted, Connected, Started, Failed} \<and>
    (Started \<in> set as \<longleftrightarrow> r = Inr ())"
proof -
  let ?cfg = "st_config t"
  obtain c w1 where c: "connect_to_matching_endpoint (sc_client ?cfg) (endpoint_of (sc_machine_config ?cfg))
      (identity_of (sc_credential ?cfg)) (gw_world m) = (c, w1)" by fastforce
  let ?m1 = "m\<lparr>gw_world := w1\<rparr>"
  have 1: "manager_step A J lag m Acted ?m1" by (rule acts)
  show ?thesis
  proof (cases c)
    case (Inl e)
    then have "m' = ?m1" "r \<noteq> Inr ()"
      using run c by (auto simp: start_session_def act_bind_def on_world_def)
    moreover have "manager_step A J lag ?m1 Failed (abandon t ?m1)" using t by (intro fails) simp
    ultimately show ?thesis using 1 t(2)
      by (intro exI[of _ "[Acted, Failed]"]) (auto simp: abandon_def intro!: path_Cons path_Nil)
  next
    case (Inr conn)
    let ?l = "length (gw_loops m)" and ?t = "t\<lparr>st_loop := Some (length (gw_loops m))\<rparr>"
    let ?m2 = "?m1\<lparr>gw_loops := gw_loops m @ [Loop (st_server t) True], starts := remove1 t (starts m) @ [?t]\<rparr>"
    have 2: "manager_step A J lag ?m1 Connected ?m2"
      using connects[of t ?m1 ?l "?m1\<lparr>gw_loops := gw_loops m @ [Loop (st_server t) True]\<rparr>" A J lag] t
      by (simp add: spawn_loop_def)
    obtain p w2 where p: "prepare_session E ?cfg conn ?l w1 = (p, w2)" by fastforce
    let ?m3 = "?m2\<lparr>gw_world := w2\<rparr>"
    have 3: "manager_step A J lag ?m2 Acted ?m3" by (rule acts)
    have "?t \<notin> set (starts m)"
    proof
      assume "?t \<in> set (starts m)"
      from imageI[OF this, of "\<lambda>t. (st_server t, st_loop t)"]
      have "(st_server t, Some ?l) \<in> set (uses m)" by (simp add: uses_def start_uses_def)
      then show False using inv by (auto simp: manager_inv_def loop_inv_def)
    qed
    then have new: "remove1 ?t (remove1 t (starts m) @ [?t]) = remove1 t (starts m)"
      by (intro abandon_last) (auto dest: notin_set_remove1)
    have in3: "?t \<in> set (starts ?m3)" by simp
    show ?thesis
    proof (cases p)
      case (Inl e)
      then have "m' = end_loop ?l (m\<lparr>gw_loops := gw_loops m @ [Loop (st_server t) True], gw_world := w2\<rparr>)" "r \<noteq> Inr ()"
        using run c Inr p
        by (auto simp: start_session_def act_bind_def on_world_def spawn_loop_def abort_on_drop_def)
      moreover have "manager_step A J lag ?m3 Failed (abandon ?t ?m3)" using in3 by (rule fails)
      ultimately show ?thesis using 1 2 3 new
        by (intro exI[of _ "[Acted, Connected, Acted, Failed]"])
          (auto simp: abandon_def drop_start_def end_loop_def intro!: path_Cons path_Nil)
    next
      case R: (Inr s)
      have s: "os_loop s = ?l" "os_server s = st_server t"
        using p R by (auto simp: prepare_session_def act_bind_eq_Inr)
      have m': "m' = m\<lparr>gw_loops := gw_loops m @ [Loop (st_server t) True], gw_world := w2,
          gw_registry := btree_insert (st_server t) s (gw_registry m)\<rparr>" and r: "r = Inr ()"
        using run c Inr p R
        by (auto simp: start_session_def act_bind_def on_world_def spawn_loop_def abort_on_drop_def registry_insert_def)
      have "manager_step A J lag ?m3 Started
          (drop_start ?t (?m3\<lparr>gw_registry := btree_insert (st_server t) s (gw_registry m)\<rparr>))"
        using in3 s by (intro registers[where l = ?l and s = s]) (simp_all add: registry_insert_def)
      then show ?thesis using 1 2 3 new m' r
        by (intro exI[of _ "[Acted, Connected, Acted, Started]"])
          (auto simp: drop_start_def intro!: path_Cons path_Nil)
    qed
  qed
qed

text \<open>C18. Starting a session, as the code writes it, is a path of the step relation: whatever fails, its
  start task ends, the session is registered exactly when the call succeeds, and no other step
  than those of a start task is taken.\<close>

theorem start_session_refines:
  assumes "manager_path A J lag (manager_init w t0) as0 m" and "lag_ok lag" and "distinct (map fst (ma_servers A))"
    and "t \<in> set (starts m)" and "st_loop t = None" and "start_session E (st_config t) m = (r, m')"
  shows "\<exists>as. manager_path A J lag m as (drop_start t m') \<and> set as \<subseteq> {Acted, Connected, Started, Failed} \<and>
    (Started \<in> set as \<longleftrightarrow> r = Inr ())"
  by (rule start_path[OF reachable_inv[OF assms(1-3)] assms(4-6)])

end
