(* ===== verification/Manager_Runs.thy ===== *)
theory Manager_Runs
  imports Manager_Claims
begin

text \<open>
  Runs of the sessions manager with one machine, which instantiate its properties, and what a
  shutdown stops and misses.
\<close>

section \<open>A manager with one machine\<close>

definition ex_conn :: "(ex_server, mem_db) connection" where
  "ex_conn = \<lparr>cn_session = ex_session, cn_subs = ex_subs, cn_wait = (\<lambda>w. (True, w)),
     cn_disconnect = (\<lambda>w. (Inr (), w))\<rparr>"

definition ex_ua_client :: "(ex_server, mem_db, unit, unit) client_lib" where
  "ex_ua_client = \<lparr>cl_endpoints = (\<lambda>_ w. (Inr [], w)), cl_matching = (\<lambda>_ _ _. Inr ()),
     cl_build = (\<lambda>_ w. (Inr ex_conn, w))\<rparr>"

definition ex_machine_config :: machine_config where
  "ex_machine_config = \<lparr>opc_ua_server = \<lparr>server_url = [], security_policy_of = NoPolicy, security_mode_of = NoMode\<rparr>,
     machine_traceability = ex_machine\<rparr>"

definition ex_args :: "(ex_server, mem_db, unit, unit, mem_write, mem_read, unit, civil) manager_args" where
  "ex_args = \<lparr>ma_client = ex_ua_client, ma_servers = [(lit ''M1'', ex_machine_config)], ma_credentials = [],
     ma_traceability_opc_ua = ex_common, ma_traceability_cache = ex_cache,
     ma_time_provider = \<lparr>clock = (\<lambda>_. ()), tz = (\<lambda>_. example_day)\<rparr>\<rparr>"

definition ex_joins :: "(ex_server, mem_db) joins" where
  "ex_joins = \<lparr>join_task = (\<lambda>_ w. (None, w)), join_loop = (\<lambda>_ w. Some (None, w)), closed_statuses = []\<rparr>"

abbreviation ex_world0 :: "(ex_server, mem_db) world" where
  "ex_world0 \<equiv> World ex_nodes (MemDb ex_mem [])"

type_synonym ex_manager = "(ex_server, mem_db, unit, unit, mem_write, mem_read, unit, civil) manager"

abbreviation ex_init :: ex_manager where
  "ex_init \<equiv> manager_init ex_world0 0"

lemma ex_args_ok: "distinct (map fst (ma_servers ex_args))" "lag_ok 0"
  by (simp_all add: ex_args_def lag_ok_def connect_timeout_def manager_tick_interval_def seconds_def)

definition ex_start :: "nat \<Rightarrow> (ex_server, mem_db, unit, unit, mem_write, mem_read, unit, civil) start_task" where
  "ex_start deadline = \<lparr>st_config = start_config ex_args (lit ''M1'', ex_machine_config), st_deadline = deadline,
     st_loop = None\<rparr>"

lemma ex_start_server: "st_server (ex_start d) = lit ''M1''" "st_loop (ex_start d) = None"
  by (simp_all add: ex_start_def start_config_def)

lemma ex_tick:
  assumes "gw_registry m = []"
  shows "manager_tick ex_args m = m\<lparr>gw_registry := [], starts := starts m @ [ex_start (time m + connect_timeout)],
    next_tick := tick_after manager_tick_interval (next_tick m) (time m)\<rparr>"
  using assms by (simp add: manager_tick_def Let_def retain_running_def not_running_def ex_args_def ex_start_def)

definition ex_session_of :: "nat \<Rightarrow> (ex_server, mem_db) opcua_session" where
  "ex_session_of l = \<lparr>os_server = lit ''M1'', os_connection = ex_conn, os_loop = l, os_cancelled = False,
     os_tasks = [HeartbeatTask (NodeId 2 (Numeric 3)) heartbeat_interval, RequestTask (NodeId 2 (Numeric 2))]\<rparr>"

lemma ex_start_session:
  "start_session ex_env (st_config (ex_start d)) (m\<lparr>gw_world := ex_world0\<rparr>) =
     (Inr (), m\<lparr>gw_world := ex_world0, gw_loops := gw_loops m @ [Loop (lit ''M1'') True],
        gw_registry := btree_insert (lit ''M1'') (ex_session_of (length (gw_loops m))) (gw_registry m)\<rparr>)"
proof -
  have n: "handler_new (lit ''M1'') ex_common ex_machine ex_session ex_cache \<lparr>clock = (\<lambda>_. ()), tz = (\<lambda>_. example_day)\<rparr>
      = ex_handler_with ()"
    by (simp add: handler_new_def ex_handler_with_def)
  have i: "install ex_env ex_subs ex_handler ex_world0
      = (Inr [HeartbeatTask (NodeId 2 (Numeric 3)) heartbeat_interval, RequestTask (NodeId 2 (Numeric 2))], ex_world0)"
    by (simp add: install_def Let_def act_bind_def act_call_def ex_subs_def check_monitored_def ex_machine_def
        ex_context_def make_context_def ex_common_def)
  have cfg: "sc_client (st_config (ex_start d)) = ex_ua_client" "sc_server_id (st_config (ex_start d)) = lit ''M1''"
    "sc_traceability_opc_ua (st_config (ex_start d)) = ex_common"
    "machine_traceability (sc_machine_config (st_config (ex_start d))) = ex_machine"
    "sc_traceability_cache (st_config (ex_start d)) = ex_cache"
    "sc_time_provider (st_config (ex_start d)) = \<lparr>clock = (\<lambda>_. ()), tz = (\<lambda>_. example_day)\<rparr>"
    by (simp_all add: ex_start_def start_config_def ex_args_def ex_machine_config_def)
  have c: "connect_to_matching_endpoint ex_ua_client ep tok w = (Inr ex_conn, w)" for ep tok w
    by (simp add: connect_to_matching_endpoint_def act_bind_def act_call_def ex_ua_client_def)
  have p: "prepare_session ex_env (st_config (ex_start d)) ex_conn l ex_world0 = (Inr (ex_session_of l), ex_world0)" for l
    unfolding prepare_session_def cfg
    by (simp add: act_bind_def act_map_err_def ex_conn_def n ex_initialize i del: lit_Cons)
      (simp add: ex_session_of_def ex_conn_def del: lit_Cons)
  show ?thesis
    unfolding start_session_def cfg
    by (simp add: act_bind_def on_world_def c spawn_loop_def abort_on_drop_def p registry_insert_def del: lit_Cons)
qed

lemma elapse_path:
  "stopping m = None \<Longrightarrow> starts m = [] \<Longrightarrow> time m + n \<le> next_tick m + lag \<Longrightarrow>
     manager_path A J lag m (replicate n Elapsed) (m\<lparr>time := time m + n\<rparr>)"
proof (induction n arbitrary: m)
  case 0
  have "m\<lparr>time := time m + 0\<rparr> = m" by simp
  then show ?case using path_Nil[of A J lag m] by simp
next
  case (Suc n)
  have "manager_step A J lag m Elapsed (m\<lparr>time := Suc (time m)\<rparr>)" using Suc.prems by (intro elapses) auto
  moreover have "manager_path A J lag (m\<lparr>time := Suc (time m)\<rparr>) (replicate n Elapsed) (m\<lparr>time := time m + Suc n\<rparr>)"
    using Suc.IH[of "m\<lparr>time := Suc (time m)\<rparr>"] Suc.prems by simp
  ultimately show ?case by (simp add: path_Cons)
qed

text \<open>A tick at which a start task is spawned that fails.\<close>

lemma ex_tick_fail:
  assumes "stopping m = None" "next_tick m \<le> time m" "starts m = []" "gw_registry m = []"
  shows "manager_path ex_args J lag m [Tick, Failed]
    (m\<lparr>next_tick := tick_after manager_tick_interval (next_tick m) (time m)\<rparr>)"
proof -
  let ?t = "ex_start (time m + connect_timeout)"
  have "manager_step ex_args J lag m Tick (manager_tick ex_args m)" using assms(1,2) by (rule ticks)
  moreover have "manager_step ex_args J lag (manager_tick ex_args m) Failed (abandon ?t (manager_tick ex_args m))"
    by (rule fails) (simp add: ex_tick[OF assms(4)])
  moreover have "abandon ?t (manager_tick ex_args m) =
      m\<lparr>next_tick := tick_after manager_tick_interval (next_tick m) (time m)\<rparr>"
    using assms by (simp add: abandon_def ex_start_server drop_start_def ex_tick)
  ultimately show ?thesis by (auto intro: path_Cons path_Nil)
qed


lemma ex_first_tick:
  "manager_path ex_args ex_joins 0 ex_init [Tick] (manager_tick ex_args ex_init)"
  "starts (manager_tick ex_args ex_init) = [ex_start connect_timeout]"
  "gw_world (manager_tick ex_args ex_init) = ex_world0" "gw_loops (manager_tick ex_args ex_init) = []"
  "gw_registry (manager_tick ex_args ex_init) = []" "stopping (manager_tick ex_args ex_init) = None"
proof -
  have "manager_step ex_args ex_joins 0 ex_init Tick (manager_tick ex_args ex_init)"
    by (rule ticks) (simp_all add: manager_init_def)
  then show "manager_path ex_args ex_joins 0 ex_init [Tick] (manager_tick ex_args ex_init)" by (rule path_single)
qed (simp_all add: ex_tick manager_init_def)

lemma ex_start_run:
  "start_session ex_env (st_config (ex_start connect_timeout)) (manager_tick ex_args ex_init) =
     (Inr (), (manager_tick ex_args ex_init)\<lparr>gw_world := ex_world0, gw_loops := [Loop (lit ''M1'') True],
        gw_registry := [(lit ''M1'', ex_session_of 0)]\<rparr>)"
proof -
  have "(manager_tick ex_args ex_init)\<lparr>gw_world := ex_world0\<rparr> = manager_tick ex_args ex_init"
    by (metis ex_first_tick(3) gateway.surjective gateway.update_convs(1) gateway.select_convs(1))
  then show ?thesis
    using ex_start_session[of connect_timeout "manager_tick ex_args ex_init"] ex_first_tick(4,5) by simp
qed

lemma ex_start_in: "ex_start connect_timeout \<in> set (starts (manager_tick ex_args ex_init))"
  by (simp add: ex_first_tick)

theorem start_session_refines_witness:
  "\<exists>as m. manager_path ex_args ex_joins 0 (manager_tick ex_args ex_init) as m \<and> Started \<in> set as"
  using start_session_refines[OF ex_first_tick(1) ex_args_ok(2,1) ex_start_in ex_start_server(2) ex_start_run] by blast

lemma ex_running:
  "\<exists>as m. manager_path ex_args ex_joins 0 ex_init as m \<and> gw_loops m = [Loop (lit ''M1'') True] \<and>
     gw_registry m = [(lit ''M1'', ex_session_of 0)] \<and> starts m = [] \<and> stopping m = None"
proof -
  note inv = inv_path[OF ex_first_tick(1) inv_init ex_args_ok(2,1)]
  obtain as where "manager_path ex_args ex_joins 0 (manager_tick ex_args ex_init) as
      (drop_start (ex_start connect_timeout) ((manager_tick ex_args ex_init)\<lparr>gw_world := ex_world0,
        gw_loops := [Loop (lit ''M1'') True], gw_registry := [(lit ''M1'', ex_session_of 0)]\<rparr>))"
    using start_path[OF inv ex_start_in ex_start_server(2) ex_start_run] by blast
  from path_append[OF ex_first_tick(1) this] show ?thesis
    by (intro exI conjI) (assumption, simp_all add: drop_start_def ex_first_tick del: lit_Cons)
qed

theorem one_session_per_machine_witness:
  "\<exists>as m. manager_path ex_args ex_joins 0 ex_init as m \<and> gw_loops m = [Loop (lit ''M1'') True] \<and>
     (\<exists>s. (lit ''M1'', s) \<in> set (held m) \<and> os_loop s = 0)"
proof -
  obtain as m where m: "manager_path ex_args ex_joins 0 ex_init as m" "gw_loops m = [Loop (lit ''M1'') True]"
    "starts m = []" using ex_running by blast
  have "\<forall>i<length (gw_loops m). loop_running (gw_loops m ! i) \<longrightarrow>
      (\<exists>s. (loop_server (gw_loops m ! i), s) \<in> set (held m) \<and> os_loop s = i) \<or>
      (\<exists>t\<in>set (starts m). st_loop t = Some i \<and> st_server t = loop_server (gw_loops m ! i))"
    by (rule conjunct2[OF one_session_per_machine[OF m(1) ex_args_ok(2,1)]])
  then show ?thesis using m by (auto simp del: lit_Cons)
qed

theorem starts_end_before_tick_witness:
  "distinct (map st_server (starts (manager_tick ex_args ex_init))) \<and>
     starts (manager_tick ex_args ex_init) = [ex_start connect_timeout]"
  using starts_end_before_tick[OF ex_first_tick(1) ex_args_ok(2,1)] ex_first_tick(2) by blast

definition ex_labels :: "label list" where
  "ex_labels = [Tick, Failed] @ replicate manager_tick_interval Elapsed @ [Tick, Failed] @ replicate 1 Elapsed"

theorem lost_session_restarted_witness:
  "\<exists>as1 as2 m1 m2. ex_labels = as1 @ Tick # as2 \<and> manager_path ex_args ex_joins 0 ex_init as1 m1 \<and>
     manager_step ex_args ex_joins 0 m1 Tick m2 \<and>
     ((\<exists>s. (lit ''M1'', s) \<in> set (gw_registry m2)) \<or> starts m2 \<noteq> [])"
proof -
  let ?T = manager_tick_interval
  have pos: "0 < ?T" by (simp add: manager_tick_interval_def seconds_def)
  let ?m1 = "ex_init\<lparr>next_tick := ?T\<rparr>"
  let ?m2 = "?m1\<lparr>time := ?T\<rparr>"
  let ?m3 = "?m2\<lparr>next_tick := ?T + ?T\<rparr>"
  have 1: "manager_path ex_args ex_joins 0 ex_init [Tick, Failed] ?m1"
    using ex_tick_fail[of ex_init ex_joins 0] by (simp add: manager_init_def tick_after_def)
  have 2: "manager_path ex_args ex_joins 0 ?m1 (replicate ?T Elapsed) ?m2"
    using elapse_path[of ?m1 ?T 0 ex_args ex_joins] by (simp add: manager_init_def)
  have 3: "manager_path ex_args ex_joins 0 ?m2 [Tick, Failed] ?m3"
    using ex_tick_fail[of ?m2 ex_joins 0] by (simp add: manager_init_def tick_after_def)
  have 4: "manager_path ex_args ex_joins 0 ?m3 (replicate 1 Elapsed) (?m3\<lparr>time := time ?m3 + 1\<rparr>)"
    using pos by (intro elapse_path) (simp_all add: manager_init_def)
  have p: "manager_path ex_args ex_joins 0 ex_init ex_labels (?m3\<lparr>time := time ?m3 + 1\<rparr>)"
    unfolding ex_labels_def by (intro path_append[OF 1] path_append[OF 2] path_append[OF 3] 4)
  have fin: "stopping (?m3\<lparr>time := time ?m3 + 1\<rparr>) = None"
    "time ex_init + ?T + 0 < time (?m3\<lparr>time := time ?m3 + 1\<rparr>)"
    by (simp_all add: manager_init_def)
  have "(lit ''M1'', ex_machine_config) \<in> set (ma_servers ex_args)" by (simp add: ex_args_def)
  from lost_session_restarted[OF path_Nil ex_args_ok(2,1) p fin this] show ?thesis
    by (elim exE conjE disjE bexE) (fastforce intro: exI conjI)+
qed


section \<open>Shutdown\<close>

lemma join_tasks_total: "\<exists>logs w'. join_tasks J True ts w = Some (logs, w')"
proof (induction ts arbitrary: w)
  case (Cons t ts)
  obtain err w1 where j: "join_task J t w = (err, w1)" by fastforce
  obtain logs w' where "join_tasks J True ts w1 = Some (logs, w')" using Cons.IH by blast
  then show ?case using j by simp
qed simp

lemma stop_total:
  assumes "\<forall>l w. join_loop J l w \<noteq> None"
  shows "\<exists>logs w. stop J s g = Some (logs, end_loop (os_loop s) (g\<lparr>gw_world := w\<rparr>))"
proof -
  obtain logs w1 where t: "join_tasks J True (os_tasks s) (gw_world g) = Some (logs, w1)"
    using join_tasks_total by blast
  obtain r w2 where d: "cn_disconnect (os_connection s) w1 = (r, w2)" by fastforce
  obtain err w3 where "join_loop J (os_loop s) w2 = Some (err, w3)" using assms by fastforce
  then show ?thesis using t d by (simp add: stop_def Let_def) blast
qed

lemma stop_stopping:
  "stop J s (m\<lparr>stopping := x\<rparr>) = map_option (\<lambda>(logs, g). (logs, g\<lparr>stopping := x\<rparr>)) (stop J s m)"
  by (simp add: stop_def Let_def end_loop_def split: option.split prod.split)

lemma stop_sessions_stopping:
  "stop_sessions J ss (m\<lparr>stopping := x\<rparr>) = map_option (\<lambda>g. g\<lparr>stopping := x\<rparr>) (stop_sessions J ss m)"
  by (induction ss arbitrary: m) (auto simp: stop_stopping split: option.split prod.split)

lemma stop_sessions_path:
  assumes "\<forall>l w. join_loop J l w \<noteq> None"
  shows "stopping m = Some ss \<Longrightarrow> \<exists>m'. stop_sessions J ss m = Some m' \<and>
    manager_path A J lag m (replicate (length ss) Stopped) (m'\<lparr>stopping := Some []\<rparr>) \<and>
    starts m' = starts m \<and> gw_registry m' = gw_registry m"
proof (induction ss arbitrary: m)
  case Nil
  then have "m\<lparr>stopping := Some []\<rparr> = m" by simp
  then show ?case using path_Nil[of A J lag m] by simp
next
  case (Cons s ss)
  obtain sid s' where s: "s = (sid, s')" by (cases s)
  obtain logs w where st: "stop J s' m = Some (logs, end_loop (os_loop s') (m\<lparr>gw_world := w\<rparr>))"
    using stop_total[OF assms] by blast
  let ?m1 = "end_loop (os_loop s') (m\<lparr>gw_world := w\<rparr>)"
  obtain m2 where m2: "stop_sessions J ss (?m1\<lparr>stopping := Some ss\<rparr>) = Some m2"
    "manager_path A J lag (?m1\<lparr>stopping := Some ss\<rparr>) (replicate (length ss) Stopped) (m2\<lparr>stopping := Some []\<rparr>)"
    "starts m2 = starts (?m1\<lparr>stopping := Some ss\<rparr>)" "gw_registry m2 = gw_registry (?m1\<lparr>stopping := Some ss\<rparr>)"
    using Cons.IH[of "?m1\<lparr>stopping := Some ss\<rparr>"] by auto
  then obtain m3 where m3: "stop_sessions J ss ?m1 = Some m3" "m2 = m3\<lparr>stopping := Some ss\<rparr>"
    by (auto simp: stop_sessions_stopping)
  have "manager_step A J lag m Stopped (?m1\<lparr>stopping := Some ss\<rparr>)"
    using Cons.prems st s by (intro stops) auto
  then have "manager_path A J lag m (replicate (length (s # ss)) Stopped) (m3\<lparr>stopping := Some []\<rparr>)"
    using m2(2) m3(2) by (auto intro: path_Cons)
  moreover have "starts ?m1 = starts m" by (simp add: end_loop_def)
  ultimately show ?case using m2 m3 s st by simp
qed





end
