(* ===== verification/Gw_Logging.thy ===== *)
theory Gw_Logging
  imports Gw_Prelude
begin

text \<open>
  The initialization of logging in \<^verbatim>\<open>src/main.rs\<close>: the log goes to a file of the logs directory,
  opened for appending and readable by all, or to the standard error.  The world is made of
  the files, the lines written to the standard error, and the process-wide subscriber; opening a
  file or changing its mode may fail.
\<close>

section \<open>Files and settings\<close>

datatype log_writer = LogFile str | Stderr

record log_settings =
  ls_writer :: log_writer
  ls_lossy :: bool
  ls_ansi :: bool

record log_file =
  lf_mode :: nat
  lf_text :: str

record log_world =
  lw_files :: "str \<rightharpoonup> log_file"
  lw_open_fault :: "str \<Rightarrow> str option"
  lw_chmod_fault :: "str \<Rightarrow> str option"
  lw_create_mode :: nat
  lw_stderr :: "str list"
  lw_subscriber :: "log_settings option"

record open_options =
  oo_create :: bool
  oo_append :: bool
  oo_truncate :: bool

definition open_file :: "open_options \<Rightarrow> str \<Rightarrow> log_world \<Rightarrow> (str + unit) \<times> log_world" where
  "open_file opts path w =
     (case lw_open_fault w path of
        Some e \<Rightarrow> (Inl e, w)
      | None \<Rightarrow>
          (case lw_files w path of
             Some f \<Rightarrow> (Inr (), if oo_truncate opts
               then w\<lparr>lw_files := (lw_files w)(path \<mapsto> f\<lparr>lf_text := []\<rparr>)\<rparr> else w)
           | None \<Rightarrow>
               if oo_create opts
               then (Inr (), w\<lparr>lw_files := (lw_files w)(path \<mapsto> \<lparr>lf_mode = lw_create_mode w, lf_text = []\<rparr>)\<rparr>)
               else (Inl (lit ''No such file or directory''), w)))"

definition set_permissions :: "str \<Rightarrow> nat \<Rightarrow> log_world \<Rightarrow> (str + unit) \<times> log_world" where
  "set_permissions path mode w =
     (case lw_chmod_fault w path of
        Some e \<Rightarrow> (Inl e, w)
      | None \<Rightarrow> (Inr (), w\<lparr>lw_files := (lw_files w)(path := map_option (lf_mode_update (\<lambda>_. mode)) (lw_files w path))\<rparr>))"

section \<open>Initialization\<close>

definition log_file_name :: str where
  "log_file_name = lit ''opcua-line-gateway'' @ lit ''.log''"

datatype logging_error = ReopenProxy str | InitSubscriber str

text \<open>The closure that opens the log file, and opens it again after a hangup.\<close>

definition open_logfile :: "str \<Rightarrow> log_world \<Rightarrow> (str + unit) \<times> log_world" where
  "open_logfile logfile_path w =
     (case open_file \<lparr>oo_create = True, oo_append = True, oo_truncate = False\<rparr> logfile_path w of
        (Inl e, w') \<Rightarrow> (Inl e, w')
      | (Inr _, w') \<Rightarrow> set_permissions logfile_path 420 w')"  \<comment> \<open>octal 644\<close>

definition eprintln :: "str \<Rightarrow> (log_world, 'e, unit) act" where
  "eprintln s w = (Inr (), w\<lparr>lw_stderr := lw_stderr w @ [s]\<rparr>)"

text \<open>
  The logging libraries: the proxy around a file, which opens it when it is created, and the
  installation of the subscriber, which a process can do only once.
\<close>

record log_lib =
  ll_with_handle :: "(log_world \<Rightarrow> (str + unit) \<times> log_world) \<Rightarrow> log_world \<Rightarrow> (str + unit) \<times> log_world"
  ll_try_init :: "log_settings \<Rightarrow> log_world \<Rightarrow> (str + unit) \<times> log_world"

locale logging_lib =
  fixes LL :: log_lib
  assumes with_handle: "ll_with_handle LL opener w = opener w"
    and first_subscriber: "lw_subscriber w = None \<Longrightarrow> ll_try_init LL settings w = (Inr (), w\<lparr>lw_subscriber := Some settings\<rparr>)"
    and other_subscriber: "lw_subscriber w = Some s \<Longrightarrow> \<exists>e. ll_try_init LL settings w = (Inl e, w)"
begin

lemma try_init_cases:
  "ll_try_init LL settings w = (x, w') \<Longrightarrow>
     x = Inr () \<and> lw_subscriber w = None \<and> w' = w\<lparr>lw_subscriber := Some settings\<rparr> \<or> (\<exists>e. x = Inl e) \<and> w' = w"
  using first_subscriber[of w settings] other_subscriber[of w _ settings] by (cases "lw_subscriber w") auto

end

text \<open>The reopening handle is the path of the log file; without one it has no effect.\<close>

definition init_logging :: "log_lib \<Rightarrow> str option \<Rightarrow> (log_world, logging_error, str option) act" where
  "init_logging LL logs_dir =
     act_bind
       (case logs_dir of
          Some dir \<Rightarrow>
            (let logfile_path = path_join dir log_file_name in
             act_bind (eprintln (lit ''LOGS_DIRECTORY env var is set, will log to '' @ logfile_path)) (\<lambda>_.
             act_bind (act_call ReopenProxy (ll_with_handle LL (open_logfile logfile_path))) (\<lambda>_.
             act_lift (Inr (LogFile logfile_path, Some logfile_path)))))
        | None \<Rightarrow>
            act_bind (eprintln (lit ''LOGS_DIRECTORY env var not set, will log to stderr'')) (\<lambda>_.
            act_lift (Inr (Stderr, None))))
       (\<lambda>(non_blocking, reopen_handle).
         act_bind (act_call InitSubscriber
           (ll_try_init LL \<lparr>ls_writer = non_blocking, ls_lossy = False, ls_ansi = (logs_dir = None)\<rparr>)) (\<lambda>_.
         act_lift (Inr reopen_handle)))"

section \<open>Properties\<close>

definition log_path :: "str option \<Rightarrow> str option" where
  "log_path logs_dir = map_option (\<lambda>dir. path_join dir log_file_name) logs_dir"

definition log_text :: "str \<Rightarrow> log_world \<Rightarrow> str" where
  "log_text path w = (case lw_files w path of None \<Rightarrow> [] | Some f \<Rightarrow> lf_text f)"

lemma log_text_simps [simp]:
  "log_text p (w\<lparr>lw_stderr := l\<rparr>) = log_text p w" "log_text p (w\<lparr>lw_subscriber := s\<rparr>) = log_text p w"
  by (simp_all add: log_text_def)

lemma open_logfile_files:
  assumes "open_logfile path w = (r, w')"
  shows "log_text p w' = log_text p w" and "p \<noteq> path \<Longrightarrow> lw_files w' p = lw_files w p"
    and "lw_subscriber w' = lw_subscriber w"
    and "r = Inr () \<Longrightarrow> \<exists>f. lw_files w' path = Some f \<and> lf_mode f = 420"
  using assms
  by (auto simp: open_logfile_def open_file_def set_permissions_def log_text_def
      split: option.splits sum.splits prod.splits if_splits)


definition ex_log :: log_world where
  "ex_log = \<lparr>lw_files = [lit ''/var/log/opcua-line-gateway.log'' \<mapsto> \<lparr>lf_mode = 384, lf_text = [65, 10]\<rparr>],
     lw_open_fault = (\<lambda>_. None), lw_chmod_fault = (\<lambda>_. None), lw_create_mode = 438, lw_stderr = [], lw_subscriber = None\<rparr>"

definition ex_log_lib :: log_lib where
  "ex_log_lib = \<lparr>ll_with_handle = (\<lambda>opener. opener),
     ll_try_init = (\<lambda>settings w. case lw_subscriber w of
       Some _ \<Rightarrow> (Inl (lit ''a global default trace dispatcher has already been set''), w)
     | None \<Rightarrow> (Inr (), w\<lparr>lw_subscriber := Some settings\<rparr>))\<rparr>"

interpretation exlog: logging_lib ex_log_lib
  by unfold_locales (simp_all add: ex_log_lib_def)

lemma ex_log_path: "path_join (lit ''/var/log'') log_file_name = lit ''/var/log/opcua-line-gateway.log''"
  by (simp add: path_join_def log_file_name_def)


end
