(* ===== verification/Gateway_Main.thy ===== *)
theory Gateway_Main
  imports Drain Manager_Runs Gw_Logging
begin

text \<open>
  The main program: the handling of signals and the preparation of \<^verbatim>\<open>src/main.rs\<close>, and the gateway
  function of \<^verbatim>\<open>src/lib.rs\<close>, which drains the queues once before it serves the machines.
\<close>

section \<open>Signals\<close>

text \<open>What the signals act on: the shutdown token, and the number of times the log is reopened.\<close>

record signal_state =
  cancelled :: bool
  reopened :: nat

definition registered_signals :: "int \<Rightarrow> int list \<Rightarrow> int list" where
  "registered_signals sighup term_signals = [sighup] @ term_signals"

text \<open>The signals are those received until the stream is closed.\<close>

fun signal_loop :: "int \<Rightarrow> int list \<Rightarrow> int list \<Rightarrow> (signal_state, unit, unit) act" where
  "signal_loop sighup term_signals [] st = (Inr (), st)"
| "signal_loop sighup term_signals (signal # signals) st =
     (if signal = sighup then signal_loop sighup term_signals signals (st\<lparr>reopened := reopened st + 1\<rparr>)
      else if signal \<in> set term_signals then
        signal_loop sighup term_signals signals (st\<lparr>cancelled := True\<rparr>)
      else (Inl (Panic (lit ''internal error: entered unreachable code'')), st))"

definition handle_signals :: "int \<Rightarrow> int list \<Rightarrow> int list \<Rightarrow> (signal_state, unit, unit) act" where
  "handle_signals sighup term_signals signals =
     act_bind (signal_loop sighup term_signals signals) (\<lambda>_ st.
     (Inr (), if \<not> cancelled st then st\<lparr>cancelled := True\<rparr> else st))"

section \<open>The gateway\<close>

datatype open_error = OpenError str

datatype run_error =
    OpenCache open_error
  | FirstDrainStatus
  | FirstDrainFailed
  | CreateClient client_build_error
  | JoinDraining join_error

text \<open>The libraries and the surroundings of \<^verbatim>\<open>run_main\<close>.\<close>

record ('s, 'db, 'w, 'r, 'e, 'b, 't, 'z) main_env =
  me_redb :: "('db, 'w, 'r) redb"
  me_open :: "str \<Rightarrow> ('s, 'db) world \<Rightarrow> (open_error + unit) \<times> ('s, 'db) world"
  me_clickhouse :: "('s, 'db) clickhouse"
  me_runtime :: "('s, 'db) runtime"
  me_cancelled :: "('s, 'db) world \<Rightarrow> bool"
  me_build :: "client_settings \<Rightarrow> str list + ('s, 'db, 'e, 'b) client_lib"
  me_time_provider :: "(('s, 'db) world, 't, 'z) time_provider"
  me_join_drain :: "('s, 'db) world \<Rightarrow> join_error option \<times> ('s, 'db) world"

definition gateway_cache ::
    "('s, 'db, 'w, 'r, 'e, 'b, 't, 'z) main_env \<Rightarrow> gateway_config \<Rightarrow> ('db, 'w, 'r) trace_cache" where
  "gateway_cache M config =
     \<lparr>cache_redb = me_redb M, queues_threshold = queues_not_draining_threshold (traceability config)\<rparr>"

definition gateway_database ::
    "('s, 'db, 'w, 'r, 'e, 'b, 't, 'z) main_env \<Rightarrow> gateway_config \<Rightarrow> credentials \<Rightarrow> ('db, 'w, 'r) trace_database" where
  "gateway_database M config creds =
     trace_database_new (me_clickhouse M) (database (traceability config)) (cred_database creds) (gateway_cache M config)"

text \<open>
  The wait for the status of the first run of the draining task.  When the shutdown comes before
  the first tick, the task ends without sending it.
\<close>

definition first_drain ::
    "('s, 'db, 'w, 'r, 'e, 'b, 't, 'z) main_env \<Rightarrow> ('db, 'w, 'r) trace_database
      \<Rightarrow> (('s, 'db) world, run_error, unit) act"
where
  "first_drain M D w =
     (if me_cancelled M w then (Inl (Err FirstDrainStatus), w)
      else case drain_tick (me_runtime M) (me_clickhouse M) D False w of (gp, w') \<Rightarrow>
        (ensure (first_status gp) FirstDrainFailed, w'))"

text \<open>Everything up to the sessions manager, whose arguments it gives.\<close>

definition start_gateway ::
    "('s, 'db, 'w, 'r, 'e, 'b, 't, 'z) main_env \<Rightarrow> gateway_config \<Rightarrow> credentials
      \<Rightarrow> (('s, 'db) world, run_error, ('s, 'db, 'e, 'b, 'w, 'r, 't, 'z) manager_args) act"
where
  "start_gateway M config creds =
     act_bind (act_call OpenCache (me_open M (redb_file (traceability config)))) (\<lambda>_.
     act_bind (first_drain M (gateway_database M config creds)) (\<lambda>_.
     act_bind (act_lift (case create_client (me_build M) config of
         Inl e \<Rightarrow> Inl (Err (CreateClient e)) | Inr k \<Rightarrow> Inr k)) (\<lambda>ua_client.
     act_lift (Inr \<lparr>ma_client = ua_client, ma_servers = machines config, ma_credentials = cred_opc_ua creds,
       ma_traceability_opc_ua = common_opc_ua (traceability config),
       ma_traceability_cache = gateway_cache M config, ma_time_provider = me_time_provider M\<rparr>))))"

text \<open>A run of \<^verbatim>\<open>run_main\<close>, with the run of the sessions manager until its sessions are stopped.\<close>

inductive run_main ::
    "('s, 'db, 'w, 'r, 'e, 'b, 't, 'z) main_env \<Rightarrow> ('s, 'db) joins \<Rightarrow> nat \<Rightarrow> gateway_config \<Rightarrow> credentials
      \<Rightarrow> ('s, 'db) world \<Rightarrow> (run_error, unit) res \<Rightarrow> ('s, 'db) world \<Rightarrow> bool"
  for M J lag config creds w
where
  not_started: "start_gateway M config creds w = (Inl f, w') \<Longrightarrow> run_main M J lag config creds w (Inl f) w'"
| served: "start_gateway M config creds w = (Inr A, w1) \<Longrightarrow> manager_path A J lag (manager_init w1 t0) as m \<Longrightarrow>
    stopping m = Some [] \<Longrightarrow> me_join_drain M (gw_world m) = (err, w') \<Longrightarrow>
    run_main M J lag config creds w (case err of None \<Rightarrow> Inr () | Some e \<Rightarrow> Inl (Err (JoinDraining e))) w'"

section \<open>The main function\<close>

text \<open>
  What the process is given: its arguments and environment variables, the files it reads with the
  parsers of the two configuration files, the logging libraries, the system time zone, and the registration of signals.
\<close>

record ('t, 'z) process =
  pr_args :: "str list"
  pr_var_os :: "str \<Rightarrow> str option"
  pr_read :: "str \<Rightarrow> cfg_io_error + str"
  pr_config_from_toml :: "str \<Rightarrow> toml_error + gateway_config"
  pr_credentials_from_toml :: "str \<Rightarrow> toml_error + credentials"
  pr_logging :: log_lib
  pr_system_tz :: "str + ('t \<Rightarrow> 'z)"
  pr_register :: "int list \<Rightarrow> str + unit"
  pr_sighup :: int
  pr_term_signals :: "int list"

datatype main_error =
    NoConfigPath
  | ConfigFailed config_error
  | CredentialsFailed credentials_error
  | LoggingFailed logging_error
  | TimezoneFailed str
  | SignalsFailed str
  | RunFailed run_error
  | JoinSignals

definition main_prepare ::
    "('t, 'z) process \<Rightarrow> (log_world, main_error, gateway_config \<times> credentials \<times> ('t \<Rightarrow> 'z)) act"
where
  "main_prepare P =
     act_bind (act_lift (ok_or NoConfigPath (case drop 1 (pr_args P) of [] \<Rightarrow> None | path # _ \<Rightarrow> Some path))) (\<lambda>config_path.
     act_bind (act_lift (of_sum ConfigFailed (from_toml_file (pr_read P) (pr_config_from_toml P) config_path))) (\<lambda>config.
     act_bind (act_lift (of_sum CredentialsFailed
         (from_credentials_file (pr_var_os P) (pr_read P) (pr_credentials_from_toml P)))) (\<lambda>creds.
     act_bind (act_map_err LoggingFailed (init_logging (pr_logging P) (pr_var_os P (lit ''LOGS_DIRECTORY'')))) (\<lambda>_.
     act_bind (act_lift (of_sum TimezoneFailed (pr_system_tz P))) (\<lambda>zone.
     act_bind (act_lift (of_sum SignalsFailed
         (pr_register P (registered_signals (pr_sighup P) (pr_term_signals P))))) (\<lambda>_.
     act_lift (Inr (config, creds, zone))))))))"

text \<open>
  A run of the program, with the signals that it receives until their stream is closed.  The
  gateway function returns without an error only after the shutdown, which the signal task
  triggers: on a signal, or when the stream is \<open>exhausted\<close> before the program closes it.
\<close>

definition main_env_of ::
    "('s, 'db, 'w, 'r, 'e, 'b, 't, 'z) main_env \<Rightarrow> (('s, 'db) world \<Rightarrow> 't) \<Rightarrow> ('t \<Rightarrow> 'z)
      \<Rightarrow> ('s, 'db, 'w, 'r, 'e, 'b, 't, 'z) main_env"
where
  "main_env_of M system_clock zone = M\<lparr>me_time_provider := time_provider_new (\<lambda>c. c) system_clock zone\<rparr>"

definition shutdown_pending :: signal_state where
  "shutdown_pending = \<lparr>cancelled = False, reopened = 0\<rparr>"

inductive main_run ::
    "('t, 'z) process \<Rightarrow> ('s, 'db, 'w, 'r, 'e, 'b, 't, 'z) main_env \<Rightarrow> (('s, 'db) world \<Rightarrow> 't) \<Rightarrow> ('s, 'db) joins \<Rightarrow> nat
      \<Rightarrow> log_world \<Rightarrow> ('s, 'db) world \<Rightarrow> int list \<Rightarrow> bool \<Rightarrow> (main_error, unit) res \<Rightarrow> ('s, 'db) world \<Rightarrow> bool"
  for P M system_clock J lag lw w signals exhausted
where
  unprepared: "main_prepare P lw = (Inl f, lw') \<Longrightarrow> main_run P M system_clock J lag lw w signals exhausted (Inl f) w"
| failed: "main_prepare P lw = (Inr (config, creds, zone), lw') \<Longrightarrow>
    run_main (main_env_of M system_clock zone) J lag config creds w (Inl f) w' \<Longrightarrow>
    main_run P M system_clock J lag lw w signals exhausted (map_err RunFailed (Inl f)) w'"
| ended: "main_prepare P lw = (Inr (config, creds, zone), lw') \<Longrightarrow>
    run_main (main_env_of M system_clock zone) J lag config creds w (Inr ()) w' \<Longrightarrow>
    exhausted \<or> cancelled (snd (signal_loop (pr_sighup P) (pr_term_signals P) signals shutdown_pending)) \<Longrightarrow>
    main_run P M system_clock J lag lw w signals exhausted
      (case fst (handle_signals (pr_sighup P) (pr_term_signals P) signals shutdown_pending) of
         Inr _ \<Rightarrow> Inr () | Inl _ \<Rightarrow> Inl (Err JoinSignals)) w'"

lemma from_toml_file_machines: "from_toml_file rd parse path = Inr config \<Longrightarrow> machines config \<noteq> []"
  by (auto simp: from_toml_file_def split: sum.splits if_splits)

lemma main_prepare_config:
  "main_prepare P lw = (Inr (config, creds, zone), lw') \<Longrightarrow>
     \<exists>path. from_toml_file (pr_read P) (pr_config_from_toml P) path = Inr config"
  by (auto simp: main_prepare_def act_bind_eq_Inr of_sum_eq_Inr)

section \<open>Properties\<close>

lemma signal_loop_registered:
  assumes "set signals \<subseteq> set (registered_signals sighup term_signals)"
  shows "signal_loop sighup term_signals signals st
    = (Inr (), st\<lparr>cancelled := cancelled st \<or> (\<exists>s\<in>set signals. s \<noteq> sighup),
        reopened := reopened st + count_list signals sighup\<rparr>)"
  using assms
  by (induction sighup term_signals signals st rule: signal_loop.induct) (auto simp: registered_signals_def)

lemma signal_loop_cancelled:
  "cancelled (snd (signal_loop sighup term_signals signals st)) \<Longrightarrow> cancelled st \<or> (\<exists>s\<in>set signals. s \<in> set term_signals)"
  by (induction sighup term_signals signals st rule: signal_loop.induct) (auto split: if_splits)





definition ex_ch_ua :: "((str \<times> str) list, mem_db, unit, unit) client_lib" where
  "ex_ch_ua = \<lparr>cl_endpoints = (\<lambda>_ w. (Inr [], w)), cl_matching = (\<lambda>_ _ _. Inr ()),
     cl_build = (\<lambda>_ w. (Inl (UaError 0), w))\<rparr>"

definition ex_main :: "((str \<times> str) list, mem_db, mem_write, mem_read, unit, unit, unit, civil) main_env" where
  "ex_main = \<lparr>me_redb = mem_redb, me_open = (\<lambda>_ w. (Inr (), World (surroundings w) (MemDb ex_queued []))),
     me_clickhouse = ex_clickhouse, me_runtime = ex_rt, me_cancelled = (\<lambda>_. False),
     me_build = (\<lambda>_. Inr ex_ch_ua), me_time_provider = \<lparr>clock = (\<lambda>_. ()), tz = (\<lambda>_. example_day)\<rparr>,
     me_join_drain = (\<lambda>w. (None, w))\<rparr>"

definition ex_config :: gateway_config where
  "ex_config = \<lparr>application_uri = [], pki_dir = [],
     traceability = \<lparr>redb_file = [], queues_not_draining_threshold = 10, common_opc_ua = ex_common,
       database = \<lparr>db_url = [], default_database = [], part_sheets_drain_period = seconds 1,
         general_part_sheet_table = lit ''g'', operation_part_sheet_table = lit ''o''\<rparr>\<rparr>,
     machines = [(lit ''M1'', ex_machine_config)]\<rparr>"

definition ex_creds :: credentials where
  "ex_creds = \<lparr>cred_database = \<lparr>user = [], password = []\<rparr>, cred_opc_ua = []\<rparr>"

definition ex_process :: "(unit, civil) process" where
  "ex_process = \<lparr>pr_args = [[], []], pr_var_os = (\<lambda>v. if v = cred_dir_env_var then Some [] else None),
     pr_read = (\<lambda>_. Inr []), pr_config_from_toml = (\<lambda>_. Inr ex_config), pr_credentials_from_toml = (\<lambda>_. Inr ex_creds),
     pr_logging = ex_log_lib, pr_system_tz = Inr (\<lambda>_. example_day), pr_register = (\<lambda>_. Inr ()), pr_sighup = 1, pr_term_signals = [15, 3, 2]\<rparr>"

lemma ex_prepare: "\<exists>lw'. main_prepare ex_process ex_log = (Inr (ex_config, ex_creds, \<lambda>_. example_day), lw')"
  by (simp add: main_prepare_def act_bind_def act_map_err_def from_toml_file_def from_credentials_file_def
      credentials_from_toml_file_def ex_process_def ex_config_def init_logging_def eprintln_def act_call_def ex_log_lib_def
      ex_log_def cred_dir_env_var_def)

lemma serves_start:
  "\<exists>A w1. start_gateway ex_main ex_config ex_creds (World [] (MemDb ex_mem [])) = (Inr A, w1)"
proof -
  let ?w = "World [] (MemDb ex_mem []) :: ((str \<times> str) list, mem_db) world"
  have D: "gateway_database ex_main ex_config ex_creds = ex_db\<lparr>db_cache := gateway_cache ex_main ex_config\<rparr>"
    by (simp add: gateway_database_def trace_database_new_def ex_main_def ex_config_def ex_creds_def ex_db_def
        ex_clickhouse_def ex_client_def)
  have d: "first_status (fst (drain_tick ex_rt ex_clickhouse (gateway_database ex_main ex_config ex_creds) False
      (World [] (MemDb ex_queued []))))"
    unfolding D
    by (simp add: drain_tick_def first_status_def ex_drain_run ex_queued_def ex_mem_def gateway_cache_def ex_main_def)
  obtain gp w1 where t: "drain_tick ex_rt ex_clickhouse (gateway_database ex_main ex_config ex_creds) False
      (World [] (MemDb ex_queued [])) = (gp, w1)" by fastforce
  obtain A where s: "start_gateway ex_main ex_config ex_creds ?w = (Inr A, w1)"
    using t d by (simp add: start_gateway_def act_bind_def act_call_def first_drain_def create_client_def
        ex_main_def ensure_def)
  then show ?thesis by blast
qed


end
