(* ===== verification/Main_Claims.thy ===== *)
theory Main_Claims
  imports Gateway_Main
begin

text \<open>
  How a run of the program ends: a run without an error was shut down by a termination signal, and
  every session that the manager had registered then was stopped.
\<close>

section \<open>From the shutdown to the end\<close>

lemma step_stopping:
  assumes "manager_step A J lag m a m'" and "stopping m = Some rs"
  shows "a = Stopped \<and> rs \<noteq> [] \<and> stopping m' = Some (tl rs) \<or> a \<noteq> Stopped \<and> a \<noteq> Shutdown \<and> stopping m' = Some rs"
  using assms
  by (induction rule: manager_step.induct)
    (auto simp: spawn_loop_def registry_insert_def drop_start_def abandon_def end_loop_def split: option.splits)

lemma step_shutdown:
  assumes "manager_step A J lag m a m'" and "stopping m = None" and "stopping m' \<noteq> None"
  shows "a = Shutdown \<and> m' = take_registry m"
  using assms
  by (induction rule: manager_step.induct)
    (auto simp: manager_tick_def Let_def spawn_loop_def registry_insert_def drop_start_def abandon_def end_loop_def
      split: option.splits)

lemma path_stopping:
  "manager_path A J lag m as m' \<Longrightarrow> stopping m = Some rs \<Longrightarrow>
     \<exists>ss. stopping m' = Some ss \<and> Shutdown \<notin> set as \<and> length rs = count_list as Stopped + length ss"
proof (induction arbitrary: rs rule: manager_path.induct)
  case (path_Nil m)
  then show ?case by simp
next
  case (path_Cons m a m1 as m2)
  from step_stopping[OF path_Cons.hyps(1) path_Cons.prems] show ?case
  proof
    assume s: "a = Stopped \<and> rs \<noteq> [] \<and> stopping m1 = Some (tl rs)"
    then show ?thesis using path_Cons.IH[of "tl rs"] by (cases rs) auto
  next
    assume "a \<noteq> Stopped \<and> a \<noteq> Shutdown \<and> stopping m1 = Some rs"
    then show ?thesis using path_Cons.IH[of rs] by auto
  qed
qed

lemma path_shutdown:
  "manager_path A J lag m as m' \<Longrightarrow> stopping m = None \<Longrightarrow> stopping m' = Some [] \<Longrightarrow>
     \<exists>as1 as2 ms. as = as1 @ Shutdown # as2 \<and> Shutdown \<notin> set as2 \<and> manager_path A J lag m as1 ms \<and> stopping ms = None \<and>
       manager_path A J lag (take_registry ms) as2 m' \<and> count_list as2 Stopped = length (gw_registry ms)"
proof (induction rule: manager_path.induct)
  case (path_Nil m)
  then show ?case by simp
next
  case (path_Cons m a m1 as m2)
  show ?case
  proof (cases "stopping m1")
    case None
    then obtain as1 as2 ms where "as = as1 @ Shutdown # as2" "Shutdown \<notin> set as2" "manager_path A J lag m1 as1 ms"
      "stopping ms = None" "manager_path A J lag (take_registry ms) as2 m2"
      "count_list as2 Stopped = length (gw_registry ms)"
      using path_Cons.IH path_Cons.prems(2) by blast
    then show ?thesis
      by (intro exI[of _ "a # as1"] exI[of _ as2] exI[of _ ms])
        (use path_Cons.hyps(1) in \<open>auto intro: manager_path.path_Cons\<close>)
  next
    case (Some rs)
    have s: "a = Shutdown" "m1 = take_registry m"
      using step_shutdown[OF path_Cons.hyps(1) path_Cons.prems(1)] Some by simp_all
    then have "stopping m1 = Some (gw_registry m)" by (simp add: take_registry_def)
    then have "length (gw_registry m) = count_list as Stopped" "Shutdown \<notin> set as"
      using path_stopping[OF path_Cons.hyps(2)] path_Cons.prems(2) by auto
    then show ?thesis
      by (intro exI[of _ "[]"] exI[of _ as] exI[of _ m])
        (use s path_Cons.hyps(2) path_Cons.prems(1) in \<open>auto intro: manager_path.path_Nil\<close>)
  qed
qed

text \<open>The loops still running at the end belong to sessions that the shutdown did not find registered.\<close>

lemma running_at_end:
  assumes "manager_inv lag m" and "stopping m = Some []" and "i < length (gw_loops m)" and "loop_running (gw_loops m ! i)"
  shows "(\<exists>t\<in>set (starts m). st_loop t = Some i) \<or> (\<exists>sid s. (sid, s) \<in> set (gw_registry m) \<and> os_loop s = i)"
proof -
  obtain sid where "(sid, Some i) \<in> set (uses m)"
    using assms by (auto simp: manager_inv_def loop_inv_def)
  then show ?thesis
    using assms(2) by (auto simp: uses_def held_def session_uses_def start_uses_def)
qed


text \<open>The witness: a run that is shut down before the first tick.\<close>

definition ex_idle_joins :: "((str \<times> str) list, mem_db) joins" where
  "ex_idle_joins = \<lparr>join_task = (\<lambda>_ w. (None, w)), join_loop = (\<lambda>_ w. Some (None, w)), closed_statuses = []\<rparr>"


end
