(* ===== verification/Queue_Bound.thy ===== *)
theory Queue_Bound
  imports Cache_Claims
begin

text \<open>
  How far the queues can grow.  A handler checks that enqueuing is allowed and saves later, so
  that several of them may pass the check before any saves: the threshold bounds the queues only
  up to the number of handlers.
\<close>

text \<open>
  Calls tagged with the handler that makes them, as \<^verbatim>\<open>handle_save\<close> makes them: a save comes after a
  successful check of the same handler that no other save of its own has used.
\<close>

fun checks_before_saves :: "nat set \<Rightarrow> (nat \<times> ('d, 'c, 't) cache_call) list \<Rightarrow> outcome list \<Rightarrow> bool" where
  "checks_before_saves P ((i, CheckEnqueuing) # cs) (x # os) =
     checks_before_saves (if succeeded x then insert i P else P) cs os"
| "checks_before_saves P ((i, SaveSheets ts machine pid general operation ctx) # cs) (x # os) \<longleftrightarrow>
     i \<in> P \<and> checks_before_saves (P - {i}) cs os"
| "checks_before_saves P ((i, c) # cs) (x # os) = checks_before_saves P cs os"
| "checks_before_saves P _ _ \<longleftrightarrow> True"

lemma queued_sum: "queued t = card (dom (opened (general_rows t))) + card (dom (opened (operation_rows t)))"
  by (simp add: queued_def queue_tables_def)

lemma card_dom_upd: "card (dom (m(k \<mapsto> v))) \<le> card (dom m) + 1" for m :: "u64 \<rightharpoonup> 'v"
  by (simp add: card_insert_if)

lemma card_dom_restrict: "card (dom (m |` A)) \<le> card (dom m)" for m :: "u64 \<rightharpoonup> 'v"
  by (simp add: card_mono)

lemma queued_save: "queued (spec_save pid b jg jo t) \<le> queued t + 2"
  using card_dom_upd[of "opened (general_rows t)" "spec_seq t" jg]
    card_dom_upd[of "opened (operation_rows t)" "spec_seq t + 1" jo]
  by (simp add: queued_sum spec_save_def)

lemma queued_remove: "queued (spec_remove q keys t) \<le> queued t"
  using card_dom_restrict[of "opened (rows General t)" "- set keys"]
    card_dom_restrict[of "opened (rows Operation t)" "- set keys"]
    rows_spec_remove[of General q keys t] rows_spec_remove[of Operation q keys t]
  by (cases q) (simp_all add: queued_sum)

lemma queued_serial [simp]: "queued (spec_serial_step k t) = queued t"
  by (simp add: queued_sum spec_serial_step_def)

lemma queued_step:
  assumes "atomic_step L h c x t t'"
  shows "queued t' \<le> queued t + 2"
    and "(\<And>ts machine pid general operation ctx. c \<noteq> SaveSheets ts machine pid general operation ctx) \<Longrightarrow> queued t' \<le> queued t"
  using atomic_step_cases[OF assms] queued_save queued_remove
  by (cases c; fastforce split: sum.splits intro: le_SucI)+

text \<open>A step keeps the number of rows, plus two for each handler that may save, below the bound.\<close>

definition room :: "u64 \<Rightarrow> nat \<Rightarrow> nat \<Rightarrow> nat set \<Rightarrow> tables \<Rightarrow> bool" where
  "room h n bnd P t \<longleftrightarrow> P \<subseteq> {..<n} \<and> queued t + 2 * card P < bnd \<and> unat h + 2 * n \<le> bnd"

lemma room_check:
  assumes "room h n bnd P t" and "of_nat (queued t) < h" and "i < n" and "bnd \<le> 2 ^ 64"
  shows "room h n bnd (insert i P) t"
proof -
  have "queued t < 2 ^ 64" using assms(1,4) by (simp add: room_def)
  then have "unat (of_nat (queued t) :: u64) = queued t"
    by (simp add: unat_of_nat take_bit_nat_eq_self)
  then have q: "queued t < unat h" using assms(2) by (simp add: word_less_nat_alt)
  have sub: "insert i P \<subseteq> {..<n}" using assms(1,3) by (simp add: room_def)
  then have "card (insert i P) \<le> n" by (metis card_lessThan card_mono finite_lessThan)
  then show ?thesis using q sub assms(1) unfolding room_def by linarith
qed

lemma room_save:
  assumes "room h n bnd P t" and "i \<in> P" and "queued t' \<le> queued t + 2"
  shows "room h n bnd (P - {i}) t'"
proof -
  have "finite P" using assms(1) unfolding room_def by (meson finite_lessThan finite_subset)
  then have "card P = card (P - {i}) + 1" using assms(2) card.remove[of P i] by simp
  moreover have "P - {i} \<subseteq> {..<n}" using assms(1) by (auto simp: room_def)
  ultimately show ?thesis using assms(1,3) unfolding room_def by linarith
qed

lemma room_other: "room h n bnd P t \<Longrightarrow> queued t' \<le> queued t \<Longrightarrow> room h n bnd P t'"
  unfolding room_def by linarith

lemma room_run:
  "checks_before_saves P mcs os \<Longrightarrow> tsteps L h (map snd mcs) os t t' \<Longrightarrow> room h n bnd P t \<Longrightarrow>
     fst ` set mcs \<subseteq> {..<n} \<Longrightarrow> bnd \<le> 2 ^ 64 \<Longrightarrow> queued t' < bnd"
proof (induction mcs arbitrary: P os t)
  case Nil
  then show ?case by (simp add: room_def)
next
  case (Cons ic mcs)
  obtain i c where ic: "ic = (i, c)" by (cases ic)
  obtain x xs t1 where os: "os = x # xs" and s: "atomic_step L h c x t t1" and r: "tsteps L h (map snd mcs) xs t1 t'"
    using Cons.prems(2) ic by (cases os) auto
  have i: "i < n" "fst ` set mcs \<subseteq> {..<n}" using Cons.prems(4) ic by auto
  have go: "queued t' < bnd" if "checks_before_saves P' mcs xs" "room h n bnd P' t1" for P'
    by (rule Cons.IH[OF that(1) r that(2) i(2) Cons.prems(5)])
  note quiet = room_other[OF Cons.prems(3) queued_step(2)[OF s]]
  show ?case
  proof (cases c)
    case (SaveSheets ts machine pid general operation ctx)
    then show ?thesis
      using Cons.prems(1) ic os room_save[OF Cons.prems(3) _ queued_step(1)[OF s]] by (intro go[of "P - {i}"]) auto
  next
    case CheckEnqueuing
    have "t1 = t" using atomic_step_cases[OF s] CheckEnqueuing by simp
    moreover have "of_nat (queued t) < h" if "succeeded x"
      using s that CheckEnqueuing by (cases x) (auto simp: atomic_step_def split: sum.splits)
    ultimately have "room h n bnd (if succeeded x then insert i P else P) t1"
      using room_check[OF Cons.prems(3) _ i(1) Cons.prems(5)] Cons.prems(3) by simp
    then show ?thesis using Cons.prems(1) ic os CheckEnqueuing by (intro go) auto
  qed (use Cons.prems(1) ic os quiet go in auto)
qed

text \<open>C27. The queues are bounded: with at most n handlers that check before they save, as the save
  request does, and whatever the interleaving with each other and with the draining task, the
  two queues together never hold as many rows as the threshold plus two for each handler.\<close>

theorem queues_bounded:
  assumes "redb_store R view wview wbase rview" and "cache_redb C = R"
    and "run_calls L C (map snd mcs) db = (os, db')" and "checks_before_saves {} mcs os" and "fst ` set mcs \<subseteq> {..<n}"
    and "queued (view db) < unat (queues_threshold C) + 2 * n" and "unat (queues_threshold C) + 2 * n \<le> 2 ^ 64"
  shows "queued (view db') < unat (queues_threshold C) + 2 * n"
  by (rule room_run[OF assms(4) redb_store.run_calls_tsteps[OF assms(1,3,2)] _ assms(5,7)])
    (use assms(6) in \<open>simp add: room_def\<close>)

text \<open>Two handlers that pass the check with the last free row exceed the threshold, within the bound.\<close>

definition ex_race :: "(nat \<times> (civil, unit, unit) cache_call) list" where
  "ex_race = [(0, CheckEnqueuing), (1, CheckEnqueuing), (0, SaveSheets () [] ex_pid [] [] ()),
     (1, SaveSheets () [] ex_pid [] [] ())]"

theorem queues_bounded_witness:
  "\<exists>m. run_calls ex_libs ex_cache (map snd ex_race) (MemDb ex_mem [])
      = ([Checked (Inr ()), Checked (Inr ()), Saved (Inr ()), Saved (Inr ())], MemDb m []) \<and>
    queued (mem_view m) < unat (queues_threshold ex_cache) + 2 * 2"
proof -
  obtain bytes jg jo where e: "encode_sheets le_codec ex_ua ex_row () [] ex_pid [] [] () = Inr (bytes, jg, jo)"
    using ex_nothing_encodes by blast
  let ?s = "mem_saved (as_str ex_pid) bytes jg jo"
  have c: "exec_call ex_libs ex_cache CheckEnqueuing (MemDb ex_mem []) = (Checked (Inr ()), MemDb ex_mem [])"
    by (simp add: check_enqueuing_allowed_def queue_tables_def table_definition_def mem_run ex_mem_def)
  have r: "run_calls ex_libs ex_cache (map snd ex_race) (MemDb ex_mem [])
      = ([Checked (Inr ()), Checked (Inr ()), Saved (Inr ()), Saved (Inr ())], MemDb (?s (?s ex_mem)) [])"
    by (simp add: ex_race_def c mem_save[OF e] del: exec_call.simps(4))
  have "queued (mem_view ex_mem) = 0"
    by (simp add: queued_def queue_tables_def mem_view_def ex_mem_def)
  then have "queued ((mem_view \<circ> db_tables) (MemDb (?s (?s ex_mem)) [])) < unat (queues_threshold ex_cache) + 2 * 2"
    by (intro queues_bounded[OF memdb.redb_store_axioms _ r]) (auto simp: ex_race_def ex_cache_def)
  then show ?thesis using r by auto
qed

end
