(* ===== verification/Schedule.thy ===== *)
theory Schedule
  imports Request_Claims Drain
begin

text \<open>
  The tasks composed on the store they share.  While a task waits, the others make calls to the
  cache: a schedule gives, for each wait, the calls that they make meanwhile.  The services of the
  session, of the pool of blocking threads and of the archive are those of a server without a
  store, interleaved with these calls.  Every schedule of calls made while there are numbers
  left satisfies the relations that \<open>handler_world\<close> and \<open>drain_world\<close> assume of the other tasks.
\<close>

section \<open>Waits interleaved with calls\<close>

type_synonym ('s, 'db, 'd, 'c, 't) scheduler = "('s, 'db) world \<Rightarrow> ('d, 'c, 't) cache_call list"

definition interleaved ::
    "('d, 'c, 't) libs \<Rightarrow> ('db, 'w, 'r) trace_cache \<Rightarrow> ('s, 'db, 'd, 'c, 't) scheduler \<Rightarrow> ('s \<Rightarrow> 'a \<times> 's)
      \<Rightarrow> ('s, 'db) world \<Rightarrow> 'a \<times> ('s, 'db) world"
where
  "interleaved L C sched f w =
     (case f (surroundings w) of (r, s') \<Rightarrow> (r, World s' (snd (run_calls L C (sched w) (store w)))))"

definition scheduled_runtime ::
    "('d, 'c, 't) libs \<Rightarrow> ('db, 'w, 'r) trace_cache \<Rightarrow> ('s, 'db, 'd, 'c, 't) scheduler
      \<Rightarrow> ('s \<Rightarrow> join_error option \<times> 's) \<Rightarrow> ('s, 'db) runtime" where
  "scheduled_runtime L C sched fate = \<lparr>until_run = interleaved L C sched fate\<rparr>"

definition scheduled_session ::
    "('d, 'c, 't) libs \<Rightarrow> ('db, 'w, 'r) trace_cache \<Rightarrow> ('s, 'db, 'd, 'c, 't) scheduler
      \<Rightarrow> 's session \<Rightarrow> ('s, 'db) world session" where
  "scheduled_session L C sched S =
     \<lparr>ua_read = (\<lambda>ns. interleaved L C sched (ua_read S ns)),
      ua_write = (\<lambda>vs. interleaved L C sched (ua_write S vs)),
      ua_namespace_index = (\<lambda>u. interleaved L C sched (ua_namespace_index S u)),
      ua_browse = (\<lambda>p d. interleaved L C sched (ua_browse S p d))\<rparr>"

record 's archive_server =
  as_client :: ch_client
  as_send :: "inserter \<Rightarrow> str \<Rightarrow> 's \<Rightarrow> (ch_error + inserter) \<times> 's"
  as_end :: "inserter \<Rightarrow> 's \<Rightarrow> (ch_error + unit) \<times> 's"

definition scheduled_clickhouse ::
    "('d, 'c, 't) libs \<Rightarrow> ('db, 'w, 'r) trace_cache \<Rightarrow> ('s, 'db, 'd, 'c, 't) scheduler
      \<Rightarrow> 's archive_server \<Rightarrow> ('s, 'db) clickhouse" where
  "scheduled_clickhouse L C sched A =
     \<lparr>ch_default = as_client A,
      ch_send = (\<lambda>i b. interleaved L C sched (as_send A i b)),
      ch_end = (\<lambda>i. interleaved L C sched (as_end A i))\<rparr>"

lemma interleaved_store:
  "interleaved L C sched f w = (r, w') \<Longrightarrow> store w' = snd (run_calls L C (sched w) (store w))"
  by (auto simp: interleaved_def split: prod.splits)

lemma interleaved_surroundings:
  "interleaved L C sched f w = (r, w') \<Longrightarrow> f (surroundings w) = (r, surroundings w')"
  by (auto simp: interleaved_def split: prod.splits)

lemma scheduled_simps [simp]:
  "until_run (scheduled_runtime L C sched fate) = interleaved L C sched fate"
  "ua_read (scheduled_session L C sched S) ns = interleaved L C sched (ua_read S ns)"
  "ua_write (scheduled_session L C sched S) vs = interleaved L C sched (ua_write S vs)"
  "ch_send (scheduled_clickhouse L C sched A) i b = interleaved L C sched (as_send A i b)"
  "ch_end (scheduled_clickhouse L C sched A) i = interleaved L C sched (as_end A i)"
  by (simp_all add: scheduled_runtime_def scheduled_session_def scheduled_clickhouse_def)

section \<open>Schedules\<close>

text \<open>The calls of a schedule satisfy \<open>allowed\<close>, and are made while there are numbers left.\<close>

locale schedule = redb_store R view wview wbase rview
  for R :: "('db, 'w, 'r) redb" and view :: "'db \<Rightarrow> tables"
    and wview wbase :: "'w \<Rightarrow> tables" and rview :: "'r \<Rightarrow> tables" +
  fixes L :: "('d, 'c, 't) libs" and C :: "('db, 'w, 'r) trace_cache"
    and sched :: "('s, 'db, 'd, 'c, 't) scheduler" and allowed :: "('d, 'c, 't) cache_call \<Rightarrow> bool"
  assumes schedule_cache: "cache_redb C = R"
    and schedule_allowed: "list_all allowed (sched w)"
    and schedule_paced: "paced L C view (sched w) (store w)"
begin

lemma interleaved_rely:
  assumes "interleaved L C sched f w = (r, w')"
    and "\<And>c x t t'. allowed c \<Longrightarrow> numbers_left L c t \<Longrightarrow> atomic_step L (queues_threshold C) c x t t' \<Longrightarrow> rely t t'"
    and "\<And>t. rely t t" and "\<And>t t1 t2. rely t t1 \<Longrightarrow> rely t1 t2 \<Longrightarrow> rely t t2"
  shows "rely (view (store w)) (view (store w'))"
  unfolding interleaved_store[OF assms(1)]
  by (rule paced_run[where allowed = allowed, OF assms(2,3,4) schedule_cache schedule_allowed schedule_paced])

lemma schedule_handler_world:
  assumes "\<And>c x t t'. allowed c \<Longrightarrow> numbers_left L c t \<Longrightarrow> atomic_step L (queues_threshold C) c x t t' \<Longrightarrow> rely t t'"
    and "\<And>t. rely t t" and "\<And>t t1 t2. rely t t1 \<Longrightarrow> rely t1 t2 \<Longrightarrow> rely t t2"
  shows "handler_world R view wview wbase rview (scheduled_runtime L C sched fate) (scheduled_session L C sched S) rely"
proof (intro handler_world.intro handler_world_axioms.intro redb_store_axioms)
  show "rely t t" for t by (rule assms(2))
  show "rely t t2" if "rely t t1" "rely t1 t2" for t t1 t2 by (rule assms(3)[OF that])
qed (simp_all, (erule interleaved_rely; fact assms)+)

lemma interleaved_others:
  assumes "interleaved L C sched f w = (r, w')" and "json_lines (json_lib_of (lib_row L))"
    and "\<forall>keys. \<not> allowed (RemoveEntries q keys)"
  shows "others q (view (store w)) (view (store w'))"
proof (rule interleaved_rely[OF assms(1)])
  show "others q t t'" if "allowed c" "numbers_left L c t" "atomic_step L (queues_threshold C) c x t t'" for c x t t'
    by (rule others_step[OF that(3) assms(2) that(2)]) (use that(1) assms(3) in blast)
  show "others q t t" for t by simp
  show "others q t t2" if "others q t t1" "others q t1 t2" for t t1 t2 by (rule others_trans[OF that])
qed

end

text \<open>Handlers: the serial numbers that other tasks take only grow.\<close>

locale scheduled_machine = schedule R view wview wbase rview L C sched allowed
  for R :: "('db, 'w, 'r) redb" and view :: "'db \<Rightarrow> tables"
    and wview wbase :: "'w \<Rightarrow> tables" and rview :: "'r \<Rightarrow> tables"
    and L :: "('d, 'c, 't) libs" and C :: "('db, 'w, 'r) trace_cache"
    and sched :: "('s, 'db, 'd, 'c, 't) scheduler" and allowed :: "('d, 'c, 't) cache_call \<Rightarrow> bool" +
  fixes fate :: "'s \<Rightarrow> join_error option \<times> 's" and S :: "'s session"

lemma serials_grow_left:
  assumes "atomic_step L h c x t t'" and "numbers_left L c t"
  shows "serials_grow t t'"
proof -
  have g: "serials_grow t (spec_serial_step (strftime_ymd (lib_dates L) d) t)"
    if "last_serial (strftime_ymd (lib_dates L) d) t + 2 < 2 ^ 32" for d
  proof -
    let ?k = "strftime_ymd (lib_dates L) d"
    have "last_serial k (spec_serial_step ?k t) = (if k = ?k then last_serial ?k t + 1 else last_serial k t)" for k
      using that last_serial_spec(2)[of ?k t ?k] by (simp add: last_serial_def spec_serial_step_def)
    then show ?thesis using that by (simp add: serials_grow_def serials_sane_def)
  qed
  have "serials_grow t (effect L c t)"
    using assms(2) g
    by (cases c) (auto simp: serials_grow_refl serials_grow_def serials_sane_def split: sum.splits)
  then show ?thesis using atomic_step_cases[OF assms(1)] serials_grow_refl by auto
qed

sublocale scheduled_machine \<subseteq> serials: handler_world R view wview wbase rview
  "scheduled_runtime L C sched fate" "scheduled_session L C sched S" serials_grow
  by (rule schedule_handler_world) (auto intro: serials_grow_left serials_grow_refl serials_grow_trans)

text \<open>When the other tasks do not save the part \<open>k\<close>, its cached sheet stays.\<close>

locale scheduled_part = scheduled_machine R view wview wbase rview L C sched allowed fate S
  for R :: "('db, 'w, 'r) redb" and view :: "'db \<Rightarrow> tables"
    and wview wbase :: "'w \<Rightarrow> tables" and rview :: "'r \<Rightarrow> tables"
    and L :: "('d, 'c, 't) libs" and C :: "('db, 'w, 'r) trace_cache"
    and sched :: "('s, 'db, 'd, 'c, 't) scheduler" and allowed :: "('d, 'c, 't) cache_call \<Rightarrow> bool"
    and fate :: "'s \<Rightarrow> join_error option \<times> 's" and S :: "'s session" +
  fixes k :: str
  assumes part_not_saved: "allowed c \<Longrightarrow> \<not> saves_part k c"

sublocale scheduled_part \<subseteq> part: handler_world R view wview wbase rview
  "scheduled_runtime L C sched fate" "scheduled_session L C sched S" "same_sheet k"
proof (rule schedule_handler_world)
  show "same_sheet k t t'" if "allowed c" "atomic_step L (queues_threshold C) c x t t'" for c x t t'
    using sheets_step[OF that(2)] part_not_saved[OF that(1)] by (simp add: same_sheet_def)
qed (simp_all add: same_sheet_def)

text \<open>The draining task: no other task removes rows, and the archive keeps what it is sent.\<close>

locale scheduled_drain = schedule R view wview wbase rview L C sched allowed
  for R :: "('db, 'w, 'r) redb" and view :: "'db \<Rightarrow> tables"
    and wview wbase :: "'w \<Rightarrow> tables" and rview :: "'r \<Rightarrow> tables"
    and L :: "('d, 'c, 't) libs" and C :: "('db, 'w, 'r) trace_cache"
    and sched :: "('s, 'db, 'd, 'c, 't) scheduler" and allowed :: "('d, 'c, 't) cache_call \<Rightarrow> bool" +
  fixes fate :: "'s \<Rightarrow> join_error option \<times> 's" and A :: "'s archive_server"
    and archived :: "'s \<Rightarrow> (str \<times> str) set"
  assumes rows_are_lines: "json_lines (json_lib_of (lib_row L))"
    and only_saves: "allowed c \<Longrightarrow> saves_only c"
    and fate_archived: "fate s = (j, s') \<Longrightarrow> archived s \<subseteq> archived s'"
    and send_archived: "as_send A i b s = (r1, s') \<Longrightarrow> archived s \<subseteq> archived s'"
    and end_archived: "as_end A i s = (r2, s') \<Longrightarrow> archived s \<subseteq> archived s'"
    and send_sent: "as_send A i b s = (Inr i', s') \<Longrightarrow> ins_query i' = ins_query i \<and> ins_sent i' = ins_sent i @ b"
    and end_sent: "as_end A i s = (Inr u, s') \<Longrightarrow> (ins_query i, ins_sent i) \<in> archived s'"

sublocale scheduled_drain \<subseteq> drain: drain_world R view wview wbase rview
  "scheduled_runtime L C sched fate" "scheduled_clickhouse L C sched A" "archived \<circ> surroundings" UNIV
proof (intro drain_world.intro drain_world_axioms.intro redb_store_axioms)
  have no: "\<forall>keys. \<not> allowed (RemoveEntries q keys)" for q
    using only_saves by (auto simp: saves_only_def)
  note oth = interleaved_others[OF _ rows_are_lines no]
  show "others q (view (store w)) (view (store w'))"
    if "until_run (scheduled_runtime L C sched fate) w = (j, w')" for w j w' q
    using that by (simp add: oth)
  show "others q (view (store w)) (view (store w'))"
    if "ch_send (scheduled_clickhouse L C sched A) i b w = (r1, w')" for i b w r1 w' q
    using that by (simp add: oth)
  show "others q (view (store w)) (view (store w'))"
    if "ch_end (scheduled_clickhouse L C sched A) i w = (r2, w')" for i w r2 w' q
    using that by (simp add: oth)
qed (auto dest!: interleaved_surroundings dest: fate_archived send_archived end_archived send_sent end_sent)

section \<open>A schedule in memory\<close>

text \<open>
  The surroundings are the nodes of the server of \<open>ex_session\<close> and the archive; at each wait the
  other tasks make the given calls, when there are numbers left for them.
\<close>

type_synonym ex_plant = "ex_server \<times> (str \<times> str) list"

definition ex_sched :: "(civil, unit, unit) cache_call list \<Rightarrow> ('s, mem_db, civil, unit, unit) scheduler" where
  "ex_sched calls w = (if paced ex_libs ex_cache (mem_view \<circ> db_tables) calls (store w) then calls else [])"

definition ex_fate :: "'s \<Rightarrow> join_error option \<times> 's" where
  "ex_fate s = (None, s)"

definition ex_plant_session :: "ex_plant session" where
  "ex_plant_session = \<lparr>
     ua_read = (\<lambda>ns s. (Inr (map (\<lambda>n. \<lparr>dv_value = map_of (fst s) n, dv_status = 0\<rparr>) ns), s)),
     ua_write = (\<lambda>vs s. (Inr (map (\<lambda>_. 0) vs), (map (\<lambda>v. (wv_node v, wv_value v)) vs @ fst s, snd s))),
     ua_namespace_index = (\<lambda>_ s. (Inr 2, s)),
     ua_browse = (\<lambda>_ _ s. ([], s))\<rparr>"

definition ex_archive :: "ex_plant archive_server" where
  "ex_archive = \<lparr>as_client = ex_client,
     as_send = (\<lambda>i b s. (Inr (i\<lparr>ins_sent := ins_sent i @ b\<rparr>), s)),
     as_end = (\<lambda>i s. (Inr (), (fst s, (ins_query i, ins_sent i) # snd s)))\<rparr>"

lemma ex_schedule:
  assumes "list_all allowed calls"
  shows "schedule mem_redb (mem_view \<circ> db_tables) (mem_view \<circ> mw_now) (mem_view \<circ> mw_base) (mem_view \<circ> mr_tables)
    ex_libs ex_cache (ex_sched calls) allowed"
  by (intro schedule.intro schedule_axioms.intro memdb.redb_store_axioms)
    (simp_all add: assms ex_sched_def)

abbreviation ex_calls :: "(civil, unit, unit) cache_call list" where
  "ex_calls \<equiv> [NextSerial example_day, CheckEnqueuing, SaveSheets () [] ex_pid [] [] ()]"

definition ex_allowed :: "(civil, unit, unit) cache_call \<Rightarrow> bool" where
  "ex_allowed c \<longleftrightarrow> saves_only c \<and> \<not> saves_part (as_str ex_id) c"

lemma ex_ids_differ: "as_str ex_pid \<noteq> as_str ex_id"
  using ex_id_parse(2) by (simp add: ex_pid_def as_str_def)

lemma ex_calls_allowed: "list_all ex_allowed ex_calls"
  using ex_ids_differ by (simp add: ex_allowed_def saves_only_def saves_part_def)

interpretation exsched: schedule mem_redb "mem_view \<circ> db_tables" "mem_view \<circ> mw_now" "mem_view \<circ> mw_base"
  "mem_view \<circ> mr_tables" ex_libs ex_cache "ex_sched ex_calls" ex_allowed
  by (rule ex_schedule[OF ex_calls_allowed])

interpretation exmachine: scheduled_machine mem_redb "mem_view \<circ> db_tables" "mem_view \<circ> mw_now" "mem_view \<circ> mw_base"
  "mem_view \<circ> mr_tables" ex_libs ex_cache "ex_sched ex_calls" ex_allowed ex_fate ex_plant_session
  by unfold_locales

interpretation expart: scheduled_part mem_redb "mem_view \<circ> db_tables" "mem_view \<circ> mw_now" "mem_view \<circ> mw_base"
  "mem_view \<circ> mr_tables" ex_libs ex_cache "ex_sched ex_calls" ex_allowed ex_fate ex_plant_session "as_str ex_id"
  by unfold_locales (simp add: ex_allowed_def)

interpretation exarchive: scheduled_drain mem_redb "mem_view \<circ> db_tables" "mem_view \<circ> mw_now" "mem_view \<circ> mw_base"
  "mem_view \<circ> mr_tables" ex_libs ex_cache "ex_sched ex_calls" ex_allowed ex_fate ex_archive "set \<circ> snd"
  by unfold_locales (auto simp: ex_allowed_def ex_fate_def ex_archive_def cjson.one_line)

section \<open>Running it\<close>

text \<open>The store after one more serial number of the example day, and the waits that take one each.\<close>

abbreviation ex_key :: str where
  "ex_key \<equiv> strftime_ymd gregorian example_day"

definition ex_next :: "mem \<Rightarrow> mem" where
  "ex_next m = m\<lparr>m_serials := Some (RBT.insert ex_key (spec_serial ex_key (mem_view m)) (table_or_empty (m_serials m)))\<rparr>"

abbreviation ex_takes :: "('s, mem_db, civil, unit, unit) scheduler" where
  "ex_takes \<equiv> ex_sched [NextSerial example_day]"

lemma ex_next_serial:
  "next_serial gregorian ex_cache example_day (MemDb m []) = (Inr (spec_serial ex_key (mem_view m)), MemDb (ex_next m) [])"
  by (cases "m_serials m")
    (auto simp: next_serial_def mem_run ex_next_def spec_serial_def serial_after_def mem_view_def split: option.splits)

lemma ex_next_last: "last_serial ex_key (mem_view m) + 1 < 2 ^ 32 \<Longrightarrow>
    last_serial ex_key (mem_view (ex_next m)) = last_serial ex_key (mem_view m) + 1"
  using last_serial_spec(1)[of ex_key "mem_view m"]
  by (simp add: ex_next_def last_serial_def mem_view_def lookup_insert)

lemma ex_next_other: "k \<noteq> ex_key \<Longrightarrow> last_serial k (mem_view (ex_next m)) = last_serial k (mem_view m)"
  by (cases "m_serials m") (simp_all add: ex_next_def last_serial_def mem_view_def lookup_insert table_or_empty_def)

lemma ex_next_fields [simp]:
  "m_sheets (ex_next m) = m_sheets m" "m_seqs (ex_next m) = m_seqs m"
  "m_general (ex_next m) = m_general m" "m_operation (ex_next m) = m_operation m"
  by (simp_all add: ex_next_def)

lemma ex_wait:
  assumes "last_serial ex_key (mem_view m) + 2 < 2 ^ 32" and "f s = (r, s')"
  shows "interleaved ex_libs ex_cache ex_takes f (World s (MemDb m [])) = (r, World s' (MemDb (ex_next m) []))"
  using assms by (simp add: interleaved_def ex_sched_def ex_next_serial)

definition ex_plant_env :: "(ex_plant, mem_db, unit, civil, unit, civil) handler_env" where
  "ex_plant_env = \<lparr>env_nd = unicode_nd, env_dates = gregorian, env_codec = le_codec, env_ua = ex_ua,
     env_row = ex_row, env_rt = scheduled_runtime ex_libs ex_cache ex_takes ex_fate, zoned_date = (\<lambda>z. z),
     ua_context = (\<lambda>_. ()), timestamp_now = (\<lambda>_. ())\<rparr>"

definition ex_plant_handler :: "(ex_plant, mem_db, mem_write, mem_read, unit, civil) ready_handler" where
  "ex_plant_handler = \<lparr>server_id = lit ''M1'', common_opcua = ex_common, machine_conf = ex_machine,
     ua_session = scheduled_session ex_libs ex_cache ex_takes ex_plant_session, cache = ex_cache,
     time_of = \<lparr>clock = (\<lambda>_. ()), tz = (\<lambda>_. example_day)\<rparr>, state = ex_context\<rparr>"

lemma ex_plant_simps [simp]:
  "cache ex_plant_handler = ex_cache" "common_opcua ex_plant_handler = ex_common"
  "ua_session ex_plant_handler = scheduled_session ex_libs ex_cache ex_takes ex_plant_session"
  "machine_conf ex_plant_handler = ex_machine" "state ex_plant_handler = ex_context" "server_id ex_plant_handler = lit ''M1''"
  "env_nd ex_plant_env = unicode_nd" "env_dates ex_plant_env = gregorian" "env_codec ex_plant_env = le_codec"
  "env_ua ex_plant_env = ex_ua" "env_row ex_plant_env = ex_row"
  "env_rt ex_plant_env = scheduled_runtime ex_libs ex_cache ex_takes ex_fate"
  "zoned_date ex_plant_env (now_zoned (time_of ex_plant_handler) w) = example_day"
  by (simp_all add: ex_plant_handler_def ex_plant_env_def now_zoned_def now_def)

lemma ex_plant_read:
  assumes "last_serial ex_key (mem_view m) + 2 < 2 ^ 32"
  shows "interleaved ex_libs ex_cache ex_takes (ua_read ex_plant_session ns) (World (nodes, a) (MemDb m []))
    = (Inr (map (\<lambda>n. \<lparr>dv_value = map_of nodes n, dv_status = 0\<rparr>) ns), World (nodes, a) (MemDb (ex_next m) []))"
  by (rule ex_wait[OF assms]) (simp add: ex_plant_session_def)

lemma ex_plant_blocking:
  assumes "last_serial ex_key (mem_view m) + 2 < 2 ^ 32"
    and "\<And>w. f w (MemDb (ex_next m) []) = (Inr x, d)"
  shows "blocking (scheduled_runtime ex_libs ex_cache ex_takes ex_fate) j e f (World s (MemDb m [])) = (Inr x, World s d)"
  using ex_wait[OF assms(1), of ex_fate s None s] assms(2) by (simp add: blocking_def ex_fate_def)

lemma ex_plant_new_part_id:
  assumes "last_serial ex_key (mem_view m) = n" and "n < 100"
    and "create_part_identifier unicode_nd gregorian (lit ''1-498GR13'')
     (AsciiDigitsOrUpper [65, 65]) (AsciiDigitsOrUpper [65, 66]) example_day (of_nat (n + 3)) = Inr s"
  shows "new_part_id ex_plant_env ex_plant_handler (World (ex_nodes, a) (MemDb m []))
    = (Inr s, World (ex_nodes, a) (MemDb (ex_next (ex_next (ex_next m))) []))"
proof -
  have l1: "last_serial ex_key (mem_view (ex_next m)) = n + 1" using assms(1,2) by (simp add: ex_next_last)
  have l2: "last_serial ex_key (mem_view (ex_next (ex_next m))) = n + 2" using l1 assms(2) by (simp add: ex_next_last)
  have "unat (spec_serial ex_key (mem_view (ex_next (ex_next m)))) = n + 3"
    using last_serial_spec(1)[of ex_key "mem_view (ex_next (ex_next m))"] l2 assms(2) by simp
  then have serial: "spec_serial ex_key (mem_view (ex_next (ex_next m))) = of_nat (n + 3)"
    using assms(2) by (simp add: word_unat_eq_iff unat_of_nat take_bit_nat_eq_self del: of_nat_add)
  have nodes: "general_node ex_plant_handler (raw_part_ref_nid ex_common) = NodeId 2 (Numeric 8)"
    "general_node ex_plant_handler (raw_batch_nid ex_common) = NodeId 2 (Numeric 9)"
    by (simp_all add: general_node_def ex_context_def make_context_def ex_common_def)
  have v: "map_of ex_nodes (NodeId 2 (Numeric 8)) = Some (VString (Some (lit ''1-498GR13'')))"
    "map_of ex_nodes (NodeId 2 (Numeric 9)) = Some (VString (Some (lit ''AA'')))"
    by (simp_all add: ex_nodes_def)
  have a: "ascii_from_variant ex_ua 2 (VString (Some (lit ''AA''))) = Inr (AsciiDigitsOrUpper [65, 65])"
    by (simp add: ascii_from_variant_eq_Inr from_str_def try_from_bytes_def utf8_char_def
        is_ascii_digit_def is_ascii_uppercase_def ascii_digit_def ascii_upper_def)
  have st: "string_from_variant ex_ua (VString (Some x)) = Inr x" for x
    by (simp add: string_from_variant_eq_Inr)
  have l: "line_id_of ex_machine = Some (AsciiDigitsOrUpper [65, 66])" by (simp add: ex_machine_def)
  have b: "blocking (scheduled_runtime ex_libs ex_cache ex_takes ex_fate) NextSerialTask NextSerialFailed
      (\<lambda>_. next_serial gregorian ex_cache example_day) (World (ex_nodes, a) (MemDb (ex_next m) []))
    = (Inr (of_nat (n + 3)), World (ex_nodes, a) (MemDb (ex_next (ex_next (ex_next m))) []))"
    by (rule ex_plant_blocking) (use l1 assms(2) in \<open>simp_all add: ex_next_serial serial\<close>)
  show ?thesis
    unfolding new_part_id_def Let_def ex_plant_simps nodes l scheduled_simps
    using assms by (simp add: act_bind_def act_call_def ex_plant_read v exactly_two_def a st b try_ua_value_as_def
        try_into_variant_def del: lit_Cons of_nat_Suc of_nat_add)
qed

end
