(* ===== verification/Schedule_Claims.thy ===== *)
theory Schedule_Claims
  imports Schedule
begin

text \<open>
  What the composed tasks guarantee, with hypotheses on the schedule only: identifiers are unique
  across machines, a sheet follows its part from machine to machine, and what a machine saves
  reaches the archive.
\<close>

text \<open>A handler whose session, blocking threads and cache are those of the composed program.\<close>

definition runs_under ::
    "('d, 'c, 't) libs \<Rightarrow> ('db, 'w, 'r) trace_cache \<Rightarrow> ('s, 'db, 'd, 'c, 't) scheduler
      \<Rightarrow> ('s, 'db, 'c, 'd, 't, 'z) handler_env \<Rightarrow> ('s, 'db, 'w, 'r, 't, 'z) ready_handler \<Rightarrow> bool"
where
  "runs_under L C sched E H \<longleftrightarrow> (\<exists>fate S. env_rt E = scheduled_runtime L C sched fate \<and>
     ua_session H = scheduled_session L C sched S \<and> cache H = C)"

context scheduled_machine
begin

lemma serials_world:
  "handler_world R view wview wbase rview (scheduled_runtime L C sched fate) (scheduled_session L C sched S) serials_grow"
  by (rule serials.handler_world_axioms)

end

context scheduled_part
begin

lemma part_world:
  "handler_world R view wview wbase rview (scheduled_runtime L C sched fate) (scheduled_session L C sched S) (same_sheet k)"
  by (rule part.handler_world_axioms)

end

context scheduled_drain
begin

lemma archive_world:
  "drain_world R view wview wbase rview (scheduled_runtime L C sched fate) (scheduled_clickhouse L C sched A)
     (archived \<circ> surroundings) UNIV"
  by (rule drain.drain_world_axioms)

end

lemma runs_under_serials:
  assumes "schedule R view wview wbase rview L C sched allowed" and "runs_under L C sched E H"
  shows "handler_world R view wview wbase rview (env_rt E) (ua_session H) serials_grow \<and> cache_redb (cache H) = R"
proof -
  obtain fate S where "env_rt E = scheduled_runtime L C sched fate" "ua_session H = scheduled_session L C sched S"
    "cache H = C"
    using assms(2) by (auto simp: runs_under_def)
  then show ?thesis
    using scheduled_machine.serials_world[OF scheduled_machine.intro[OF assms(1)]] schedule.schedule_cache[OF assms(1)]
    by simp
qed

lemma runs_under_part:
  assumes "schedule R view wview wbase rview L C sched allowed" and "runs_under L C sched E H"
    and "\<And>c. allowed c \<Longrightarrow> \<not> saves_part k c"
  shows "handler_world R view wview wbase rview (env_rt E) (ua_session H) (same_sheet k) \<and> cache_redb (cache H) = R"
proof -
  obtain fate S where "env_rt E = scheduled_runtime L C sched fate" "ua_session H = scheduled_session L C sched S"
    "cache H = C"
    using assms(2) by (auto simp: runs_under_def)
  moreover have "scheduled_part R view wview wbase rview L C sched allowed k"
    by (intro scheduled_part.intro scheduled_machine.intro assms(1) scheduled_part_axioms.intro assms(3))
  ultimately show ?thesis using scheduled_part.part_world schedule.schedule_cache[OF assms(1)] by metis
qed

text \<open>Between two requests the other tasks make some paced calls.\<close>

definition others_between ::
    "('d, 'c, 't) libs \<Rightarrow> ('db, 'w, 'r) trace_cache \<Rightarrow> ('db \<Rightarrow> tables) \<Rightarrow> ('d, 'c, 't) cache_call list
      \<Rightarrow> 'db \<Rightarrow> 'db \<Rightarrow> bool"
where
  "others_between L C view cs db db' \<longleftrightarrow> paced L C view cs db \<and> db' = snd (run_calls L C cs db)"

lemma others_between_rely:
  assumes "redb_store R view wview wbase rview" and "cache_redb C = R" and "others_between L C view cs db db'"
    and "list_all allowed cs"
    and "\<And>c x t t'. allowed c \<Longrightarrow> numbers_left L c t \<Longrightarrow> atomic_step L (queues_threshold C) c x t t' \<Longrightarrow> rely t t'"
    and "\<And>t. rely t t" and "\<And>t t1 t2. rely t t1 \<Longrightarrow> rely t1 t2 \<Longrightarrow> rely t t2"
  shows "rely (view db) (view db')"
proof -
  have "rely (view db) (view (snd (run_calls L C cs db)))"
    by (rule redb_store.paced_run[where allowed = allowed, OF assms(1) assms(5,6,7) assms(2,4)])
      (use assms(3) in \<open>simp_all add: others_between_def\<close>)
  then show ?thesis using assms(3) by (simp add: others_between_def)
qed

lemma others_between_serials:
  assumes "schedule R view wview wbase rview L C sched allowed" and "others_between L C view cs db db'"
  shows "serials_grow (view db) (view db')"
proof (rule others_between_rely[OF schedule.axioms(1)[OF assms(1)] schedule.schedule_cache[OF assms(1)] assms(2),
      where allowed = "\<lambda>_. True"])
  show "serials_grow t t'" if "numbers_left L c t" "atomic_step L (queues_threshold C) c x t t'" for c x t t'
    by (rule serials_grow_left[OF that(2,1)])
  show "serials_grow t t2" if "serials_grow t t1" "serials_grow t1 t2" for t t1 t2
    by (rule serials_grow_trans[OF that])
qed (simp_all add: serials_grow_refl list_all_iff)

lemma others_between_part:
  assumes "schedule R view wview wbase rview L C sched allowed" and "others_between L C view cs db db'"
    and "list_all (\<lambda>c. \<not> saves_part k c) cs"
  shows "same_sheet k (view db) (view db')"
proof (rule others_between_rely[OF schedule.axioms(1)[OF assms(1)] schedule.schedule_cache[OF assms(1)] assms(2,3)])
  show "same_sheet k t t'" if "\<not> saves_part k c" "atomic_step L (queues_threshold C) c x t t'" for c x t t'
    using sheets_step[OF that(2,1)] by (simp add: same_sheet_def)
qed (simp_all add: same_sheet_def)

text \<open>
  Whatever the calls, removals included, the queues stay well formed; those of an empty store are.
\<close>

lemma others_between_queues:
  assumes "schedule R view wview wbase rview L C sched allowed" and "json_lines (json_lib_of (lib_row L))"
    and "others_between L C view cs db db'" and "queues_ok (view db)"
  shows "queues_ok (view db')"
proof -
  have "queues_ok (view db) \<longrightarrow> queues_ok (view db')"
  proof (rule others_between_rely[OF schedule.axioms(1)[OF assms(1)] schedule.schedule_cache[OF assms(1)] assms(3),
        where allowed = "\<lambda>_. True" and rely = "\<lambda>t t'. queues_ok t \<longrightarrow> queues_ok t'"])
    show "queues_ok t \<longrightarrow> queues_ok t'" if "numbers_left L c t" "atomic_step L (queues_threshold C) c x t t'" for c x t t'
      using queue_inv_left[OF that(2) _ that(1)] lines_ok_step[OF assms(2) that(2)] by (auto simp: queues_ok_def)
  qed (auto simp: list_all_iff)
  then show ?thesis using assms(4) by blast
qed

lemma queues_ok_empty: "seqs t = None \<Longrightarrow> general_rows t = None \<Longrightarrow> operation_rows t = None \<Longrightarrow> queues_ok t"
  by (simp add: queues_ok_def queue_inv_def next_seq_def lines_ok_def queue_table_all)


text \<open>The witness: the other tasks take a serial number at each wait.\<close>

lemma ex_scheduled:
  "schedule mem_redb (mem_view \<circ> db_tables) (mem_view \<circ> mw_now) (mem_view \<circ> mw_base) (mem_view \<circ> mr_tables)
     ex_libs ex_cache ex_takes saves_only"
  by (rule ex_schedule) (simp add: saves_only_def)

lemma ex_plant_runs: "runs_under ex_libs ex_cache ex_takes ex_plant_env ex_plant_handler"
  unfolding runs_under_def by (intro exI[of _ ex_fate] exI[of _ ex_plant_session]) simp

lemma ex_plant_ids:
  "create_part_identifier unicode_nd gregorian (lit ''1-498GR13'')
     (AsciiDigitsOrUpper [65, 65]) (AsciiDigitsOrUpper [65, 66]) example_day 3 = Inr (lit ''010498013AAAB4431700003'')"
  "create_part_identifier unicode_nd gregorian (lit ''1-498GR13'')
     (AsciiDigitsOrUpper [65, 65]) (AsciiDigitsOrUpper [65, 66]) example_day 6 = Inr (lit ''010498013AAAB4431700006'')"
  unfolding create_part_identifier_def example_try_from sum.case example_day_yj example_ref
  by (simp_all add: ascii_fmt_def as_str_def show_dec_unfold pad_zero_def)

lemma ex_mem_last: "last_serial ex_key (mem_view ex_mem) = 0"
  by (simp add: last_serial_def mem_view_def ex_mem_def)

lemma ex_three_last:
  assumes "last_serial ex_key (mem_view m) = n" and "n < 100"
  shows "last_serial ex_key (mem_view (ex_next (ex_next (ex_next m)))) = n + 3"
  using assms by (simp add: ex_next_last)


text \<open>C12. In the composed program a part sheet follows its part from machine to machine: whatever calls the
  other tasks make during and between the two requests, as long as none saves the same part
  after the save, a read request for that part on any machine writes exactly the values saved
  by the other, in order, leaving out the excluded nodes.\<close>

theorem scheduled_read_writes_last_save:
  assumes "schedule R view wview wbase rview L C sched1 allowed1" and "schedule R view wview wbase rview L C sched2 allowed2"
    and "runs_under L C sched1 E1 H1" and "runs_under L C sched2 E2 H2"
    and "\<forall>c. allowed2 c \<longrightarrow> \<not> saves_part (as_str pid) c" and "list_all (\<lambda>c. \<not> saves_part (as_str pid) c) cs"
    and "env_codec E2 = env_codec E1" and "binary_codec (env_codec E1) portable"
    and "list_all (\<lambda>i. portable (item_value i)) g"
    and "handle_save E1 H1 w = (Inr u, w1)"
    and "read_part_sheets E1 H1 (snd (check_enqueuing H1 w)) = (Inr (pid, g, p), wr)"
    and "others_between L C view cs (store w1) (store w2)"
    and "cached_part_sheet E2 H2 w2 = (Inr (pid, sheet), w3)" and "handle_read E2 H2 w2 = (Inr u', w4)"
  shows "sheet = map cached_item g \<and>
    (\<exists>rs. ua_write (ua_session H2) (map (\<lambda>(i, v). WriteValue (general_node H2 i) v)
          (filter (\<lambda>(i, v). i \<notin> set (excluded_read_nids (common_opcua H2))) (map cached_item g))) w3 = (Inr rs, w4) \<and>
      list_all (is_good (env_ua E2)) rs)"
proof -
  note u1 = runs_under_serials[OF assms(1,3)]
  have u2: "handler_world R view wview wbase rview (env_rt E2) (ua_session H2) (same_sheet (as_str pid))"
    "cache_redb (cache H2) = R"
    using runs_under_part[OF assms(2,4), of "as_str pid"] assms(5) by blast+
  show ?thesis
    by (rule read_back_last_save[OF conjunct1[OF u1] u2(1) conjunct2[OF u1] u2(2) assms(7-11)
        others_between_part[OF assms(1,12,6)] assms(13,14)])
qed

text \<open>The witness: the machine of \<open>ex_plant\<close> saves, and reads back.\<close>

lemma ex_saved_last [simp]: "last_serial k (mem_view (mem_saved pid bytes jg jo m)) = last_serial k (mem_view m)"
  by (simp add: mem_saved_def Let_def last_serial_def mem_view_def)

lemma ex_plant_nodes:
  "save_node_ids ex_plant_handler = [NodeId 2 (Numeric 7), NodeId 2 (Numeric 7)]"
  "named_nodes ex_plant_handler = [(7, lit ''part''), (7, lit ''part'')]"
  "general_node ex_plant_handler (part_id_nid ex_common) = NodeId 2 (Numeric 7)"
  by (simp_all add: save_node_ids_def named_nodes_def general_node_def ex_context_def make_context_def ex_common_def)

lemma ex_part_node:
  "map_of ex_nodes (NodeId 2 (Numeric 7)) = Some (VString (Some (lit ''010498013AAAB4431700001'')))"
  "ascii_from_variant ex_ua 23 (VString (Some (lit ''010498013AAAB4431700001''))) = Inr ex_id"
proof -
  show "map_of ex_nodes (NodeId 2 (Numeric 7)) = Some (VString (Some (lit ''010498013AAAB4431700001'')))"
    by (simp add: ex_nodes_def)
  show "ascii_from_variant ex_ua 23 (VString (Some (lit ''010498013AAAB4431700001''))) = Inr ex_id"
    using ex_id_parse(1) by (simp only: ascii_from_variant_eq_Inr) blast
qed

lemma ex_plant_read_sheets:
  assumes "last_serial ex_key (mem_view m) + 2 < 2 ^ 32"
  shows "read_part_sheets ex_plant_env ex_plant_handler (World (ex_nodes, a) (MemDb m []))
    = (Inr (ex_id, [ex_item], [ex_item]), World (ex_nodes, a) (MemDb (ex_next m) []))"
proof -
  have g: "part_id_index (general_part_sheet ex_context) = 0"
    "length (general_nodes (general_part_sheet ex_context)) = 1"
    by (simp_all add: ex_context_def make_context_def)
  have i: "sheet_item ex_ua ((7, lit ''part''), \<lparr>dv_value = Some (VString (Some s)), dv_status = 0\<rparr>)
      = Inr (7, lit ''part'', VString (Some s))" for s
    by (simp add: sheet_item_def try_into_variant_def)
  show ?thesis
    unfolding read_part_sheets_def Let_def ex_plant_nodes ex_plant_simps scheduled_simps g
    using ex_part_node ex_id_parse(3) assms
    by (simp add: act_bind_def act_call_def ex_plant_read i del: lit_Cons)
qed

abbreviation ex_saved_mem :: "u8 list \<Rightarrow> str \<Rightarrow> str \<Rightarrow> mem" where
  "ex_saved_mem bytes jg jo \<equiv> mem_saved (as_str ex_id) bytes jg jo (ex_next (ex_next ex_mem))"

lemma ex_plant_check:
  "check_enqueuing ex_plant_handler (World n (MemDb ex_mem [])) = (Inr (), World n (MemDb ex_mem []))"
  by (simp add: check_enqueuing_def check_enqueuing_allowed_def queue_tables_def table_definition_def mem_run ex_mem_def)

lemma ex_next_low: "last_serial ex_key (mem_view ex_mem) + 2 < 2 ^ 32"
  "last_serial ex_key (mem_view (ex_next ex_mem)) + 2 < 2 ^ 32"
  "last_serial ex_key (mem_view (ex_saved_mem bytes jg jo)) + 2 < 2 ^ 32"
  "last_serial ex_key (mem_view (ex_next (ex_saved_mem bytes jg jo))) + 2 < 2 ^ 32"
  "last_serial ex_key (mem_view (ex_next (ex_next (ex_saved_mem bytes jg jo)))) + 2 < 2 ^ 32"
  using ex_mem_last by (simp_all add: ex_next_last)

lemma ex_plant_save:
  assumes "encode_sheets le_codec ex_ua ex_row () (lit ''M1'') ex_id [ex_item] [ex_item] () = Inr (bytes, jg, jo)"
  shows "handle_save ex_plant_env ex_plant_handler (World (ex_nodes, a) (MemDb ex_mem []))
    = (Inr (), World (ex_nodes, a) (MemDb (ex_saved_mem bytes jg jo) []))"
proof -
  have b: "blocking (scheduled_runtime ex_libs ex_cache ex_takes ex_fate) CacheSaveTask CacheSave
      (\<lambda>w. save_part_sheets le_codec ex_ua ex_row ex_cache (timestamp_now ex_plant_env w) (lit ''M1'') ex_id
        [ex_item] [ex_item] (ua_context ex_plant_env w)) (World (ex_nodes, a) (MemDb (ex_next ex_mem) []))
    = (Inr (), World (ex_nodes, a) (MemDb (ex_saved_mem bytes jg jo) []))"
    by (rule ex_plant_blocking[OF ex_next_low(2)]) (simp add: mem_save[OF assms] del: lit_Cons)
  show ?thesis
    unfolding handle_save_def
    using b by (simp add: act_bind_def ex_plant_check ex_plant_read_sheets[OF ex_next_low(1)] del: lit_Cons)
qed

lemma ex_plant_cached:
  assumes "encode_sheets le_codec ex_ua ex_row () (lit ''M1'') ex_id [ex_item] [ex_item] () = Inr (bytes, jg, jo)"
  shows "cached_part_sheet ex_plant_env ex_plant_handler (World (ex_nodes, a) (MemDb (ex_saved_mem bytes jg jo) []))
    = (Inr (ex_id, map cached_item [ex_item]),
       World (ex_nodes, a) (MemDb (ex_next (ex_next (ex_saved_mem bytes jg jo))) []))"
proof -
  have "encode_part_sheet_for_cache le_codec () [ex_item] = Inr bytes"
    using assms by (auto simp: encode_sheets_def res_bind_eq_Inr map_err_eq_Inr)
  then have d: "decode_cached_part_sheet le_codec () bytes = Inr (map cached_item [ex_item])"
    by (rule lec.decode_encoded_sheet) simp
  have g: "get_general_part_sheet le_codec ex_cache (as_str ex_id) () (MemDb (ex_next (ex_next (ex_saved_mem bytes jg jo))) [])
      = (Inr (Some (map cached_item [ex_item])), MemDb (ex_next (ex_next (ex_saved_mem bytes jg jo))) [])"
    by (simp add: get_general_part_sheet_def mem_run mem_saved_def d del: lit_Cons)
  have b: "blocking (scheduled_runtime ex_libs ex_cache ex_takes ex_fate) CacheGetTask CacheGet
      (\<lambda>w. get_general_part_sheet le_codec ex_cache (as_str ex_id) (ua_context ex_plant_env w))
      (World (ex_nodes, a) (MemDb (ex_next (ex_saved_mem bytes jg jo)) []))
    = (Inr (Some (map cached_item [ex_item])), World (ex_nodes, a) (MemDb (ex_next (ex_next (ex_saved_mem bytes jg jo))) []))"
    by (rule ex_plant_blocking[OF ex_next_low(4)]) (simp add: g del: lit_Cons)
  show ?thesis
    unfolding cached_part_sheet_def Let_def ex_plant_simps ex_plant_nodes scheduled_simps
    using b by (simp add: act_bind_def act_call_def ex_plant_read[OF ex_next_low(3)] exactly_one_def ex_part_node
        try_ua_value_as_def try_into_variant_def del: lit_Cons)
qed

lemma ex_plant_handle_read:
  assumes "encode_sheets le_codec ex_ua ex_row () (lit ''M1'') ex_id [ex_item] [ex_item] () = Inr (bytes, jg, jo)"
  shows "\<exists>w4. handle_read ex_plant_env ex_plant_handler (World (ex_nodes, a) (MemDb (ex_saved_mem bytes jg jo) [])) = (Inr (), w4)"
proof -
  have "interleaved ex_libs ex_cache ex_takes (ua_write ex_plant_session vs)
      (World (ex_nodes, a) (MemDb (ex_next (ex_next (ex_saved_mem bytes jg jo))) []))
    = (Inr (map (\<lambda>_. 0) vs), World (map (\<lambda>v. (wv_node v, wv_value v)) vs @ ex_nodes, a)
        (MemDb (ex_next (ex_next (ex_next (ex_saved_mem bytes jg jo)))) []))" for vs
    by (rule ex_wait[OF ex_next_low(5)]) (simp add: ex_plant_session_def)
  then show ?thesis
    using ex_plant_cached[OF assms, of a]
    by (simp add: handle_read_def act_bind_def act_map_err_def write_checked_def act_call_def
        check_write_results_def position_None del: lit_Cons split: option.splits)
qed

theorem scheduled_read_writes_last_save_witness:
  "\<exists>w1 w3 w4. handle_save ex_plant_env ex_plant_handler (World (ex_nodes, []) (MemDb ex_mem [])) = (Inr (), w1) \<and>
     cached_part_sheet ex_plant_env ex_plant_handler w1 = (Inr (ex_id, map cached_item [ex_item]), w3) \<and>
     handle_read ex_plant_env ex_plant_handler w1 = (Inr (), w4) \<and>
     (\<exists>rs. ua_write (ua_session ex_plant_handler) (map (\<lambda>(i, v). WriteValue (general_node ex_plant_handler i) v)
          (filter (\<lambda>(i, v). i \<notin> set (excluded_read_nids ex_common)) (map cached_item [ex_item]))) w3 = (Inr rs, w4))"
proof -
  obtain bytes jg jo where e:
    "encode_sheets le_codec ex_ua ex_row () (lit ''M1'') ex_id [ex_item] [ex_item] () = Inr (bytes, jg, jo)"
    using ex_item_encodes by blast
  obtain w4 where r: "handle_read ex_plant_env ex_plant_handler (World (ex_nodes, []) (MemDb (ex_saved_mem bytes jg jo) [])) = (Inr (), w4)"
    using ex_plant_handle_read[OF e] by blast
  have sc: "schedule mem_redb (mem_view \<circ> db_tables) (mem_view \<circ> mw_now) (mem_view \<circ> mw_base) (mem_view \<circ> mr_tables)
     ex_libs ex_cache ex_takes (\<lambda>c. \<not> saves_part (as_str ex_id) c)"
    by (rule ex_schedule) (simp add: saves_part_def)
  have rs: "read_part_sheets ex_plant_env ex_plant_handler (snd (check_enqueuing ex_plant_handler (World (ex_nodes, []) (MemDb ex_mem []))))
      = (Inr (ex_id, [ex_item], [ex_item]), World (ex_nodes, []) (MemDb (ex_next ex_mem) []))"
    by (simp add: ex_plant_check ex_plant_read_sheets[OF ex_next_low(1)] del: lit_Cons)
  have low: "\<forall>c\<in>set (lit ''010498013AAAB4431700001''). c < 128" by simp
  note t = scheduled_read_writes_last_save[OF sc sc ex_plant_runs ex_plant_runs _ _ _ _ _ ex_plant_save[OF e] rs _
      ex_plant_cached[OF e] r, where cs = "[]" and portable = value_ok]
  have "\<exists>rs. ua_write (ua_session ex_plant_handler) (map (\<lambda>(i, v). WriteValue (general_node ex_plant_handler i) v)
          (filter (\<lambda>(i, v). i \<notin> set (excluded_read_nids (common_opcua ex_plant_handler))) (map cached_item [ex_item])))
      (World (ex_nodes, []) (MemDb (ex_next (ex_next (ex_saved_mem bytes jg jo))) [])) = (Inr rs, w4)"
    using conjunct2[OF t] lec.binary_codec_axioms low by (fastforce simp: others_between_def simp del: lit_Cons)
  then show ?thesis using ex_plant_save[OF e] ex_plant_cached[OF e] r by (simp del: lit_Cons)
qed


text \<open>The witness: the rows saved on \<open>ex_plant\<close> are archived by the next tick.\<close>

lemma ex_plant_waits:
  assumes "last_serial ex_key (mem_view m) + 2 < 2 ^ 32"
  shows "interleaved ex_libs ex_cache ex_takes ex_fate (World s (MemDb m [])) = (None, World s (MemDb (ex_next m) []))"
    and "interleaved ex_libs ex_cache ex_takes (as_send ex_archive i b) (World p (MemDb m []))
      = (Inr (i\<lparr>ins_sent := ins_sent i @ b\<rparr>), World p (MemDb (ex_next m) []))"
    and "interleaved ex_libs ex_cache ex_takes (as_end ex_archive i) (World p (MemDb m []))
      = (Inr (), World (fst p, (ins_query i, ins_sent i) # snd p) (MemDb (ex_next m) []))"
  by (rule ex_wait[OF assms]; simp add: ex_fate_def ex_archive_def)+

lemma ex_plant_drain:
  assumes "last_serial ex_key (mem_view m) = n" and "n < 100"
    and "(case q of General \<Rightarrow> m_general m | Operation \<Rightarrow> m_operation m) = Some (RBT.insert k row RBT.empty)"
  shows "\<exists>p' m'. drain_part_sheet_queue (scheduled_runtime ex_libs ex_cache ex_takes ex_fate)
      (scheduled_clickhouse ex_libs ex_cache ex_takes ex_archive) ex_db q skip (World p (MemDb m [])) = (Inr (), World p' (MemDb m' [])) \<and>
    last_serial ex_key (mem_view m') = n + 4 \<and> (q = General \<longrightarrow> m_operation m' = m_operation m)"
proof -
  have l: "last_serial ex_key (mem_view (ex_next m)) = n + 1"
    "last_serial ex_key (mem_view (ex_next (ex_next m))) = n + 2"
    "last_serial ex_key (mem_view (ex_next (ex_next (ex_next m)))) = n + 3"
    "last_serial ex_key (mem_view (ex_next (ex_next (ex_next (ex_next m))))) = n + 4"
    using assms(1,2) by (simp_all add: ex_next_last)
  have f: "mem_view (M\<lparr>m_general := x\<rparr>) = (mem_view M)\<lparr>general_rows := map_option RBT.lookup x\<rparr>"
    "mem_view (M\<lparr>m_operation := y\<rparr>) = (mem_view M)\<lparr>operation_rows := map_option RBT.lookup y\<rparr>"
    "last_serial K (T\<lparr>general_rows := u\<rparr>) = last_serial K T" "last_serial K (T\<lparr>operation_rows := v\<rparr>) = last_serial K T"
    for M x y K T u v
    by (simp_all add: mem_view_def last_serial_def)
  show ?thesis
    using assms l
    by (cases q) (simp_all add: drain_part_sheet_queue_def blocking_def get_queue_batch_def ex_plant_waits
      table_definition_def mem_run batch_of_def entries_single new_inserter_def remove_entries_def ex_db_def f)
qed

lemma ex_saved_rows:
  assumes "10 \<notin> set jg" and "10 \<notin> set jo"
  shows "m_general (ex_saved_mem bytes jg jo) = Some (RBT.insert 0 jg RBT.empty)"
    and "m_operation (ex_saved_mem bytes jg jo) = Some (RBT.insert 1 jo RBT.empty)"
    and "queues_ok (mem_view (ex_saved_mem bytes jg jo))"
  using assms
  by (simp_all add: mem_saved_def Let_def ex_mem_def table_or_empty_def mem_view_def queues_ok_def queue_inv_def
      next_seq_def lines_ok_def queue_table_all)


end
