(* ===== verification/Ascii_Schema.thy ===== *)
theory Ascii_Schema
  imports Ascii_Text Pattern_Match Row_Json
begin

text \<open>
  How identifiers are written in configuration files: the serialization and the JSON schema of
  \<^verbatim>\<open>crates/config/src/ascii_text.rs\<close>, and the task of
  \<^verbatim>\<open>crates/xtask-generate-config-schema\<close> that prints the schema of the configuration.  The
  schema derived for the configuration type belongs to \<^verbatim>\<open>schemars\<close>: it is an argument.
\<close>

section \<open>Serialization and schema of an identifier\<close>

definition ascii_serialize :: "ascii_text \<Rightarrow> str" where
  "ascii_serialize a = as_str a"

text \<open>The pattern \<^verbatim>\<open>^[0-9A-Z]{LENGTH}$\<close>; the dollar is the end of the text.\<close>

definition schema_pattern :: "nat \<Rightarrow> rx list" where
  "schema_pattern LEN = [Rep False (\<lambda>c. ascii_digit c \<or> ascii_upper c) LEN LEN, Or_End (\<lambda>_. False)]"

record text_schema =
  inline_schema :: bool
  schema_name :: str
  schema_type :: str
  min_length :: nat
  max_length :: nat
  pattern :: "rx list"

definition ascii_json_schema :: "nat \<Rightarrow> text_schema" where
  "ascii_json_schema LEN = \<lparr>inline_schema = True, schema_name = lit ''AsciiDigitsOrUpper'',
     schema_type = lit ''string'', min_length = LEN, max_length = LEN, pattern = schema_pattern LEN\<rparr>"

text \<open>A string is valid when its number of characters is within the bounds and the pattern matches.\<close>

definition schema_accepts :: "text_schema \<Rightarrow> str \<Rightarrow> bool" where
  "schema_accepts sc s \<longleftrightarrow> schema_type sc = lit ''string'' \<and> min_length sc \<le> length s \<and> length s \<le> max_length sc \<and>
     rx_match (pattern sc) s \<noteq> None"

lemma rx_accepts_end: "rx_accepts [Or_End (\<lambda>_. False)] v cs \<longleftrightarrow> v = [] \<and> cs = []"
  by (cases v) auto

lemma schema_pattern_match: "rx_match (schema_pattern LEN) s \<noteq> None \<longleftrightarrow> length s = LEN \<and> ascii_chars s"
proof -
  have a: "rx_accepts (schema_pattern LEN) s [] \<longleftrightarrow> length s = LEN \<and> ascii_chars s"
    unfolding schema_pattern_def rx_accepts.simps(2) rx_accepts_end rx_capture_def ascii_chars_def if_False
    by (metis append_Nil2 order_antisym order_refl)
  have c: "cs = []" if "rx_accepts (schema_pattern LEN) s cs" for cs
    using that unfolding schema_pattern_def rx_accepts.simps(2) rx_accepts_end rx_capture_def if_False by blast
  show ?thesis using a c rx_match_sound[of "schema_pattern LEN" s] rx_match_complete[of "schema_pattern LEN" s "[]"]
    by (cases "rx_match (schema_pattern LEN) s") auto
qed

text \<open>What parsing accepts, on a text made of Unicode scalar values.\<close>

lemma from_str_Inr_chars:
  assumes "from_str LEN s = Inr a" and "\<forall>c\<in>set s. c < 0x110000"
  shows "length s = LEN \<and> ascii_chars s"
proof -
  have b: "list_all ascii_byte (utf8 s)" "length (utf8 s) = LEN"
    using assms(1) by (auto simp: from_str_def try_from_bytes_eq_Inr ascii_wf_def)
  have low: "c < 128" if "c \<in> set s" for c
  proof (rule ccontr)
    assume "\<not> c < 128"
    then obtain x xs where x: "utf8_char c = x # xs" "128 \<le> unat x" using utf8_char_lead[of c] assms(2) \<open>c \<in> set s\<close> by auto
    then have "x \<in> set (utf8 s)" using that by (auto simp: utf8_def intro!: bexI[of _ c])
    then show False using b(1) ascii_byte_less[of x] x(2) by (auto simp: list_all_iff)
  qed
  then have u: "utf8 s = map of_nat s" by (intro utf8_ascii) blast
  have "unat (of_nat c :: u8) = c" if "c \<in> set s" for c
    using low[OF that] by (simp add: unat_of_nat take_bit_nat_eq_self)
  then show ?thesis
    using b u by (auto simp: list_all_iff ascii_chars_def ascii_byte_def is_ascii_digit_def is_ascii_uppercase_def)
qed

section \<open>The schema task\<close>

text \<open>
  The root object of the schema is the map of its keywords; \<open>to_string_pretty\<close> prints it, and the
  task prints the result on a line of its own.
\<close>

datatype schema_json = SchemaText str | SchemaList "schema_json list" | SchemaObject "(str \<times> schema_json) list"

datatype schema_error = SerializeSchema json_error

definition config_schema_main ::
    "(str \<rightharpoonup> schema_json) \<Rightarrow> ((str \<rightharpoonup> schema_json) \<Rightarrow> json_error + str) \<Rightarrow> schema_error + str"
where
  "config_schema_main line_gateway_config to_string_pretty =
     (let schema = line_gateway_config(lit ''x-tombi-string-formats'' \<mapsto> SchemaList [SchemaText (lit ''uri'')]) in
      case to_string_pretty schema of
        Inl e \<Rightarrow> Inl (SerializeSchema e)
      | Inr json \<Rightarrow> Inr (json @ [10]))"

section \<open>Properties\<close>



end
