(* ===== verification/Value_Tests.thy ===== *)
theory Value_Tests
  imports Cache_Claims
begin

text \<open>
  The unit tests that the repository keeps beside the values and the encodings, replayed on the
  model: each definition is one test, on the inputs of its source, and the theorems say that the
  model passes them.  The libraries are the instances of the development, with the status codes and
  the type names of the \<^verbatim>\<open>opcua\<close> crate that the tests use.
\<close>

section \<open>Identifiers\<close>

text \<open>\<^verbatim>\<open>ascii_text.rs\<close>; the bytes of the third test are A, B, a tabulation and D.\<close>

definition test_too_short :: bool where
  "test_too_short \<longleftrightarrow> from_str 4 (lit ''ABC'') = Inl (BadLength 3 4)"

definition test_too_long :: bool where
  "test_too_long \<longleftrightarrow> from_str 4 (lit ''ABCDE'') = Inl (BadLength 5 4)"

definition test_non_printable :: bool where
  "test_non_printable \<longleftrightarrow> from_str 4 [65, 66, 9, 68] = Inl (InvalidChar 9 3)"

definition test_non_digit_or_uppercase :: bool where
  "test_non_digit_or_uppercase \<longleftrightarrow> from_str 4 (lit ''ABCd'') = Inl (InvalidChar 100 4)"

definition test_okay :: bool where
  "test_okay \<longleftrightarrow> (case from_str 4 (lit ''R2D2'') of Inl _ \<Rightarrow> False | Inr ascii_text \<Rightarrow> ascii_fmt ascii_text = lit ''R2D2'')"

lemmas ascii_eval =
  from_str_def try_from_bytes_def utf8_char_def is_ascii_digit_def is_ascii_uppercase_def ascii_digit_def
  ascii_upper_def ascii_lower_def ascii_fmt_def as_str_def

lemma ascii_tests:
  "test_too_short" "test_too_long" "test_non_printable" "test_non_digit_or_uppercase" "test_okay"
  by (simp_all add: test_too_short_def test_too_long_def test_non_printable_def test_non_digit_or_uppercase_def
      test_okay_def ascii_eval)

section \<open>Part references\<close>

definition success_test :: "string \<Rightarrow> string \<Rightarrow> bool" where
  "success_test i expected \<longleftrightarrow>
     (case part_reference_try_from unicode_nd (lit i) of
        Inl _ \<Rightarrow> False | Inr part_ref \<Rightarrow> part_reference_fmt part_ref = lit expected)"

definition failure_test :: "string \<Rightarrow> bool" where
  "failure_test i \<longleftrightarrow> (case part_reference_try_from unicode_nd (lit i) of Inl _ \<Rightarrow> True | Inr _ \<Rightarrow> False)"

definition part_reference_successes :: "(string \<times> string) list" where
  "part_reference_successes =
     [(''P89-4865ABCD513A-X846'', ''894865513''),
      (''89-4865ABCD513A-X846'', ''894865513''),
      (''P89-4865ABCD513'', ''894865513''),
      (''P8-4865ABCD513A-X846'', ''084865513''),
      (''P89-485ABCD513A-X846'', ''890485513''),
      (''P89-4865XY513A-X846'', ''894865513''),
      (''P89-4865ABCD42A-X846'', ''894865042''),
      (''1-498GR13'', ''010498013'')]"

definition part_reference_failures :: "string list" where
  "part_reference_failures =
     [''F89-4865ABCD513A-X846'', ''P-4865ABCD513A-X846'', ''P897-4865ABCD513A-X846'', ''P89/4865ABCD513A-X846'',
      ''P894865ABCD513A-X846'', ''P89-ABCD513A-X846'', ''P89-25ABCD513A-X846'', ''P89-48657ABCD513A-X846'',
      ''P89-4865513A-X846'', ''P89-4865B513A-X846'', ''P89-4865ABCDE513A-X846'', ''P89-4865ABCDA-X846'',
      ''P89-4865ABCD9A-X846'', ''P89-4865ABCD8513A-X846'', ''P89-4865ABCD8513'']"

lemma unicode_nd_low: "c < 128 \<Longrightarrow> unicode_nd c = ascii_digit c"
  by (rule uni.nd_ascii)

lemmas part_ref_eval =
  part_reference_try_from_def part_ref_pattern_def upt_rec ascii_letter_def ascii_digit_def ascii_upper_def
  ascii_lower_def rx_capture_def part_reference_fmt_def pad_zero_def unicode_nd_low

lemma part_reference_success_tests: "list_all (\<lambda>(i, expected). success_test i expected) part_reference_successes"
  by (simp add: part_reference_successes_def success_test_def part_ref_eval)

lemma part_reference_failure_tests: "list_all failure_test part_reference_failures"
  by (simp add: part_reference_failures_def failure_test_def part_ref_eval)

section \<open>Part identifiers\<close>

definition civil_constant :: "nat \<Rightarrow> nat \<Rightarrow> nat \<Rightarrow> civil" where
  "civil_constant y m d = \<lparr>cyear = y, cmonth = m, cday = d\<rparr>"

definition created_with :: "civil \<Rightarrow> u32 \<Rightarrow> part_id_error + str \<Rightarrow> bool" where
  "created_with today serial result \<longleftrightarrow>
     (case (from_str 2 (lit ''XX''), from_str 2 (lit ''42'')) of
        (Inr batch, Inr line_id) \<Rightarrow>
          create_part_identifier unicode_nd gregorian (lit ''12-3498GR713'') batch line_id today serial = result
      | _ \<Rightarrow> False)"

definition test_serial_too_long :: bool where
  "test_serial_too_long \<longleftrightarrow> created_with (civil_constant 2026 12 9) 100000 (Inl (SerialTooBig 100000))"

definition test_ok_with_padding :: bool where
  "test_ok_with_padding \<longleftrightarrow> created_with (civil_constant 2005 1 9) 3 (Inr (lit ''123498713XX420500900003''))"

definition test_ok_no_padding :: bool where
  "test_ok_no_padding \<longleftrightarrow> created_with (civil_constant 2026 12 9) 12345 (Inr (lit ''123498713XX422634312345''))"

definition validated :: "string \<Rightarrow> part_id_error + unit \<Rightarrow> bool" where
  "validated i result \<longleftrightarrow>
     (case from_str 23 (lit i) of Inl _ \<Rightarrow> False | Inr part_id \<Rightarrow> validate_part_identifier gregorian part_id = result)"

definition test_invalid_part_reference :: bool where
  "test_invalid_part_reference \<longleftrightarrow> validated ''1234A6789XX422634300001'' (Inl (PartReference (lit ''1234A6789'')))"

definition test_invalid_day :: bool where
  "test_invalid_day \<longleftrightarrow> validated ''123456789XX422650000001'' (Inl (InvalidYearAndDay (JiffError (lit ''range''))))"

definition test_invalid_serial :: bool where
  "test_invalid_serial \<longleftrightarrow> validated ''123456789XX422634300A01'' (Inl (InvalidSerial (lit ''00A01'')))"

definition test_valid :: bool where
  "test_valid \<longleftrightarrow> validated ''123456789XX422634300001'' (Inr ())"

lemma create_part_identifier_tests:
  "test_serial_too_long" "test_ok_with_padding" "test_ok_no_padding"
  by (simp_all add: test_serial_too_long_def test_ok_with_padding_def test_ok_no_padding_def created_with_def
      civil_constant_def create_part_identifier_def ascii_eval part_ref_eval gregorian_simps ordinal_def
      month_lengths_def leap_def show_dec_unfold)

lemma validate_part_identifier_tests:
  "test_invalid_part_reference" "test_invalid_day" "test_invalid_serial" "test_valid"
  by (simp_all add: test_invalid_part_reference_def test_invalid_day_def test_invalid_serial_def test_valid_def
      validated_def validate_part_identifier_def ascii_eval gregorian_def read_dec_def century_def leap_def)

section \<open>OPC-UA values\<close>

text \<open>Good status codes have their two high bits clear.\<close>

definition test_ua :: ua_types where
  "test_ua = \<lparr>is_good = (\<lambda>s. drop_bit 30 s = 0),
     type_id_debug = (\<lambda>v. case v of VUInt16 _ \<Rightarrow> lit ''Scalar(UInt16)'' | _ \<Rightarrow> lit ''Scalar'')\<rparr>"

definition bad_shutdown :: status_code where
  "bad_shutdown = 0x800C0000"

definition good_clamped :: status_code where
  "good_clamped = 0x00300000"

definition test_bad_value_type :: bool where
  "test_bad_value_type \<longleftrightarrow>
     u8_from_variant test_ua (VUInt16 42) = Inl (InvalidType (lit ''Byte'') (lit ''Scalar(UInt16)''))"

text \<open>The conversions that succeed; floating point numbers are given by their bits.\<close>

definition test_conversions_ok :: bool where
  "test_conversions_ok \<longleftrightarrow>
     bool_from_variant test_ua (VBoolean True) = Inr True \<and>
     i8_from_variant test_ua (VSByte (-42)) = Inr (-42) \<and>
     u8_from_variant test_ua (VByte 42) = Inr 42 \<and>
     i16_from_variant test_ua (VInt16 (-546)) = Inr (-546) \<and>
     u16_from_variant test_ua (VUInt16 561) = Inr 561 \<and>
     i32_from_variant test_ua (VInt32 (-71234)) = Inr (-71234) \<and>
     u32_from_variant test_ua (VUInt32 812345) = Inr 812345 \<and>
     i64_from_variant test_ua (VInt64 (-9812345678)) = Inr (-9812345678) \<and>
     u64_from_variant test_ua (VUInt64 9812345678) = Inr 9812345678 \<and>
     f32_from_variant test_ua (VFloat 0xC1460000) = Inr 0xC1460000 \<and>
     f64_from_variant test_ua (VDouble 0x400921FB54442D18) = Inr 0x400921FB54442D18 \<and>
     string_from_variant test_ua (VString (Some (lit ''hello gateway''))) = Inr (lit ''hello gateway'')"

definition test_bad_status :: bool where
  "test_bad_status \<longleftrightarrow>
     try_ua_value_as test_ua (u8_from_variant test_ua) \<lparr>dv_value = Some (VByte 42), dv_status = bad_shutdown\<rparr>
       = Inl (BadStatus bad_shutdown)"

definition test_missing_value :: bool where
  "test_missing_value \<longleftrightarrow>
     try_ua_value_as test_ua (u8_from_variant test_ua) \<lparr>dv_value = None, dv_status = good_clamped\<rparr> = Inl MissingValue"

text \<open>A data value without a status has the status zero.\<close>

definition test_bool_ok_no_status :: bool where
  "test_bool_ok_no_status \<longleftrightarrow>
     try_ua_value_as test_ua (bool_from_variant test_ua) \<lparr>dv_value = Some (VBoolean True), dv_status = 0\<rparr> = Inr True"

lemma data_value_tests:
  "test_bad_value_type" "test_conversions_ok" "test_bad_status" "test_missing_value" "test_bool_ok_no_status"
  by (simp_all add: test_bad_value_type_def test_conversions_ok_def test_bad_status_def test_missing_value_def
      test_bool_ok_no_status_def bool_from_variant_def i8_from_variant_def u8_from_variant_def i16_from_variant_def
      u16_from_variant_def i32_from_variant_def u32_from_variant_def i64_from_variant_def u64_from_variant_def
      f32_from_variant_def f64_from_variant_def string_from_variant_def ua_string_from_variant_def invalid_type_def
      test_ua_def try_ua_value_as_def try_into_variant_def bad_shutdown_def good_clamped_def)

definition test_serialize_supported :: bool where
  "test_serialize_supported \<longleftrightarrow>
     serialize_elements test_ua
       [VEmpty, VBoolean True, VSByte (-126), VByte 42, VInt16 (-32321), VUInt16 4521, VInt32 (-123456789),
        VUInt32 123456789, VInt64 (-9876543210), VUInt64 9876543210, VFloat 0x4049999A, VDouble 0x400358A4249E2B35,
        VString None, VString (Some (lit ''hello opcua'')), VArray [VBoolean True, VBoolean False] None]
     = Inr [SUnit, SBool True, SI8 (-126), SU8 42, SI16 (-32321), SU16 4521, SI32 (-123456789),
        SU32 123456789, SI64 (-9876543210), SU64 9876543210, SF32 0x4049999A, SF64 0x400358A4249E2B35,
        SNone, SSome (SStr (lit ''hello opcua'')), SSeq [SBool True, SBool False]]"

lemma variant_tests: "test_serialize_supported"
  by (simp add: test_serialize_supported_def serialize_ua_string_def)

section \<open>Part sheets\<close>

definition test_cache_encoding_roundtrip :: bool where
  "test_cache_encoding_roundtrip \<longleftrightarrow>
     (case encode_part_sheet_for_cache le_codec ()
         [(561, [], VBoolean True), (5646, [], VUInt16 42), (43, [], VString (Some (lit ''blabla'')))] of
        Inl _ \<Rightarrow> False
      | Inr encoded \<Rightarrow> decode_cached_part_sheet le_codec () encoded
          = Inr [(561, VBoolean True), (5646, VUInt16 42), (43, VString (Some (lit ''blabla'')))])"

text \<open>The timestamp is given by its formatting.\<close>

definition test_part_sheet_row_serialization :: bool where
  "test_part_sheet_row_serialization \<longleftrightarrow>
     (case from_str 23 (lit ''123456789XX422611100001'') of
        Inl _ \<Rightarrow> False
      | Inr part_id \<Rightarrow>
          serialize_row test_ua \<lparr>strftime_ms = (\<lambda>saved_at. saved_at), json_lib_of = compact_json\<rparr>
            \<lparr>row_saved_at = lit ''1984-12-09 04:30:54.123'', row_machine_id = lit ''MAC1'', row_part_id = part_id,
             row_data = [(0, lit ''first'', VBoolean True), (0, lit ''second'', VUInt16 42),
               (0, lit ''third'', VString (Some (lit ''blabla'')))]\<rparr>
          = Inr (SStruct (lit ''PartSheetRow'')
              [(lit ''saved_at'', SStr (lit ''1984-12-09 04:30:54.123'')),
               (lit ''machine_id'', SStr (lit ''MAC1'')),
               (lit ''part_id'', SStr (lit ''123456789XX422611100001'')),
               (lit ''data'', SMap [(lit ''first'', SBool True), (lit ''second'', SU16 42),
                 (lit ''third'', SSome (SStr (lit ''blabla'')))])]))"

lemma part_sheet_tests: "test_cache_encoding_roundtrip" "test_part_sheet_row_serialization"
proof -
  let ?items = "[(561, [], VBoolean True), (5646, [], VUInt16 42), (43, [], VString (Some (lit ''blabla'')))] :: saved_item list"
  obtain encoded where e: "encode_part_sheet_for_cache le_codec () ?items = Inr encoded"
    by (simp add: encode_part_sheet_for_cache_def count_u16_def written_def encode_item_def le_codec_def of_enc_def)
  have "decode_cached_part_sheet le_codec () encoded = Inr (map cached_item ?items)"
    by (rule lec.decode_encoded_sheet[OF e]) simp
  then show "test_cache_encoding_roundtrip"
    using e by (simp add: test_cache_encoding_roundtrip_def cached_item_def del: lit_Cons)
  show "test_part_sheet_row_serialization"
    by (simp add: test_part_sheet_row_serialization_def ascii_eval serialize_row_def serialize_part_sheet_def
        serialize_timestamp_def serialize_ua_string_def)
qed

text \<open>All the tests of the values and of the encodings.\<close>

lemmas value_tests =
  ascii_tests part_reference_success_tests part_reference_failure_tests create_part_identifier_tests
  validate_part_identifier_tests data_value_tests variant_tests part_sheet_tests

end
