(* ===== verification/Cache_Tests.thy ===== *)
theory Cache_Tests
  imports Value_Tests
begin

text \<open>
  The unit tests of \<^verbatim>\<open>cache.rs\<close>, replayed on the model: each runs calls on an empty cache in memory,
  as its source does, and compares what they return.
\<close>

section \<open>Running a test\<close>

definition in_memory_cache :: "u64 \<Rightarrow> (mem_db, mem_write, mem_read) trace_cache" where
  "in_memory_cache threshold = \<lparr>cache_redb = mem_redb, queues_threshold = threshold\<rparr>"

definition test_run :: "u64 \<Rightarrow> (civil, unit, unit) cache_call list \<Rightarrow> outcome list \<times> mem_db" where
  "test_run threshold calls = run_calls ex_libs (in_memory_cache threshold) calls (MemDb ex_mem [])"

definition test_go_on :: "u64 \<Rightarrow> (civil, unit, unit) cache_call list \<Rightarrow> mem_db \<Rightarrow> outcome list \<times> mem_db" where
  "test_go_on threshold calls db = run_calls ex_libs (in_memory_cache threshold) calls db"

text \<open>The calls that save part sheets parse the part identifier first.\<close>

definition with_part_id :: "string \<Rightarrow> (ascii_text \<Rightarrow> bool) \<Rightarrow> bool" where
  "with_part_id i test \<longleftrightarrow> (case from_str 23 (lit i) of Inl _ \<Rightarrow> False | Inr part_id \<Rightarrow> test part_id)"

definition test_save :: "ascii_text \<Rightarrow> saved_item list \<Rightarrow> saved_item list \<Rightarrow> (civil, unit, unit) cache_call" where
  "test_save part_id general operation = SaveSheets () (lit ''MAC1'') part_id general operation ()"

definition test_items :: "saved_item list" where
  "test_items = [(42, lit ''SomeNode'', VString (Some (lit ''somevalue'')))]"

abbreviation zeros_id :: string where
  "zeros_id \<equiv> ''00000000000000000000000''"

abbreviation ones_id :: string where
  "ones_id \<equiv> ''11111111111111111111111''"

section \<open>The tests\<close>

definition test_next_serial :: bool where
  "test_next_serial \<longleftrightarrow>
     (let day_one = civil_constant 1984 12 9; day_two = civil_constant 1985 4 23 in
      fst (test_run 0 [NextSerial day_one, NextSerial day_one, NextSerial day_two])
        = [Serial (Inr 1), Serial (Inr 2), Serial (Inr 1)])"

definition test_check_enqueuing_allowed :: bool where
  "test_check_enqueuing_allowed \<longleftrightarrow> with_part_id zeros_id (\<lambda>id.
     let save = SaveSheets () (lit ''ID'') id test_items test_items () in
     case fst (test_run 3 [save, CheckEnqueuing, save, CheckEnqueuing]) of
       [Saved (Inr _), Checked (Inr _), Saved (Inr _), Checked (Inl _)] \<Rightarrow> True
     | _ \<Rightarrow> False)"

definition test_allowed_without_queue_tables :: bool where
  "test_allowed_without_queue_tables \<longleftrightarrow> fst (test_run 1 [CheckEnqueuing]) = [Checked (Inr ())]"

definition test_allowed_zero_threshold :: bool where
  "test_allowed_zero_threshold \<longleftrightarrow> fst (test_run 0 [CheckEnqueuing]) = [Checked (Inl (Err (TooMuchEnqueued 0 0)))]"

definition test_allowed_after_draining :: bool where
  "test_allowed_after_draining \<longleftrightarrow> with_part_id zeros_id (\<lambda>id.
     case test_run 2 [test_save id test_items test_items, CheckEnqueuing, GetBatch General] of
       ([Saved (Inr _), Checked (Inl (Err (TooMuchEnqueued n m))), Batch (Inr (keys, _))], db) \<Rightarrow>
         n = 2 \<and> m = 2 \<and>
         fst (test_go_on 2 [RemoveEntries General keys, CheckEnqueuing] db) = [Removed (Inr ()), Checked (Inr ())]
     | _ \<Rightarrow> False)"

definition test_get_missing :: bool where
  "test_get_missing \<longleftrightarrow> with_part_id zeros_id (\<lambda>id.
     case fst (test_run 0 [GetSheet (lit zeros_id) (), test_save id [(1, lit ''first'', VUInt32 1)] [],
         GetSheet (lit ones_id) ()]) of
       [Sheet (Inl (Err (Get_Table (TableDoesNotExist _)))), Saved (Inr _), Sheet (Inr None)] \<Rightarrow> True
     | _ \<Rightarrow> False)"

definition test_save_and_get :: bool where
  "test_save_and_get \<longleftrightarrow> with_part_id ''123456789XX422611100001'' (\<lambda>id.
     let operation = [(43, lit ''third'', VString (Some (lit ''blabla'')))];
         sheet = lit ''123456789XX422611100001'' in
     fst (test_run 0
       [test_save id [(561, lit ''first'', VBoolean True), (458, lit ''second'', VUInt16 42)] operation,
        GetSheet sheet (),
        test_save id [(561, lit ''first'', VBoolean False)] operation,
        GetSheet sheet ()])
     = [Saved (Inr ()), Sheet (Inr (Some [(561, VBoolean True), (458, VUInt16 42)])),
        Saved (Inr ()), Sheet (Inr (Some [(561, VBoolean False)]))])"

definition test_batch_without_queue_tables :: bool where
  "test_batch_without_queue_tables \<longleftrightarrow>
     fst (test_run 0 (map GetBatch queue_tables)) = map (\<lambda>_. Batch (Inr ([], []))) queue_tables"

text \<open>The row of a part in the body of a batch, as the compact printer gives it.\<close>

definition test_row :: "string \<Rightarrow> string \<Rightarrow> string \<Rightarrow> str" where
  "test_row part_id name json =
     [123] @ json_str (lit ''saved_at'') @ [58] @ json_str (lit ''1984-12-09 04:30:00.000'') @ [44] @
     json_str (lit ''machine_id'') @ [58] @ json_str (lit ''MAC1'') @ [44] @
     json_str (lit ''part_id'') @ [58] @ json_str (lit part_id) @ [44] @
     json_str (lit ''data'') @ [58, 123] @ json_str (lit name) @ [58] @ lit json @ [125, 125]"

definition test_enqueue_rows :: bool where
  "test_enqueue_rows \<longleftrightarrow> with_part_id zeros_id (\<lambda>id0. with_part_id ones_id (\<lambda>id1.
     let general = [(1, lit ''first'', VBoolean True)]; operation = [(2, lit ''second'', VUInt16 42)] in
     fst (test_run 0 [test_save id0 general operation, test_save id1 general operation, GetBatch General, GetBatch Operation])
     = [Saved (Inr ()), Saved (Inr ()),
        Batch (Inr ([0, 2], test_row zeros_id ''first'' ''true'' @ [10] @ test_row ones_id ''first'' ''true'' @ [10])),
        Batch (Inr ([1, 3], test_row zeros_id ''second'' ''42'' @ [10] @ test_row ones_id ''second'' ''42'' @ [10]))]))"

definition test_remove_entries :: bool where
  "test_remove_entries \<longleftrightarrow> with_part_id zeros_id (\<lambda>id.
     let save = test_save id test_items test_items in
     case fst (test_run 0 [save, save, save, RemoveEntries General [0, 4, 99], GetBatch General, GetBatch Operation]) of
       [Saved (Inr _), Saved (Inr _), Saved (Inr _), Removed (Inr _), Batch (Inr (general_keys, general_body)),
        Batch (Inr (operation_keys, _))] \<Rightarrow>
         general_keys = [2] \<and> length (text_lines [] general_body) = 1 \<and> operation_keys = [1, 3, 5]
     | _ \<Rightarrow> False)"

definition test_sequence_not_reset :: bool where
  "test_sequence_not_reset \<longleftrightarrow> with_part_id zeros_id (\<lambda>id.
     let save = test_save id test_items test_items in
     case test_run 0 [save, GetBatch General] of
       ([Saved (Inr _), Batch (Inr (general, _))], db) \<Rightarrow>
         (case test_go_on 0 [RemoveEntries General general, GetBatch Operation] db of
            ([Removed (Inr _), Batch (Inr (operation, _))], db') \<Rightarrow>
              (case fst (test_go_on 0 [RemoveEntries Operation operation, save, GetBatch General, GetBatch Operation] db') of
                 [Removed (Inr _), Saved (Inr _), Batch (Inr (general', _)), Batch (Inr (operation', _))] \<Rightarrow>
                   general' = [2] \<and> operation' = [3]
               | _ \<Rightarrow> False)
          | _ \<Rightarrow> False)
     | _ \<Rightarrow> False)"

section \<open>The calls in memory\<close>

lemma in_memory_simps [simp]:
  "cache_redb (in_memory_cache h) = mem_redb" "queues_threshold (in_memory_cache h) = h"
  by (simp_all add: in_memory_cache_def)

text \<open>The entries of a tree are the sorted list with the same lookups.\<close>

lemma sorted_alist_unique:
  assumes "sorted_wrt (<) (map fst xs)" and "sorted_wrt (<) (map fst ys)" and "map_of xs = map_of ys"
  shows "xs = (ys :: ('k::linorder \<times> 'v) list)"
proof -
  have d: "sorted (map fst xs)" "distinct (map fst xs)" "sorted (map fst ys)" "distinct (map fst ys)"
    using assms(1,2) by (simp_all add: strict_sorted_iff)
  have "set (map fst xs) = set (map fst ys)"
    using arg_cong[OF assms(3), of dom] by (simp add: dom_map_of_conv_image_fst)
  then have k: "map fst xs = map fst ys" using sorted_distinct_set_unique d by blast
  have "map (\<lambda>k. (k, the (map_of zs k))) (map fst zs) = zs" if "distinct (map fst zs)" for zs :: "('k \<times> 'v) list"
    using that by (auto intro!: map_idI)
  then show ?thesis using k d assms(3) by metis
qed

lemma entries_eqI:
  assumes "sorted_wrt (<) (map fst kvs)" and "RBT.lookup t = map_of kvs"
  shows "RBT.entries t = kvs"
  using sorted_alist_unique[OF entries_sorted assms(1)] assms(2) by (simp add: map_of_entries)

lemma entries_empty [simp]: "RBT.entries RBT.empty = []"
  by (rule entries_eqI) simp_all

lemma mem_save_in:
  assumes "encode_sheets K ua L ts machine pid general operation ctx = Inr (bytes, jg, jo)"
  shows "save_part_sheets K ua L (in_memory_cache h) ts machine pid general operation ctx (MemDb m [])
    = (Inr (), MemDb (mem_saved (as_str pid) bytes jg jo m) [])"
  by (simp add: save_part_sheets_def assms save_block_def mem_run mem_saved_def split: option.splits)

definition mem_rows :: "queue_table \<Rightarrow> mem \<Rightarrow> (u64, str) rbt" where
  "mem_rows q m = table_or_empty (case q of General \<Rightarrow> m_general m | Operation \<Rightarrow> m_operation m)"

lemma mem_batch:
  assumes "RBT.entries (mem_rows q m) = kvs"
  shows "get_queue_batch (in_memory_cache h) q (MemDb m []) = (Inr (map fst kvs, json_lines_body kvs), MemDb m [])"
proof -
  have c: "collect (of_sum EStorage) (map Inr xs) = (Inr xs :: (redb_error, (u64 \<times> str) list) res)" for xs
    by (induction xs) simp_all
  show ?thesis
    using assms by (cases q; cases "case q of General \<Rightarrow> m_general m | Operation \<Rightarrow> m_operation m")
      (auto simp: get_queue_batch_def table_definition_def mem_run batch_of_def c json_lines_body_def mem_rows_def)
qed

lemma mem_check:
  assumes "length (RBT.entries (mem_rows General m)) = a" and "length (RBT.entries (mem_rows Operation m)) = b"
    and "a < 100" and "b < 100"
  shows "check_enqueuing_allowed (in_memory_cache h) (MemDb m [])
    = ((if (of_nat (a + b) :: u64) < h then Inr () else Inl (Err (TooMuchEnqueued (of_nat (a + b)) h))), MemDb m [])"
  using assms
  by (cases "m_general m"; cases "m_operation m")
    (auto simp: check_enqueuing_allowed_def queue_tables_def table_definition_def mem_run word_gt_0 mem_rows_def)

fun mem_removed :: "queue_table \<Rightarrow> u64 list \<Rightarrow> mem \<Rightarrow> mem" where
  "mem_removed General keys m = m\<lparr>m_general := Some (fold RBT.delete keys (table_or_empty (m_general m)))\<rparr>"
| "mem_removed Operation keys m = m\<lparr>m_operation := Some (fold RBT.delete keys (table_or_empty (m_operation m)))\<rparr>"

lemma mem_remove_keys:
  "remove_keys (mem_ops m_general (\<lambda>t. m_general_update (\<lambda>_. t))) keys (MemWrite b m [])
     = (Inr (), MemWrite b (if keys = [] then m else mem_removed General keys m) [])"
  "remove_keys (mem_ops m_operation (\<lambda>t. m_operation_update (\<lambda>_. t))) keys (MemWrite b m [])
     = (Inr (), MemWrite b (if keys = [] then m else mem_removed Operation keys m) [])"
  by (induction keys arbitrary: m) (auto simp: act_lift_def mem_ops_def act_bind_def act_call_def table_or_empty_def)

lemma mem_open_write:
  "open_write (mem_ops m_general (\<lambda>t. m_general_update (\<lambda>_. t))) (MemWrite b m []) = (Inr (), MemWrite b (mem_removed General [] m) [])"
  "open_write (mem_ops m_operation (\<lambda>t. m_operation_update (\<lambda>_. t))) (MemWrite b m []) = (Inr (), MemWrite b (mem_removed Operation [] m) [])"
  by (simp_all add: mem_ops_def)

lemma mem_removed_twice: "mem_removed q keys (mem_removed q [] m) = mem_removed q keys m"
  by (cases q) (simp_all add: table_or_empty_def)

lemma mem_remove: "remove_entries (in_memory_cache h) q keys (MemDb m []) = (Inr (), MemDb (mem_removed q keys m) [])"
  using mem_removed_twice[of q keys m]
  by (cases q) (auto simp: remove_entries_def write_txn_def table_definition_def mem_redb_def act_bind_def act_call_def Let_def
      mem_open_write mem_remove_keys simp del: mem_removed.simps)

section \<open>The tests pass\<close>

lemma parsed_ids:
  "\<exists>pid. from_str 23 (lit zeros_id) = Inr pid \<and> as_str pid = lit zeros_id"
  "\<exists>pid. from_str 23 (lit ones_id) = Inr pid \<and> as_str pid = lit ones_id"
  "\<exists>pid. from_str 23 (lit ''123456789XX422611100001'') = Inr pid \<and> as_str pid = lit ''123456789XX422611100001''"
  by (simp_all add: ascii_eval)

lemma test_serial_runs:
  "exec_call ex_libs (in_memory_cache h) (NextSerial d) (MemDb m [])
    = (Serial (Inr (serial_after (RBT.lookup (table_or_empty (m_serials m)) (strftime_ymd gregorian d)))),
       MemDb (m\<lparr>m_serials := Some (RBT.insert (strftime_ymd gregorian d)
         (serial_after (RBT.lookup (table_or_empty (m_serials m)) (strftime_ymd gregorian d)))
         (table_or_empty (m_serials m)))\<rparr>) [])"
  by (cases "RBT.lookup (table_or_empty (m_serials m)) (strftime_ymd gregorian d)")
    (simp_all add: next_serial_def mem_run serial_after_def)

lemma next_serial_test: "test_next_serial"
proof -
  have ok: "civil_ok (civil_constant 1984 12 9)" "civil_ok (civil_constant 1985 4 23)"
    by (simp_all add: civil_constant_def civil_ok_def month_lengths_def)
  have "civil_constant 1985 4 23 \<noteq> civil_constant 1984 12 9" by (simp add: civil_constant_def)
  then have "strftime_ymd gregorian (civil_constant 1985 4 23) \<noteq> strftime_ymd gregorian (civil_constant 1984 12 9)"
    using greg.ymd_inj[OF ok(2,1)] by blast
  then show ?thesis
    by (simp add: test_next_serial_def test_run_def test_serial_runs serial_after_def table_or_empty_def ex_mem_def
        lookup_insert del: exec_call.simps)
qed

lemma quiet_tests: "test_allowed_without_queue_tables" "test_allowed_zero_threshold" "test_batch_without_queue_tables"
  by (simp_all add: test_allowed_without_queue_tables_def test_allowed_zero_threshold_def test_batch_without_queue_tables_def
      test_run_def mem_check[where a = 0 and b = 0] mem_batch[where kvs = "[]"] json_lines_body_def ex_mem_def table_or_empty_def
      queue_tables_def mem_rows_def)

lemma test_save_runs:
  assumes "encode_sheets le_codec ex_ua ex_row () (lit ''MAC1'') pid general operation () = Inr (bytes, jg, jo)"
  shows "exec_call ex_libs (in_memory_cache h) (test_save pid general operation) (MemDb m [])
    = (Saved (Inr ()), MemDb (mem_saved (as_str pid) bytes jg jo m) [])"
  using mem_save_in[OF assms] by (simp add: test_save_def del: lit_Cons)

lemma test_items_encode:
  "\<exists>bytes jg jo. encode_sheets le_codec ex_ua ex_row () machine pid test_items test_items () = Inr (bytes, jg, jo)"
  by (simp add: test_items_def encode_sheets_def encode_part_sheet_for_cache_def count_u16_def written_def
      encode_item_def le_codec_def of_enc_def encode_part_sheet_for_db_def json_of_def serialize_row_def
      serialize_part_sheet_def serialize_timestamp_def compact_json_def serialize_ua_string_def del: lit_Cons)

lemma saved_rows:
  "mem_rows General (mem_saved p b jg jo ex_mem) = RBT.insert 0 jg RBT.empty"
  "mem_rows Operation (mem_saved p b jg jo ex_mem) = RBT.insert 1 jo RBT.empty"
  "mem_rows General (mem_saved p' b' jg' jo' (mem_saved p b jg jo ex_mem)) = RBT.insert 2 jg' (RBT.insert 0 jg RBT.empty)"
  "mem_rows Operation (mem_saved p' b' jg' jo' (mem_saved p b jg jo ex_mem)) = RBT.insert 3 jo' (RBT.insert 1 jo RBT.empty)"
  "mem_rows General (mem_saved p'' b'' jg'' jo'' (mem_saved p' b' jg' jo' (mem_saved p b jg jo ex_mem)))
    = RBT.insert 4 jg'' (RBT.insert 2 jg' (RBT.insert 0 jg RBT.empty))"
  "mem_rows Operation (mem_saved p'' b'' jg'' jo'' (mem_saved p' b' jg' jo' (mem_saved p b jg jo ex_mem)))
    = RBT.insert 5 jo'' (RBT.insert 3 jo' (RBT.insert 1 jo RBT.empty))"
  by (simp_all add: mem_rows_def mem_saved_def Let_def ex_mem_def table_or_empty_def)

lemma saved_entries:
  "RBT.entries (RBT.insert k v RBT.empty) = [(k, v)]"
  "RBT.entries (RBT.insert (2::u64) v' (RBT.insert 0 v RBT.empty)) = [(0, v), (2, v')]"
  "RBT.entries (RBT.insert (3::u64) v' (RBT.insert 1 v RBT.empty)) = [(1, v), (3, v')]"
  "RBT.entries (RBT.insert (4::u64) v'' (RBT.insert 2 v' (RBT.insert 0 v RBT.empty))) = [(0, v), (2, v'), (4, v'')]"
  "RBT.entries (RBT.insert (5::u64) v'' (RBT.insert 3 v' (RBT.insert 1 v RBT.empty))) = [(1, v), (3, v'), (5, v'')]"
  by (rule entries_eqI; auto simp: lookup_insert fun_eq_iff)+

lemma removed_rows:
  "mem_rows q (mem_removed q keys m) = fold RBT.delete keys (mem_rows q m)"
  "q' \<noteq> q \<Longrightarrow> mem_rows q' (mem_removed q keys m) = mem_rows q' m"
  by (cases q; cases q'; simp add: mem_rows_def table_or_empty_def)+

lemma test_batch_runs:
  assumes "RBT.entries (mem_rows q m) = kvs"
  shows "exec_call ex_libs (in_memory_cache h) (GetBatch q) (MemDb m [])
    = (Batch (Inr (map fst kvs, json_lines_body kvs)), MemDb m [])"
  using mem_batch[OF assms] by simp

lemma test_remove_runs:
  "exec_call ex_libs (in_memory_cache h) (RemoveEntries q keys) (MemDb m [])
    = (Removed (Inr ()), MemDb (mem_removed q keys m) [])"
  by (simp add: mem_remove del: mem_removed.simps)

lemma threshold_tests: "test_check_enqueuing_allowed" "test_allowed_after_draining"
proof -
  obtain pid where p: "from_str 23 (lit zeros_id) = Inr pid" using parsed_ids(1) by blast
  obtain bytes jg jo where e:
    "encode_sheets le_codec ex_ua ex_row () (lit ''MAC1'') pid test_items test_items () = Inr (bytes, jg, jo)"
    using test_items_encode by blast
  let ?s = "mem_saved (as_str pid) bytes jg jo"
  have c1: "exec_call ex_libs (in_memory_cache h) CheckEnqueuing (MemDb (?s ex_mem) [])
      = (Checked (if 2 < h then Inr () else Inl (Err (TooMuchEnqueued 2 h))), MemDb (?s ex_mem) [])" for h
    by (simp add: mem_check[where a = 1 and b = 1] saved_rows saved_entries)
  note r = test_save_runs[OF e]
  obtain bytes' jg' jo' where e':
    "encode_sheets le_codec ex_ua ex_row () (lit ''ID'') pid test_items test_items () = Inr (bytes', jg', jo')"
    using test_items_encode by blast
  let ?s' = "mem_saved (as_str pid) bytes' jg' jo'"
  have r': "exec_call ex_libs (in_memory_cache h) (SaveSheets () (lit ''ID'') pid test_items test_items ()) (MemDb m [])
      = (Saved (Inr ()), MemDb (?s' m) [])" for h m
    using mem_save_in[OF e'] by (simp del: lit_Cons)
  have c2: "exec_call ex_libs (in_memory_cache h) CheckEnqueuing (MemDb (?s' ex_mem) [])
      = (Checked (if 2 < h then Inr () else Inl (Err (TooMuchEnqueued 2 h))), MemDb (?s' ex_mem) [])"
    "exec_call ex_libs (in_memory_cache h) CheckEnqueuing (MemDb (?s' (?s' ex_mem)) [])
      = (Checked (if 4 < h then Inr () else Inl (Err (TooMuchEnqueued 4 h))), MemDb (?s' (?s' ex_mem)) [])" for h
    by (simp_all add: mem_check[where a = 1 and b = 1] mem_check[where a = 2 and b = 2] saved_rows saved_entries)
  show "test_check_enqueuing_allowed"
    unfolding test_check_enqueuing_allowed_def with_part_id_def p test_run_def Let_def
    by (simp add: r' c2 del: exec_call.simps lit_Cons)
  have d: "RBT.entries (RBT.delete 0 (RBT.insert (0::u64) jg RBT.empty)) = []"
    by (rule entries_eqI) (auto simp: lookup_insert fun_eq_iff)
  have c3: "exec_call ex_libs (in_memory_cache h) CheckEnqueuing (MemDb (mem_removed General [0] (?s ex_mem)) [])
      = (Checked (if 1 < h then Inr () else Inl (Err (TooMuchEnqueued 1 h))), MemDb (mem_removed General [0] (?s ex_mem)) [])" for h
    by (simp add: mem_check[where a = 0 and b = 1] removed_rows saved_rows saved_entries d del: mem_removed.simps)
  have g: "RBT.entries (mem_rows General (?s ex_mem)) = [(0, jg)]"
    by (simp add: saved_rows saved_entries)
  show "test_allowed_after_draining"
    unfolding test_allowed_after_draining_def with_part_id_def p test_run_def test_go_on_def
    by (simp add: r c1 c3 test_batch_runs[OF g] test_remove_runs del: exec_call.simps mem_removed.simps)
qed

lemma queue_tests: "test_remove_entries" "test_sequence_not_reset"
proof -
  obtain pid where p: "from_str 23 (lit zeros_id) = Inr pid" using parsed_ids(1) by blast
  obtain bytes jg jo where e:
    "encode_sheets le_codec ex_ua ex_row () (lit ''MAC1'') pid test_items test_items () = Inr (bytes, jg, jo)"
    using test_items_encode by blast
  let ?s = "mem_saved (as_str pid) bytes jg jo"
  note r = test_save_runs[OF e]
  have lines: "10 \<notin> set jg"
    using encode_sheets_lines[of ex_libs, OF _ e[folded ex_libs_simps(4)]] cjson.json_lines_axioms by simp
  let ?m3 = "?s (?s (?s ex_mem))"
  have d3: "RBT.entries (RBT.delete 99 (RBT.delete 4 (RBT.delete 0 (RBT.insert (4::u64) jg (RBT.insert 2 jg (RBT.insert 0 jg RBT.empty)))))) = [(2, jg)]"
    by (rule entries_eqI) (auto simp: lookup_insert fun_eq_iff)
  have g3: "RBT.entries (mem_rows General (mem_removed General [0, 4, 99] ?m3)) = [(2, jg)]"
    by (simp add: removed_rows saved_rows d3 del: mem_removed.simps)
  have o3: "RBT.entries (mem_rows Operation (mem_removed General [0, 4, 99] ?m3)) = [(1, jo), (3, jo), (5, jo)]"
    by (simp add: removed_rows saved_rows saved_entries del: mem_removed.simps)
  show "test_remove_entries"
    unfolding test_remove_entries_def with_part_id_def p test_run_def Let_def
    using lines
    by (simp add: r test_batch_runs[OF g3] test_batch_runs[OF o3] test_remove_runs json_lines_body_def text_lines_line del: exec_call.simps mem_removed.simps)
  let ?m0 = "mem_removed General [0] (?s ex_mem)"
  let ?m1 = "mem_removed Operation [1] ?m0"
  have b1: "RBT.entries (mem_rows General (?s ex_mem)) = [(0, jg)]" "RBT.entries (mem_rows Operation ?m0) = [(1, jo)]"
    by (simp_all add: removed_rows saved_rows saved_entries del: mem_removed.simps)
  have sq: "mem_rows General (?s ?m1) = RBT.insert 2 jg (RBT.delete 0 (RBT.insert 0 jg RBT.empty))"
    "mem_rows Operation (?s ?m1) = RBT.insert 3 jo (RBT.delete 1 (RBT.insert 1 jo RBT.empty))"
    by (simp_all add: mem_rows_def mem_saved_def Let_def ex_mem_def table_or_empty_def)
  have b2: "RBT.entries (mem_rows General (?s ?m1)) = [(2, jg)]" "RBT.entries (mem_rows Operation (?s ?m1)) = [(3, jo)]"
    unfolding sq by (rule entries_eqI; auto simp: lookup_insert fun_eq_iff)+
  show "test_sequence_not_reset"
    unfolding test_sequence_not_reset_def with_part_id_def p test_run_def test_go_on_def Let_def
    by (simp add: r test_batch_runs[OF b1(1)] test_batch_runs[OF b1(2)] test_batch_runs[OF b2(1)]
        test_batch_runs[OF b2(2)] test_remove_runs del: exec_call.simps mem_removed.simps)
qed

lemma test_sheet_runs:
  "exec_call ex_libs (in_memory_cache h) (GetSheet k ()) (MemDb m [])
    = (Sheet (case m_sheets m of
         None \<Rightarrow> Inl (Err (Get_Table (TableDoesNotExist [])))
       | Some t \<Rightarrow> (case RBT.lookup t k of
           None \<Rightarrow> Inr None
         | Some bytes \<Rightarrow> (case decode_cached_part_sheet le_codec () bytes of
             Inl e \<Rightarrow> Inl (Err (Decoding e)) | Inr sheet \<Rightarrow> Inr (Some sheet)))), MemDb m [])"
  by (cases "m_sheets m")
    (auto simp: get_general_part_sheet_def mem_run split: option.splits sum.splits)

lemma encoded_sheet:
  assumes "encode_sheets le_codec ex_ua ex_row () machine pid general operation () = Inr (bytes, jg, jo)"
    and "list_all (\<lambda>i. value_ok (item_value i)) general"
  shows "decode_cached_part_sheet le_codec () bytes = Inr (map cached_item general)"
proof (rule lec.decode_encoded_sheet[OF _ assms(2)])
  show "encode_part_sheet_for_cache le_codec () general = Inr bytes"
    using assms(1) by (auto simp: encode_sheets_def res_bind_eq_Inr map_err_eq_Inr)
qed

lemma mem_saved_sheets: "m_sheets (mem_saved p b jg jo m) = Some (RBT.insert p b (table_or_empty (m_sheets m)))"
  by (simp add: mem_saved_def Let_def)

lemmas encodes_eval =
  encode_sheets_def encode_part_sheet_for_cache_def count_u16_def written_def encode_item_def le_codec_def of_enc_def
  encode_part_sheet_for_db_def json_of_def serialize_row_def serialize_part_sheet_def serialize_timestamp_def
  compact_json_def serialize_ua_string_def

lemma sheet_tests: "test_get_missing" "test_save_and_get"
proof -
  obtain pid where p: "from_str 23 (lit zeros_id) = Inr pid" "as_str pid = lit zeros_id" using parsed_ids(1) by blast
  have "\<exists>bytes jg jo. encode_sheets le_codec ex_ua ex_row () (lit ''MAC1'') pid [(1, lit ''first'', VUInt32 1)] [] () = Inr (bytes, jg, jo)"
    by (simp add: encodes_eval del: lit_Cons)
  then obtain bytes jg jo where
    e: "encode_sheets le_codec ex_ua ex_row () (lit ''MAC1'') pid [(1, lit ''first'', VUInt32 1)] [] () = Inr (bytes, jg, jo)"
    by blast
  have n: "lit ones_id \<noteq> lit zeros_id" by simp
  show "test_get_missing"
    unfolding test_get_missing_def with_part_id_def p(1) test_run_def
    using n by (simp add: test_save_runs[OF e] test_sheet_runs mem_saved_sheets p(2) ex_mem_def table_or_empty_def lookup_insert
        del: exec_call.simps lit_Cons)
  obtain qid where q: "from_str 23 (lit ''123456789XX422611100001'') = Inr qid" "as_str qid = lit ''123456789XX422611100001''"
    using parsed_ids(3) by blast
  let ?op = "[(43, lit ''third'', VString (Some (lit ''blabla'')))] :: saved_item list"
  let ?two = "[(561, lit ''first'', VBoolean True), (458, lit ''second'', VUInt16 42)] :: saved_item list"
  let ?one = "[(561, lit ''first'', VBoolean False)] :: saved_item list"
  have "\<exists>bytes jg jo. encode_sheets le_codec ex_ua ex_row () (lit ''MAC1'') qid ?two ?op () = Inr (bytes, jg, jo)"
    by (simp add: encodes_eval del: lit_Cons)
  then obtain b2 g2 o2 where e2: "encode_sheets le_codec ex_ua ex_row () (lit ''MAC1'') qid ?two ?op () = Inr (b2, g2, o2)"
    by blast
  have "\<exists>bytes jg jo. encode_sheets le_codec ex_ua ex_row () (lit ''MAC1'') qid ?one ?op () = Inr (bytes, jg, jo)"
    by (simp add: encodes_eval del: lit_Cons)
  then obtain b1 g1 o1 where e1: "encode_sheets le_codec ex_ua ex_row () (lit ''MAC1'') qid ?one ?op () = Inr (b1, g1, o1)"
    by blast
  have d: "decode_cached_part_sheet le_codec () b2 = Inr (map cached_item ?two)"
    "decode_cached_part_sheet le_codec () b1 = Inr (map cached_item ?one)"
    by (rule encoded_sheet[OF e2], simp) (rule encoded_sheet[OF e1], simp)
  show "test_save_and_get"
    unfolding test_save_and_get_def with_part_id_def q(1) test_run_def Let_def
    by (simp add: test_save_runs[OF e2] test_save_runs[OF e1] test_sheet_runs mem_saved_sheets q(2) lookup_insert d cached_item_def
        del: exec_call.simps lit_Cons)
qed

lemma rows_test: "test_enqueue_rows"
proof -
  obtain id0 where p0: "from_str 23 (lit zeros_id) = Inr id0" "as_str id0 = lit zeros_id" using parsed_ids(1) by blast
  obtain id1 where p1: "from_str 23 (lit ones_id) = Inr id1" "as_str id1 = lit ones_id" using parsed_ids(2) by blast
  have row: "\<exists>bytes. encode_sheets le_codec ex_ua ex_row () (lit ''MAC1'') pid [(1, lit ''first'', VBoolean True)]
      [(2, lit ''second'', VUInt16 42)] () = Inr (bytes, test_row part ''first'' ''true'', test_row part ''second'' ''42'')"
    if "as_str pid = lit part" for pid part
  proof -
    have i: "json_int (uint (42 :: u16)) = lit ''42''" by (simp add: json_int_def show_dec_unfold)
    show ?thesis using that i by (simp add: encodes_eval test_row_def ex_row_def del: lit_Cons)
  qed
  obtain b0 where e0: "encode_sheets le_codec ex_ua ex_row () (lit ''MAC1'') id0 [(1, lit ''first'', VBoolean True)]
      [(2, lit ''second'', VUInt16 42)] () = Inr (b0, test_row zeros_id ''first'' ''true'', test_row zeros_id ''second'' ''42'')"
    using row[OF p0(2)] by blast
  obtain b1 where e1: "encode_sheets le_codec ex_ua ex_row () (lit ''MAC1'') id1 [(1, lit ''first'', VBoolean True)]
      [(2, lit ''second'', VUInt16 42)] () = Inr (b1, test_row ones_id ''first'' ''true'', test_row ones_id ''second'' ''42'')"
    using row[OF p1(2)] by blast
  let ?jg0 = "test_row zeros_id ''first'' ''true''" and ?jo0 = "test_row zeros_id ''second'' ''42''"
  let ?jg1 = "test_row ones_id ''first'' ''true''" and ?jo1 = "test_row ones_id ''second'' ''42''"
  let ?m = "mem_saved (as_str id1) b1 ?jg1 ?jo1 (mem_saved (as_str id0) b0 ?jg0 ?jo0 ex_mem)"
  have g: "RBT.entries (mem_rows General ?m) = [(0, ?jg0), (2, ?jg1)]"
    and o: "RBT.entries (mem_rows Operation ?m) = [(1, ?jo0), (3, ?jo1)]"
    by (simp_all only: saved_rows saved_entries)
  show ?thesis
    unfolding test_enqueue_rows_def with_part_id_def p0(1) p1(1) test_run_def Let_def
    by (simp add: test_save_runs[OF e0] test_save_runs[OF e1] test_batch_runs[OF g] test_batch_runs[OF o] json_lines_body_def
        del: exec_call.simps lit_Cons)
qed

lemmas cache_tests = next_serial_test threshold_tests quiet_tests sheet_tests rows_test queue_tests


end
