(* ===== verification/Spec2Isabelle.thy ===== *)
theory Spec2Isabelle
  imports Main_Claims Queue_Bound Schedule_Claims Ascii_Schema Cache_Tests
begin

text \<open>
  A verification library of the OPC-UA line gateway.

  The gateway connects to the PLCs of the machines of a production line.  Each machine asks, through
  a request node, for a part identifier, for the part sheet that travels with a part, or for the
  sheets of a part to be saved; the gateway answers with a response code.  Sheets are kept in an
  embedded database (redb), which also holds two queues of rows that a task drains into an
  archive database (ClickHouse).  The model follows the code under \<^verbatim>\<open>src/src\<close> (the service) and
  \<^verbatim>\<open>src/crates/config/src\<close> (its configuration); definitions keep the names of the code.

  \<^bold>\<open>Vocabulary.\<close> \<^verbatim>\<open>Gw_Prelude\<close>: machine integers as words, strings as lists of Unicode scalar values,
  results with errors and panics, and actions on a state; a question mark of the code is a
  bind, an \<^verbatim>\<open>expect\<close> is a panic.  \<^verbatim>\<open>Async_World\<close>: awaited calls act on a world, made of the surroundings and
  of the store of the cache, which other tasks may change meanwhile; blocking closures run on the
  store in one piece.

  \<^bold>\<open>Parts and theories.\<close>
  \<^item> \<^verbatim>\<open>Ascii_Text\<close>: \<^verbatim>\<open>ascii_text.rs\<close>, fixed-length identifiers.  \<^verbatim>\<open>Pattern_Match\<close> and \<^verbatim>\<open>Calendar\<close> give a
    backtracking matcher for the pattern of part references and the interface of dates;
    \<^verbatim>\<open>Part_Id\<close>: \<^verbatim>\<open>part_id.rs\<close>, creation and validation of part identifiers.
  \<^item> \<^verbatim>\<open>Ua_Values\<close>: \<^verbatim>\<open>data_value.rs\<close> and \<^verbatim>\<open>variant.rs\<close>, conversions and serialization of OPC-UA values.
    \<^verbatim>\<open>Ua_Session\<close>: the session services and \<^verbatim>\<open>session_ext.rs\<close>, checked writes.
  \<^item> \<^verbatim>\<open>Binary_Codec\<close>, \<^verbatim>\<open>Row_Json\<close>: the encodings of libraries as interfaces, with a little-endian codec
    and a compact printer as instances.  \<^verbatim>\<open>Part_Sheet\<close>: \<^verbatim>\<open>part_sheet.rs\<close>, the cached form and the row.
  \<^item> \<^verbatim>\<open>Redb\<close>: transactions of the embedded database as an interface, whose laws an in-memory store
    with injected faults satisfies.  \<^verbatim>\<open>Trace_Cache\<close>: \<^verbatim>\<open>cache.rs\<close>, each operation with its
    specification on the contents of the tables; \<^verbatim>\<open>Cache_Runs\<close> and \<^verbatim>\<open>Cache_Claims\<close> interleave calls,
    and \<^verbatim>\<open>Queue_Bound\<close> bounds the queues when several handlers check and then save.
  \<^item> \<^verbatim>\<open>Ascii_Schema\<close>: how identifiers are written in configuration files, the serialization and the JSON
    schema of \<^verbatim>\<open>ascii_text.rs\<close>, and the task of \<^verbatim>\<open>xtask-generate-config-schema\<close> that prints the schema.
  \<^item> \<^verbatim>\<open>Gw_Config\<close>: configuration and credentials.  \<^verbatim>\<open>Drain\<close>: \<^verbatim>\<open>database.rs\<close>, the draining task.
  \<^item> \<^verbatim>\<open>Trace_Handler\<close>: \<^verbatim>\<open>traceability/handler\<close>, initialization, requests, response codes, installation,
    and the two tasks of a machine; \<^verbatim>\<open>time.rs\<close>.  \<^verbatim>\<open>Handler_Laws\<close> states what a request does to the
    store when the other tasks obey a relation \<open>rely\<close>; \<^verbatim>\<open>Handler_Claims\<close> and \<^verbatim>\<open>Request_Claims\<close> its properties.
  \<^item> \<^verbatim>\<open>Gw_Session\<close>: \<^verbatim>\<open>client.rs\<close> and \<^verbatim>\<open>session.rs\<close>, connecting, starting and stopping a session.
    \<^verbatim>\<open>Session_Manager\<close>: \<^verbatim>\<open>session_manager.rs\<close>, the ticks as a function and the interleaving of the manager
    with its start tasks and event loops as a step relation; \<^verbatim>\<open>Manager_Claims\<close> proves its invariant,
    \<^verbatim>\<open>Manager_Runs\<close> exhibits runs and treats the shutdown.
  \<^item> \<^verbatim>\<open>Gw_Logging\<close>: the initialization of logging in \<^verbatim>\<open>main.rs\<close>, on a world of files, standard error and
    subscriber.  \<^verbatim>\<open>Gateway_Main\<close>: \<^verbatim>\<open>lib.rs\<close> and \<^verbatim>\<open>main.rs\<close>, the order in which the parts are started, signals,
    and the runs of the program; \<^verbatim>\<open>Main_Claims\<close> shows how a run ends.
  \<^item> \<^verbatim>\<open>Schedule\<close>: the composition.  While a task waits (for a session service, for a blocking thread or
    for ClickHouse) a schedule lets the other tasks make calls to the cache; under any such schedule the
    runtime, the sessions and ClickHouse satisfy the laws that \<^verbatim>\<open>Handler_Laws\<close> and \<^verbatim>\<open>Drain\<close> ask for.
    \<^verbatim>\<open>Schedule_Claims\<close> restates the main properties with hypotheses on the schedule only.
  \<^item> \<^verbatim>\<open>Value_Tests\<close>, \<^verbatim>\<open>Cache_Tests\<close>: the unit tests of the repository, one definition per test, on the inputs of
    the source, with the libraries instantiated.

  \<^bold>\<open>What is shown.\<close> Part identifiers are unique across machines and requests; a save stores what was read and
  a later read writes it back on any machine; a failure changes nothing; the archive loses no
  row whatever fails; the queues are bounded; serial numbers and sequence numbers never repeat; every request is
  answered by a code that tells what happened, and an answered one is not repeated on
  reconnection; a machine has at most one session, is retried within one tick, and the
  shutdown stops the registered sessions.  The operations of the cache refine their
  specifications, and the start of a session refines the step relation of the manager.
  Theorems about concurrent code hold for every behaviour of the other tasks that the
  stated relation allows; the interleaved calls of the cache satisfy it, so that in the
  composed program identifiers are unique, a sheet follows its part, and what a save stores reaches
  the archive with the next drain that succeeds, for every schedule.  A run of the program that ends
  without an error was shut down, and stopped every session registered then.  Logging keeps what
  its file contains; the JSON schema of an identifier and its parser accept the same texts.
  The model passes the unit tests that the repository keeps beside the modelled code.

  \<^bold>\<open>Bounds.\<close> Loops over timers and channels are recursions over the ticks or the values received before the
  cancellation, so they need no fuel.  Serial numbers are 32-bit words and sequence numbers
  64-bit words: properties that need it assume that they do not run out, for
  interleaved calls in the form \<open>numbers_left\<close>: each call finds some number left.  The properties of the
  queues start from contents that are \<open>queues_ok\<close>: those of an empty store are, and calls
  keep them so (\<open>others_between_queues\<close>).  Times are
  nanoseconds; timers are late by at most a given lag, below the three seconds that separate
  the connection timeout from the tick interval.

  \<^bold>\<open>Interfaces.\<close> The crates \<^verbatim>\<open>redb\<close>, \<^verbatim>\<open>opcua\<close>, \<^verbatim>\<open>clickhouse\<close>, \<^verbatim>\<open>jiff\<close>, \<^verbatim>\<open>regex\<close>, \<^verbatim>\<open>toml\<close>, \<^verbatim>\<open>serde_json\<close> and \<^verbatim>\<open>tokio\<close> are
  parameters, with the arguments that the code passes to their services (browse description and retry
  policy, subscription parameters, client settings, inserter options).  The laws used are locales:
  \<open>redb_store\<close>, \<open>binary_codec\<close>, \<open>json_lines\<close>, \<open>calendar\<close>, \<open>digit_class\<close>, \<open>drain_world\<close>, \<open>handler_world\<close> and
  \<open>logging_lib\<close>, each interpreted on an instance; \<open>schedule\<close> and its extensions \<open>scheduled_machine\<close>,
  \<open>scheduled_part\<close> and \<open>scheduled_drain\<close> are sublocales of \<open>handler_world\<close> and \<open>drain_world\<close>.

  \<^bold>\<open>Not modelled.\<close> Log statements and spans; the serde and schemars code that macros derive; the byte
  lengths that only size buffers; the timestamps asked of the session services; the interleaving of
  log file writes with hangups; integration tests, packaging and dashboards.
\<close>

end
